theory Spec2Isabelle
  imports Main "HOL-Library.Word"
begin

unbundle bit_operations_syntax

section \<open>Data model\<close>

text \<open>
  Go's \<open>int64\<close> is a 64-bit word: \<open>+\<close> and \<open>-\<close> wrap, \<open><<\<close> is \<open>push_bit\<close>,
  \<open>>>\<close> on a signed operand is the arithmetic shift \<open>signed_drop_bit\<close>, and the
  comparisons \<open><\<close>, \<open>>=\<close> are the signed ones (\<open><s\<close>, \<open>\<le>s\<close>).
\<close>

type_synonym int64 = "64 word"
type_synonym Snowflake = "64 word"

text \<open>
  One value of \<open>time.Now()\<close>. The standard library is not part of the repository, so a
  reading is a parameter of the model: \<open>UnixMilli\<close> is the wall clock in milliseconds
  (what \<open>t.UnixMilli()\<close> returns), \<open>monotonic\<close> the monotonic clock in nanoseconds,
  which is what \<open>Add\<close> and \<open>Before\<close> work on for values that come from \<open>time.Now()\<close>.
  A clock is the list of the readings that the successive calls of \<open>time.Now()\<close>
  return; nothing is assumed about it. \<open>time.Sleep\<close> changes no variable of the
  program: a round of a loop that ends in a sleep says so, with the duration passed to
  \<open>time.Sleep\<close>, and the readings that follow are arbitrary.
\<close>

record Time =
  UnixMilli :: int64
  monotonic :: int

type_synonym clock = "Time list"

datatype error = ErrInvalidNodeId | ErrGenerationClockRollback

text \<open>\<open>time.Millisecond\<close>: a \<open>time.Duration\<close> is a number of nanoseconds.\<close>

definition Millisecond :: int where
  "Millisecond = 1000000"

subsection \<open>Constants of both files\<close>

definition TwitterEpoch :: int64 where
  "TwitterEpoch = 1288834974657"

definition DiscordEpoch :: int64 where
  "DiscordEpoch = 1420070400000"

definition snowflakeTimestampBits :: nat where
  "snowflakeTimestampBits = 41"

definition snowflakeNodeIdBits :: nat where
  "snowflakeNodeIdBits = 10"

definition snowflakeSequenceBits :: nat where
  "snowflakeSequenceBits = 12"

definition snowflakeNodeIdShift :: nat where
  "snowflakeNodeIdShift = snowflakeSequenceBits"

definition snowflakeTimestampShift :: nat where
  "snowflakeTimestampShift = snowflakeSequenceBits + snowflakeNodeIdBits"

definition snowflakeSequenceMask :: int64 where
  "snowflakeSequenceMask = push_bit snowflakeSequenceBits 1 - 1"

text \<open>\<open>atomic.CompareAndSwapInt64(addr, old, new)\<close> on the current content \<open>cur\<close> of the
  address: whether it swapped, and the content afterwards.\<close>

definition CompareAndSwapInt64 :: "int64 \<Rightarrow> int64 \<Rightarrow> int64 \<Rightarrow> bool \<times> int64" where
  "CompareAndSwapInt64 cur old new = (if cur = old then (True, new) else (False, cur))"

text \<open>Line 98 of \<open>snowflake_generator.go\<close> and line 100 of \<open>part_001\<close>.\<close>

definition make_id :: "int64 \<Rightarrow> int64 \<Rightarrow> int64 \<Rightarrow> Snowflake" where
  "make_id ts nid sq = push_bit snowflakeTimestampShift ts OR nid OR sq"

section \<open>\<open>snowflake_generator.go\<close>: last timestamp and sequence in two atomic words\<close>

record SnowflakeGenerator =
  tsepoch :: int64
  shiftedNid :: int64
  st :: Time
  lts :: int64
  seq :: int64

text \<open>\<open>NewGenerator\<close> returns the pair (pointer, error) of the Go function; the third
  argument is the reading of its \<open>time.Now()\<close>.\<close>

definition NewGenerator ::
  "int64 \<Rightarrow> int64 \<Rightarrow> Time \<Rightarrow> SnowflakeGenerator option \<times> error option" where
  "NewGenerator nodeId timestampEpoch now =
     (if push_bit snowflakeNodeIdBits 1 \<le>s nodeId then (None, Some ErrInvalidNodeId)
      else (Some \<lparr>tsepoch = timestampEpoch,
                  shiftedNid = push_bit snowflakeNodeIdShift nodeId,
                  st = now, lts = 0, seq = 0\<rparr>, None))"

text \<open>What one round of a \<open>for\<close> loop of \<open>Generate\<close> ends in: \<open>continue\<close>, or
  \<open>time.Sleep(d)\<close> and then \<open>continue\<close>, or \<open>return\<close> with the pair (identifier, error)
  and the generator as the round leaves it.\<close>

datatype 'g round = Continue | Sleep int | Return "Snowflake \<times> error option" 'g

text \<open>
  The body of the loop of \<open>Generate\<close> (lines 69 to 99), run by one caller with no other
  caller between its loads and its compare-and-swap; \<open>t\<close> is the reading of
  \<open>time.Now()\<close> on line 69.
\<close>

definition Generate_round :: "SnowflakeGenerator \<Rightarrow> Time \<Rightarrow> SnowflakeGenerator round" where
  "Generate_round s t =
     (let now = UnixMilli t;
          relativeTs = now - tsepoch s;
          lastTs = lts s;
          sq = seq s
      in if relativeTs <s lastTs then Return (0, Some ErrGenerationClockRollback) s
         else if relativeTs = lastTs then
           (if sq = snowflakeSequenceMask then Sleep Millisecond
            else (let (swapped, v) = CompareAndSwapInt64 (seq s) sq (sq + 1)
                  in if \<not> swapped then Continue
                     else Return (make_id relativeTs (shiftedNid s) (sq + 1), None)
                                 (s\<lparr>seq := v\<rparr>)))
         else (let (swapped, v) = CompareAndSwapInt64 (lts s) lastTs relativeTs
               in if \<not> swapped then Continue
                  else Return (make_id relativeTs (shiftedNid s) 0, None)
                              (s\<lparr>lts := v, seq := 0\<rparr>)))"

text \<open>
  \<open>Generate\<close>: the result is the pair (identifier, error) of the Go function, the
  generator afterwards and the readings not yet consumed; \<open>None\<close> when the loop has
  not returned within the readings given.
\<close>

fun Generate ::
  "SnowflakeGenerator \<Rightarrow> clock \<Rightarrow>
     ((Snowflake \<times> error option) \<times> SnowflakeGenerator \<times> clock) option" where
  "Generate s [] = None"
| "Generate s (t # clk) =
     (case Generate_round s t of
        Continue \<Rightarrow> Generate s clk
      | Sleep d \<Rightarrow> Generate s clk
      | Return r s' \<Rightarrow> Some (r, s', clk))"

section \<open>\<open>unnamed/part_001\<close>: one packed atomic state word\<close>

record SnowflakeGenerator_P =
  tsepoch_P :: int64
  shiftedNid_P :: int64
  state_P :: int64

definition NewGenerator_P ::
  "int64 \<Rightarrow> int64 \<Rightarrow> SnowflakeGenerator_P option \<times> error option" where
  "NewGenerator_P nodeId timestampEpoch =
     (if push_bit snowflakeNodeIdBits 1 \<le>s nodeId then (None, Some ErrInvalidNodeId)
      else (Some \<lparr>tsepoch_P = timestampEpoch,
                  shiftedNid_P = push_bit snowflakeNodeIdShift nodeId,
                  state_P = 0\<rparr>, None))"

text \<open>
  The polling loop of lines 72 to 79: \<open>poll epoch prevTs deadline relativeTs clk\<close> is
  the value of \<open>relativeTs\<close> when the loop ends, the durations that the loop has
  passed to \<open>time.Sleep\<close> (line 78), in order, and the readings left. Each round
  reads the clock twice: once for \<open>Before(deadline)\<close>, once for \<open>UnixMilli()\<close>.
\<close>

fun poll ::
  "int64 \<Rightarrow> int64 \<Rightarrow> int \<Rightarrow> int64 \<Rightarrow> clock \<Rightarrow> (int64 \<times> int list \<times> clock) option" where
  "poll epoch prevTs deadline relativeTs [] = None"
| "poll epoch prevTs deadline relativeTs [c] =
     (if monotonic c < deadline then None else Some (relativeTs, [], []))"
| "poll epoch prevTs deadline relativeTs (c # n # clk) =
     (if monotonic c < deadline then
        (let relativeTs' = UnixMilli n - epoch
         in if prevTs \<le>s relativeTs' then Some (relativeTs', [], clk)
            else (case poll epoch prevTs deadline relativeTs' clk of
                    None \<Rightarrow> None
                  | Some (r, sleeps, clk') \<Rightarrow> Some (r, 1 * Millisecond # sleeps, clk')))
      else Some (relativeTs, [], n # clk))"

text \<open>Lines 70 to 79: the deadline is 15 ms after the reading taken on entry.\<close>

definition wait_rollback ::
  "int64 \<Rightarrow> int64 \<Rightarrow> int64 \<Rightarrow> clock \<Rightarrow> (int64 \<times> int list \<times> clock) option" where
  "wait_rollback epoch prevTs relativeTs clk =
     (if relativeTs <s prevTs then
        (case clk of
           [] \<Rightarrow> None
         | d # clk' \<Rightarrow> poll epoch prevTs (monotonic d + 15 * Millisecond) relativeTs clk')
      else Some (relativeTs, [], clk))"

text \<open>What one round of the loop of \<open>Generate\<close> does before its compare-and-swap.\<close>

datatype attempt = Rollback | Exhausted | Candidate int64 int64

definition attempt_P :: "int64 \<Rightarrow> int64 \<Rightarrow> clock \<Rightarrow> (attempt \<times> clock) option" where
  "attempt_P epoch prev clk =
     (case clk of
        [] \<Rightarrow> None
      | t # clk1 \<Rightarrow>
          (let now = UnixMilli t;
               relativeTs = now - epoch;
               prevTs = signed_drop_bit snowflakeSequenceBits prev;
               prevSeq = prev AND snowflakeSequenceMask
           in case wait_rollback epoch prevTs relativeTs clk1 of
                None \<Rightarrow> None
              | Some (relativeTs, sleeps, clk2) \<Rightarrow>
                  if relativeTs <s prevTs then Some (Rollback, clk2)
                  else if relativeTs = prevTs then
                    (if prevSeq = snowflakeSequenceMask then Some (Exhausted, clk2)
                     else Some (Candidate prevTs (prevSeq + 1), clk2))
                  else Some (Candidate relativeTs 0, clk2)))"

lemma poll_length:
  "poll epoch prevTs deadline r clk = Some (r', sl, clk') \<Longrightarrow> length clk' \<le> length clk"
  by (induction epoch prevTs deadline r clk arbitrary: r' sl clk' rule: poll.induct)
     (fastforce simp: Let_def split: if_splits option.splits)+

lemma wait_rollback_length:
  "wait_rollback epoch prevTs r clk = Some (r', sl, clk') \<Longrightarrow> length clk' \<le> length clk"
  by (auto simp: wait_rollback_def split: if_splits list.splits dest: poll_length)

lemma attempt_P_length:
  "attempt_P epoch prev clk = Some (a, clk') \<Longrightarrow> length clk' < length clk"
  by (auto simp: attempt_P_def Let_def split: list.splits option.splits if_splits
           dest: wait_rollback_length)

text \<open>One round of the loop of \<open>Generate\<close> (lines 61 to 102), run by one caller.\<close>

definition Generate_P_round ::
  "SnowflakeGenerator_P \<Rightarrow> clock \<Rightarrow> (SnowflakeGenerator_P round \<times> clock) option" where
  "Generate_P_round s clk =
     (let prev = state_P s
      in case attempt_P (tsepoch_P s) prev clk of
           None \<Rightarrow> None
         | Some (Rollback, clk') \<Rightarrow>
             Some (Return (0, Some ErrGenerationClockRollback) s, clk')
         | Some (Exhausted, clk') \<Rightarrow> Some (Sleep Millisecond, clk')
         | Some (Candidate nextTs nextSeq, clk') \<Rightarrow>
             (let newState = push_bit snowflakeSequenceBits nextTs OR nextSeq;
                  (swapped, v) = CompareAndSwapInt64 (state_P s) prev newState
              in if swapped then
                   Some (Return (make_id nextTs (shiftedNid_P s) nextSeq, None)
                                (s\<lparr>state_P := v\<rparr>), clk')
                 else Some (Continue, clk')))"

lemma Generate_P_round_length:
  "Generate_P_round s clk = Some (r, clk') \<Longrightarrow> length clk' < length clk"
  by (auto simp: Generate_P_round_def Let_def CompareAndSwapInt64_def
           split: option.splits attempt.splits if_splits dest: attempt_P_length)

function Generate_P ::
  "SnowflakeGenerator_P \<Rightarrow> clock \<Rightarrow>
     ((Snowflake \<times> error option) \<times> SnowflakeGenerator_P \<times> clock) option" where
  "Generate_P s clk =
     (case Generate_P_round s clk of
        None \<Rightarrow> None
      | Some (Continue, clk') \<Rightarrow> Generate_P s clk'
      | Some (Sleep d, clk') \<Rightarrow> Generate_P s clk'
      | Some (Return r s', clk') \<Rightarrow> Some (r, s', clk'))"
  by pat_completeness auto
termination
  by (relation "measure (\<lambda>(s, clk). length clk)") (auto dest: Generate_P_round_length)

section \<open>Callers and decoding\<close>

text \<open>
  A caller that calls \<open>Generate\<close> \<open>n\<close> times in a row on one generator, as the loops
  of \<open>snowflake_generator_test.go\<close> do: the results of the calls that returned, in
  order. \<open>gen\<close> is \<open>Generate\<close> or \<open>Generate_P\<close>.
\<close>

fun calls ::
  "('g \<Rightarrow> clock \<Rightarrow> ((Snowflake \<times> error option) \<times> 'g \<times> clock) option) \<Rightarrow>
     nat \<Rightarrow> 'g \<Rightarrow> clock \<Rightarrow> (Snowflake \<times> error option) list" where
  "calls gen 0 s clk = []"
| "calls gen (Suc n) s clk =
     (case gen s clk of
        None \<Rightarrow> []
      | Some (r, s', clk') \<Rightarrow> r # calls gen n s' clk')"

text \<open>The generator and the readings left when the \<open>n\<close> calls of that caller have all
  returned.\<close>

fun state_after ::
  "('g \<Rightarrow> clock \<Rightarrow> ((Snowflake \<times> error option) \<times> 'g \<times> clock) option) \<Rightarrow>
     nat \<Rightarrow> 'g \<Rightarrow> clock \<Rightarrow> ('g \<times> clock) option" where
  "state_after gen 0 s clk = Some (s, clk)"
| "state_after gen (Suc n) s clk =
     (case gen s clk of
        None \<Rightarrow> None
      | Some (r, s', clk') \<Rightarrow> state_after gen n s' clk')"

text \<open>The identifiers of the calls that returned a \<open>nil\<close> error.\<close>

definition successes :: "(Snowflake \<times> error option) list \<Rightarrow> Snowflake list" where
  "successes rs = map fst (filter (\<lambda>r. snd r = None) rs)"

text \<open>The three fields of an identifier, as \<open>TestSnowflakeGenerateBasic\<close> decodes them
  (lines 50 to 52 of \<open>snowflake_generator_test.go\<close>).\<close>

definition ts_field :: "Snowflake \<Rightarrow> int64" where
  "ts_field sf = signed_drop_bit snowflakeTimestampShift sf"

definition node_field :: "Snowflake \<Rightarrow> int64" where
  "node_field sf =
     signed_drop_bit snowflakeNodeIdShift sf AND (push_bit snowflakeNodeIdBits 1 - 1)"

definition seq_field :: "Snowflake \<Rightarrow> int64" where
  "seq_field sf = sf AND snowflakeSequenceMask"

text \<open>A signed 64-bit value that is not negative and fits \<open>k\<close> bits.\<close>

definition in_width :: "nat \<Rightarrow> int64 \<Rightarrow> bool" where
  "in_width k x = (0 \<le>s x \<and> x <s 2 ^ k)"

text \<open>The relative timestamp that \<open>Generate\<close> computes from a reading (lines 69 and 70,
  lines 61 and 62).\<close>

definition relative :: "int64 \<Rightarrow> Time \<Rightarrow> int64" where
  "relative epoch t = UnixMilli t - epoch"

text \<open>What the packed state word of \<open>part_001\<close> records (lines 65 and 66).\<close>

definition prevTs :: "int64 \<Rightarrow> int64" where
  "prevTs prev = signed_drop_bit snowflakeSequenceBits prev"

definition prevSeq :: "int64 \<Rightarrow> int64" where
  "prevSeq prev = prev AND snowflakeSequenceMask"

text \<open>Order on (timestamp, sequence) pairs: one step of a generator, and the
  lexicographic order.\<close>

definition pair_step :: "int64 \<times> int64 \<Rightarrow> int64 \<times> int64 \<Rightarrow> bool" where
  "pair_step a b = (fst b = fst a \<and> snd b = snd a + 1 \<or> fst a <s fst b)"

definition pair_le :: "int64 \<times> int64 \<Rightarrow> int64 \<times> int64 \<Rightarrow> bool" where
  "pair_le a b = (fst a <s fst b \<or> fst a = fst b \<and> snd a \<le>s snd b)"

definition id_pair :: "Snowflake \<Rightarrow> int64 \<times> int64" where
  "id_pair sf = (ts_field sf, seq_field sf)"

text \<open>A state of \<open>snowflake_generator.go\<close> and a state of \<open>part_001\<close> that record the
  same configuration, timestamp and sequence.\<close>

definition corresponds :: "SnowflakeGenerator \<Rightarrow> SnowflakeGenerator_P \<Rightarrow> bool" where
  "corresponds s p =
     (tsepoch_P p = tsepoch s \<and> shiftedNid_P p = shiftedNid s \<and>
      prevTs (state_P p) = lts s \<and> prevSeq (state_P p) = seq s)"

section \<open>Concurrent callers of \<open>snowflake_generator.go\<close>\<close>

text \<open>
  Where one caller of \<open>Generate\<close> stands between two accesses of the shared words:
  at the top of the loop, after line 70 (with \<open>relativeTs\<close>), after the load of line
  72 (with \<open>lastTs\<close>), after the load of line 73 (with \<open>seq\<close>), after a winning
  compare-and-swap of line 91, or returned.
\<close>

datatype caller =
    AtTop
  | HasTime int64
  | HasLts int64 int64
  | HasSeq int64 int64 int64
  | WonLts int64
  | Returned "Snowflake \<times> error option"

text \<open>
  One atomic step of one caller on the shared generator. The accesses of
  \<open>sync/atomic\<close> are sequentially consistent, so a run of several callers is an
  interleaving of such steps. The reading is used by the step from the top of the
  loop only. The sleep of line 81 touches no shared word: it leaves the caller at the
  top of the loop.
\<close>

fun caller_step :: "SnowflakeGenerator \<Rightarrow> caller \<Rightarrow> Time \<Rightarrow> SnowflakeGenerator \<times> caller" where
  "caller_step s AtTop t = (s, HasTime (UnixMilli t - tsepoch s))"
| "caller_step s (HasTime relativeTs) t = (s, HasLts relativeTs (lts s))"
| "caller_step s (HasLts relativeTs lastTs) t = (s, HasSeq relativeTs lastTs (seq s))"
| "caller_step s (HasSeq relativeTs lastTs sq) t =
     (if relativeTs <s lastTs then (s, Returned (0, Some ErrGenerationClockRollback))
      else if relativeTs = lastTs then
        (if sq = snowflakeSequenceMask then (s, AtTop)
         else (let (swapped, v) = CompareAndSwapInt64 (seq s) sq (sq + 1)
               in if \<not> swapped then (s, AtTop)
                  else (s\<lparr>seq := v\<rparr>,
                        Returned (make_id relativeTs (shiftedNid s) (sq + 1), None))))
      else (let (swapped, v) = CompareAndSwapInt64 (lts s) lastTs relativeTs
            in if \<not> swapped then (s, AtTop)
               else (s\<lparr>lts := v\<rparr>, WonLts relativeTs)))"
| "caller_step s (WonLts relativeTs) t =
     (s\<lparr>seq := 0\<rparr>, Returned (make_id relativeTs (shiftedNid s) 0, None))"
| "caller_step s (Returned r) t = (s, Returned r)"

text \<open>
  A schedule names, step by step, the caller that moves and what \<open>time.Now()\<close> would
  give it during that step; \<open>step\<close> is the step function of one of the two files.
  Each caller of the list makes one call: a goroutine that calls \<open>Generate\<close> again is
  one more caller.
\<close>

fun run_callers ::
  "('g \<Rightarrow> 'c \<Rightarrow> 'e \<Rightarrow> 'g \<times> 'c) \<Rightarrow> 'g \<Rightarrow> 'c list \<Rightarrow> (nat \<times> 'e) list \<Rightarrow> 'g \<times> 'c list" where
  "run_callers step s cs [] = (s, cs)"
| "run_callers step s cs ((i, e) # sched) =
     (if i < length cs then
        (let (s', c') = step s (cs ! i) e
         in run_callers step s' (cs[i := c']) sched)
      else run_callers step s cs sched)"

section \<open>Concurrent callers of \<open>part_001\<close>\<close>

text \<open>
  Where one caller of \<open>Generate\<close> of \<open>part_001\<close> stands: at the top of the loop,
  after line 62 (with \<open>relativeTs\<close>), after the load of line 64 (with \<open>relativeTs\<close>
  and \<open>prev\<close>), before the compare-and-swap of line 99 (with \<open>prev\<close>, \<open>nextTs\<close> and
  \<open>nextSeq\<close>), or returned.
\<close>

datatype caller_P =
    AtTop_P
  | HasTime_P int64
  | Loaded_P int64 int64
  | Ready_P int64 int64 int64
  | Returned_P "Snowflake \<times> error option"

text \<open>
  One step of one caller. Only the load and the compare-and-swap touch the shared
  word; lines 65 to 97, which read nothing but the clock, are one step, given the
  readings that it takes (when they are too few for the polling loop to end, the
  caller has not moved). The sleeps of lines 78 and 87 touch no shared word.
\<close>

fun caller_P_step ::
  "SnowflakeGenerator_P \<Rightarrow> caller_P \<Rightarrow> clock \<Rightarrow> SnowflakeGenerator_P \<times> caller_P" where
  "caller_P_step s AtTop_P clk =
     (case clk of
        [] \<Rightarrow> (s, AtTop_P)
      | t # _ \<Rightarrow> (s, HasTime_P (UnixMilli t - tsepoch_P s)))"
| "caller_P_step s (HasTime_P relativeTs) clk = (s, Loaded_P relativeTs (state_P s))"
| "caller_P_step s (Loaded_P relativeTs prev) clk =
     (let prevTs = signed_drop_bit snowflakeSequenceBits prev;
          prevSeq = prev AND snowflakeSequenceMask
      in case wait_rollback (tsepoch_P s) prevTs relativeTs clk of
           None \<Rightarrow> (s, Loaded_P relativeTs prev)
         | Some (relativeTs, _, _) \<Rightarrow>
             if relativeTs <s prevTs then (s, Returned_P (0, Some ErrGenerationClockRollback))
             else if relativeTs = prevTs then
               (if prevSeq = snowflakeSequenceMask then (s, AtTop_P)
                else (s, Ready_P prev prevTs (prevSeq + 1)))
             else (s, Ready_P prev relativeTs 0))"
| "caller_P_step s (Ready_P prev nextTs nextSeq) clk =
     (let newState = push_bit snowflakeSequenceBits nextTs OR nextSeq;
          (swapped, v) = CompareAndSwapInt64 (state_P s) prev newState
      in if swapped then
           (s\<lparr>state_P := v\<rparr>, Returned_P (make_id nextTs (shiftedNid_P s) nextSeq, None))
         else (s, AtTop_P))"
| "caller_P_step s (Returned_P r) clk = (s, Returned_P r)"

section \<open>The order of the winning compare-and-swaps\<close>

text \<open>
  A call that returns an identifier has won one compare-and-swap: the one of line 85
  or of line 91 in \<open>snowflake_generator.go\<close> (the identifier is fixed from then on: the
  round reads nothing shared afterwards), the one of line 99 in \<open>part_001\<close>. \<open>won s c c'\<close>
  is that identifier when the step that takes a caller from \<open>c\<close> to \<open>c'\<close> on the
  generator \<open>s\<close> is such a win.
\<close>

fun won_A :: "SnowflakeGenerator \<Rightarrow> caller \<Rightarrow> caller \<Rightarrow> Snowflake option" where
  "won_A s (HasSeq relativeTs lastTs sq) (Returned (sf, None)) = Some sf"
| "won_A s (HasSeq relativeTs lastTs sq) (WonLts r) = Some (make_id r (shiftedNid s) 0)"
| "won_A s c c' = None"

fun won_P :: "SnowflakeGenerator_P \<Rightarrow> caller_P \<Rightarrow> caller_P \<Rightarrow> Snowflake option" where
  "won_P s (Ready_P prev nextTs nextSeq) (Returned_P (sf, None)) = Some sf"
| "won_P s c c' = None"

text \<open>The identifiers of the calls of a run of concurrent callers, in the order of the
  compare-and-swaps that the calls win.\<close>

fun winners ::
  "('g \<Rightarrow> 'c \<Rightarrow> 'e \<Rightarrow> 'g \<times> 'c) \<Rightarrow> ('g \<Rightarrow> 'c \<Rightarrow> 'c \<Rightarrow> Snowflake option) \<Rightarrow>
     'g \<Rightarrow> 'c list \<Rightarrow> (nat \<times> 'e) list \<Rightarrow> Snowflake list" where
  "winners step won s cs [] = []"
| "winners step won s cs ((i, e) # sched) =
     (if i < length cs then
        (let (s', c') = step s (cs ! i) e;
             rest = winners step won s' (cs[i := c']) sched
         in case won s (cs ! i) c' of
              None \<Rightarrow> rest
            | Some sf \<Rightarrow> sf # rest)
      else winners step won s cs sched)"

text \<open>The readings of successive rounds of the polling loop of \<open>part_001\<close>, each
  round a reading for \<open>Before\<close> and a reading for \<open>UnixMilli\<close>, in the order in which
  the loop takes them.\<close>

definition flat :: "(Time \<times> Time) list \<Rightarrow> clock" where
  "flat rounds = concat (map (\<lambda>(c, n). [c, n]) rounds)"

section \<open>Orders on identifiers, invariants\<close>

text \<open>The order of two identifiers by their (timestamp, sequence) fields.\<close>

definition id_step :: "Snowflake \<Rightarrow> Snowflake \<Rightarrow> bool" where
  "id_step a b = pair_step (id_pair a) (id_pair b)"

definition id_le :: "Snowflake \<Rightarrow> Snowflake \<Rightarrow> bool" where
  "id_le a b = pair_le (id_pair a) (id_pair b)"

text \<open>Every relative timestamp that the clock can give is below \<open>2 ^ 41\<close>.\<close>

definition in_range :: "int64 \<Rightarrow> clock \<Rightarrow> bool" where
  "in_range epoch clk = (\<forall>t\<in>set clk. relative epoch t <s 2 ^ 41)"

text \<open>
  What a call that returned did, seen on the recorded (timestamp, sequence) pair:
  \<open>a\<close> before, \<open>b\<close> after, \<open>r\<close> the pair (identifier, error) returned.
\<close>

definition sound_step ::
  "int64 \<Rightarrow> int64 \<Rightarrow> clock \<Rightarrow> int64 \<times> int64 \<Rightarrow> Snowflake \<times> error option \<Rightarrow>
     int64 \<times> int64 \<Rightarrow> bool" where
  "sound_step epoch nid clk a r b =
     (r = (0, Some ErrGenerationClockRollback) \<and> b = a \<or>
      (\<exists>t\<in>set clk.
         relative epoch t = fst a \<and> snd a \<noteq> snowflakeSequenceMask \<and>
           r = (make_id (fst a) nid (snd a + 1), None) \<and> b = (fst a, snd a + 1) \<or>
         fst a <s relative epoch t \<and>
           r = (make_id (relative epoch t) nid 0, None) \<and> b = (relative epoch t, 0)))"

definition P_sound ::
  "SnowflakeGenerator_P \<Rightarrow> clock \<Rightarrow> Snowflake \<times> error option \<Rightarrow> SnowflakeGenerator_P \<Rightarrow>
     bool" where
  "P_sound p clk r p' =
     (tsepoch_P p' = tsepoch_P p \<and> shiftedNid_P p' = shiftedNid_P p \<and>
      (\<exists>b. sound_step (tsepoch_P p) (shiftedNid_P p) clk
              (prevTs (state_P p), prevSeq (state_P p)) r b \<and>
           (snd r = None \<longrightarrow> state_P p' = push_bit snowflakeSequenceBits (fst b) OR snd b) \<and>
           (snd r \<noteq> None \<longrightarrow> p' = p)))"

text \<open>The states that a generator built with a node id of 10 bits goes through while
  the relative timestamps fit 41 bits.\<close>

definition inv_A :: "int64 \<Rightarrow> int64 \<Rightarrow> SnowflakeGenerator \<Rightarrow> bool" where
  "inv_A nodeId epoch s =
     (tsepoch s = epoch \<and> shiftedNid s = push_bit snowflakeNodeIdShift nodeId \<and>
      in_width 10 nodeId \<and> in_width 41 (lts s) \<and> in_width 12 (seq s))"

definition inv_P :: "int64 \<Rightarrow> int64 \<Rightarrow> SnowflakeGenerator_P \<Rightarrow> bool" where
  "inv_P nodeId epoch p =
     (tsepoch_P p = epoch \<and> shiftedNid_P p = push_bit snowflakeNodeIdShift nodeId \<and>
      in_width 10 nodeId \<and> in_width 41 (prevTs (state_P p)))"

text \<open>What a concurrent caller of \<open>part_001\<close> holds in its local variables, while the
  relative timestamps fit 41 bits.\<close>

definition caller_ok :: "caller_P \<Rightarrow> bool" where
  "caller_ok c =
     (case c of
        HasTime_P r \<Rightarrow> r <s 2 ^ 41
      | Loaded_P r prev \<Rightarrow> r <s 2 ^ 41 \<and> in_width 41 (prevTs prev)
      | Ready_P prev ts sq \<Rightarrow>
          in_width 41 ts \<and> in_width 12 sq \<and> pair_step (prevTs prev, prevSeq prev) (ts, sq)
      | _ \<Rightarrow> True)"

definition callers_inv :: "int64 \<Rightarrow> int64 \<Rightarrow> SnowflakeGenerator_P \<Rightarrow> caller_P list \<Rightarrow> bool" where
  "callers_inv nodeId epoch p cs = (inv_P nodeId epoch p \<and> (\<forall>c\<in>set cs. caller_ok c))"

text \<open>The strict lexicographic order of two identifiers.\<close>

definition id_less :: "Snowflake \<Rightarrow> Snowflake \<Rightarrow> bool" where
  "id_less a b =
     (ts_field a <s ts_field b \<or> ts_field a = ts_field b \<and> seq_field a <s seq_field b)"

section \<open>Bits of bounded words\<close>

lemma pow2_lt_63: "n < 63 \<Longrightarrow> (2::int) ^ n < 2 ^ 63"
  by (rule power_strict_increasing) auto

lemma signed_take_bit_63_id:
  assumes "0 \<le> (k::int)" "k < 2 ^ 63"
  shows "signed_take_bit 63 k = k"
proof (rule signed_take_bit_int_eq_self)
  show "- (2 ^ 63) \<le> k" using assms(1) by (rule order_trans [rotated]) simp
  show "k < 2 ^ 63" by (rule assms(2))
qed

lemma sint_2p:
  assumes n: "n < 63"
  shows "sint (2 ^ n :: int64) = 2 ^ n"
proof -
  have "sint (2 ^ n :: int64) = sint (word_of_int (2 ^ n) :: int64)" by simp
  also have "\<dots> = signed_take_bit 63 (2 ^ n :: int)" by (simp only: sint_sbintrunc') simp
  also have "\<dots> = 2 ^ n"
    using n by (intro signed_take_bit_63_id pow2_lt_63) simp
  finally show ?thesis .
qed

lemma int_bits: "0 \<le> (k::int) \<Longrightarrow> k < 2 ^ n \<Longrightarrow> bit k i \<Longrightarrow> i < n"
  by (metis bit_take_bit_iff take_bit_int_eq_self)

lemma bits_int:
  assumes "\<And>i. bit (k::int) i \<Longrightarrow> i < n" "0 \<le> k"
  shows "k < 2 ^ n"
proof -
  have "take_bit n k = k"
    by (rule bit_eqI) (auto simp: bit_take_bit_iff dest: assms(1))
  then show ?thesis by (metis take_bit_int_less_exp)
qed

lemma sbounded_bits:
  fixes x :: int64
  assumes "0 \<le>s x" "x <s 2 ^ k" "k < 63" "bit x i"
  shows "i < k"
proof -
  have a: "0 \<le> sint x" using assms(1) by (simp add: word_sle_eq)
  have b: "sint x < 2 ^ k" using assms(2,3) by (simp add: word_sless_alt sint_2p)
  have "bit (sint x) i" using assms(4) by (simp add: bit_sint_iff)
  with a b show ?thesis by (rule int_bits)
qed

lemma bits_sbounded:
  fixes x :: int64
  assumes bits: "\<And>i. bit x i \<Longrightarrow> i < k" and k: "k < 63"
  shows "0 \<le>s x \<and> x <s 2 ^ k"
proof -
  have u: "uint x < 2 ^ k"
    by (rule bits_int) (auto simp: bit_uint_iff dest: bits)
  with pow2_lt_63 [OF k] have "uint x < 2 ^ 63" by linarith
  then have "signed_take_bit 63 (uint x) = uint x"
    by (intro signed_take_bit_63_id) auto
  then have "sint x = uint x"
    by (simp add: sint_uint)
  with u show ?thesis using k by (simp add: word_sle_eq word_sless_alt sint_2p)
qed

lemma in_width_bits: "k < 63 \<Longrightarrow> in_width k x \<longleftrightarrow> (\<forall>i. bit x i \<longrightarrow> i < k)"
  unfolding in_width_def using sbounded_bits [of x k] bits_sbounded [of x k] by blast

lemma in_width_uint:
  assumes "k < 63"
  shows "in_width k x \<longleftrightarrow> uint x < 2 ^ k"
proof
  assume "in_width k x"
  then have "\<And>i. bit x i \<Longrightarrow> i < k" using assms by (simp add: in_width_bits)
  then show "uint x < 2 ^ k" by (intro bits_int) (auto simp: bit_uint_iff)
next
  assume "uint x < 2 ^ k"
  then have "\<And>i. bit x i \<Longrightarrow> i < k"
    by (intro int_bits [of "uint x" k]) (auto simp: bit_uint_iff dest: bit_imp_le_length)
  then show "in_width k x" using assms by (simp add: in_width_bits)
qed

lemma in_width_0: "k < 63 \<Longrightarrow> in_width k 0"
  by (simp add: in_width_uint)

lemma in_width_above:
  assumes "in_width k a" "a \<le>s b" "b <s 2 ^ k"
  shows "in_width k b"
  using assms unfolding in_width_def by (meson signed.order_trans)

lemma in_width_mono:
  assumes "in_width k x" "k \<le> m" "m < 63"
  shows "in_width m x"
proof -
  from assms have "\<forall>i. bit x i \<longrightarrow> i < k" by (simp add: in_width_bits)
  with assms(2) have "\<forall>i. bit x i \<longrightarrow> i < m" by (auto intro: less_le_trans)
  with assms(3) show ?thesis by (simp add: in_width_bits)
qed

lemma mask_const: "snowflakeSequenceMask = mask 12"
  by (simp add: snowflakeSequenceMask_def snowflakeSequenceBits_def mask_eq_exp_minus_1)

lemma node_mask_const: "push_bit snowflakeNodeIdBits 1 - 1 = (mask 10 :: int64)"
  by (simp add: snowflakeNodeIdBits_def mask_eq_exp_minus_1)

lemmas shifts =
  snowflakeTimestampShift_def snowflakeNodeIdShift_def snowflakeSequenceBits_def
  snowflakeNodeIdBits_def

lemma seq_succ:
  assumes "in_width 12 sq" "sq \<noteq> snowflakeSequenceMask"
  shows "in_width 12 (sq + 1)"
proof -
  have "uint sq < 4096" using assms(1) by (simp add: in_width_uint)
  moreover have "sq \<noteq> 4095"
    using assms(2) by (simp add: snowflakeSequenceMask_def snowflakeSequenceBits_def)
  ultimately have "uint (sq + 1) < 4096" by uint_arith
  then show ?thesis by (simp add: in_width_uint)
qed

lemma in_width_prevSeq: "in_width 12 (prevSeq prev)"
  by (simp add: in_width_bits prevSeq_def mask_const bit_and_iff bit_mask_iff)

section \<open>Packing and unpacking\<close>

lemma ts_field_make_id:
  assumes "in_width 41 ts" "in_width 10 nid" "in_width 12 sq"
  shows "ts_field (make_id ts (push_bit snowflakeNodeIdShift nid) sq) = ts"
proof -
  have a: "\<And>i. bit ts i \<Longrightarrow> i < 41" "\<And>i. bit nid i \<Longrightarrow> i < 10"
    "\<And>i. bit sq i \<Longrightarrow> i < 12"
    using assms by (auto simp: in_width_bits)
  show ?thesis
    unfolding ts_field_def make_id_def shifts
    by (rule bit_word_eqI)
       (auto simp: bit_signed_drop_bit_iff bit_or_iff bit_push_bit_iff dest: a)
qed

lemma node_field_make_id:
  assumes "in_width 41 ts" "in_width 10 nid" "in_width 12 sq"
  shows "node_field (make_id ts (push_bit snowflakeNodeIdShift nid) sq) = nid"
proof -
  have a: "\<And>i. bit ts i \<Longrightarrow> i < 41" "\<And>i. bit nid i \<Longrightarrow> i < 10"
    "\<And>i. bit sq i \<Longrightarrow> i < 12"
    using assms by (auto simp: in_width_bits)
  show ?thesis
    unfolding node_field_def make_id_def node_mask_const unfolding shifts
    by (rule bit_word_eqI)
       (auto simp: bit_signed_drop_bit_iff bit_and_iff bit_mask_iff bit_or_iff
                   bit_push_bit_iff dest: a)
qed

lemma seq_field_make_id:
  assumes "in_width 12 sq"
  shows "seq_field (make_id ts (push_bit snowflakeNodeIdShift nid) sq) = sq"
proof -
  have a: "\<And>i. bit sq i \<Longrightarrow> i < 12"
    using assms by (auto simp: in_width_bits)
  show ?thesis
    unfolding seq_field_def make_id_def shifts mask_const
    by (rule bit_word_eqI)
       (auto simp: bit_and_iff bit_mask_iff bit_or_iff bit_push_bit_iff dest: a)
qed

lemma prevTs_pack:
  assumes "in_width 51 ts" "in_width 12 sq"
  shows "prevTs (push_bit snowflakeSequenceBits ts OR sq) = ts"
proof -
  have a: "\<And>i. bit ts i \<Longrightarrow> i < 51" "\<And>i. bit sq i \<Longrightarrow> i < 12"
    using assms by (auto simp: in_width_bits)
  show ?thesis
    unfolding prevTs_def shifts
    by (rule bit_word_eqI)
       (auto simp: bit_signed_drop_bit_iff bit_or_iff bit_push_bit_iff dest: a)
qed

lemma prevSeq_pack:
  assumes "in_width 12 sq"
  shows "prevSeq (push_bit snowflakeSequenceBits ts OR sq) = sq"
proof -
  have a: "\<And>i. bit sq i \<Longrightarrow> i < 12"
    using assms by (auto simp: in_width_bits)
  show ?thesis
    unfolding prevSeq_def shifts mask_const
    by (rule bit_word_eqI)
       (auto simp: bit_and_iff bit_mask_iff bit_or_iff bit_push_bit_iff dest: a)
qed

section \<open>What one call does\<close>

lemma Generate_round_eq:
  "Generate_round s t =
     (if relative (tsepoch s) t <s lts s then Return (0, Some ErrGenerationClockRollback) s
      else if relative (tsepoch s) t = lts s then
        (if seq s = snowflakeSequenceMask then Sleep Millisecond
         else Return (make_id (lts s) (shiftedNid s) (seq s + 1), None) (s\<lparr>seq := seq s + 1\<rparr>))
      else Return (make_id (relative (tsepoch s) t) (shiftedNid s) 0, None)
                  (s\<lparr>lts := relative (tsepoch s) t, seq := 0\<rparr>))"
  by (simp add: Generate_round_def CompareAndSwapInt64_def Let_def relative_def)

lemma sound_step_mono: "sound_step epoch nid clk a r b \<Longrightarrow> set clk \<subseteq> set clk2 \<Longrightarrow> sound_step epoch nid clk2 a r b"
  unfolding sound_step_def by blast

lemma signed_not_less_cases: "\<not> (a::int64) <s b \<Longrightarrow> a \<noteq> b \<Longrightarrow> b <s a"
  by (simp add: signed.not_less_iff_gr_or_eq)

lemma Generate_sound:
  "Generate s clk = Some (r, s', clk') \<Longrightarrow>
     sound_step (tsepoch s) (shiftedNid s) clk (lts s, seq s) r (lts s', seq s') \<and>
     tsepoch s' = tsepoch s \<and> shiftedNid s' = shiftedNid s \<and> st s' = st s \<and>
     (\<exists>ys. clk = ys @ clk')"
proof (induction clk)
  case Nil
  then show ?case by simp
next
  case (Cons t clk)
  show ?case
  proof (cases "Generate_round s t")
    case Continue
    with Cons.prems have "Generate s clk = Some (r, s', clk')" by simp
    from Cons.IH [OF this] show ?thesis
      by (auto intro: sound_step_mono [where clk = clk] intro!: exI [of _ "t # _"])
  next
    case (Sleep d)
    with Cons.prems have "Generate s clk = Some (r, s', clk')" by simp
    from Cons.IH [OF this] show ?thesis
      by (auto intro: sound_step_mono [where clk = clk] intro!: exI [of _ "t # _"])
  next
    case (Return r0 s0)
    with Cons.prems have eq: "r0 = r" "s0 = s'" "clk' = clk" by simp_all
    from Return show ?thesis unfolding eq Generate_round_eq sound_step_def
      by (auto split: if_splits dest: signed_not_less_cases)
  qed
qed

lemma poll_result:
  "poll epoch pTs dl r clk = Some (r', sl, clk') \<Longrightarrow>
     (r' = r \<or> (\<exists>t\<in>set clk. r' = relative epoch t)) \<and> (\<exists>ys. clk = ys @ clk')"
proof (induction epoch pTs dl r clk arbitrary: r' sl clk' rule: poll.induct)
  case (1 epoch prevTs deadline relativeTs)
  then show ?case by simp
next
  case (2 epoch prevTs deadline relativeTs c)
  then show ?case by (simp split: if_splits)
next
  case (3 epoch prevTs deadline relativeTs c n clk)
  show ?case
  proof (cases "monotonic c < deadline")
    case False
    with "3.prems" show ?thesis by auto
  next
    case True
    note within = this
    show ?thesis
    proof (cases "prevTs \<le>s UnixMilli n - epoch")
      case True
      with within "3.prems" show ?thesis
        by (auto simp: relative_def intro: exI [of _ "[c, n]"])
    next
      case False
      with within "3.prems" obtain sl0 where
        p: "poll epoch prevTs deadline (UnixMilli n - epoch) clk = Some (r', sl0, clk')"
        by (auto simp: Let_def split: option.splits)
      from "3.IH" [OF within refl False p]
      have "(r' = UnixMilli n - epoch \<or> (\<exists>t\<in>set clk. r' = relative epoch t)) \<and>
            (\<exists>ys. clk = ys @ clk')" .
      then show ?thesis
        by (auto simp: relative_def intro: exI [of _ "c # n # _"])
    qed
  qed
qed

lemma wait_rollback_result:
  "wait_rollback epoch pTs r clk = Some (r', sl, clk') \<Longrightarrow>
     (r' = r \<or> (\<exists>t\<in>set clk. r' = relative epoch t)) \<and> (\<exists>ys. clk = ys @ clk')"
  unfolding wait_rollback_def
  by (auto split: if_splits list.splits dest!: poll_result intro: exI [of _ "_ # _"])

lemma attempt_P_sound:
  assumes "attempt_P epoch prev clk = Some (a, clk')"
  shows "(\<exists>ys. clk = ys @ clk') \<and>
         (case a of
            Candidate ts sq \<Rightarrow>
              (\<exists>t\<in>set clk.
                 relative epoch t = prevTs prev \<and> prevSeq prev \<noteq> snowflakeSequenceMask \<and>
                   ts = prevTs prev \<and> sq = prevSeq prev + 1 \<or>
                 prevTs prev <s relative epoch t \<and> ts = relative epoch t \<and> sq = 0)
          | _ \<Rightarrow> True)"
proof -
  from assms obtain t clk1 where clk: "clk = t # clk1"
    by (cases clk) (auto simp: attempt_P_def)
  from assms clk obtain r' sl where
    w: "wait_rollback epoch (prevTs prev) (relative epoch t) clk1 = Some (r', sl, clk')"
    and a: "a = (if r' <s prevTs prev then Rollback
                 else if r' = prevTs prev then
                   (if prevSeq prev = snowflakeSequenceMask then Exhausted
                    else Candidate (prevTs prev) (prevSeq prev + 1))
                 else Candidate r' 0)"
    by (auto simp: attempt_P_def Let_def prevTs_def prevSeq_def relative_def
             split: option.splits if_splits)
  from wait_rollback_result [OF w]
  have r': "\<exists>t\<in>set clk. r' = relative epoch t" and suf: "\<exists>ys. clk = ys @ clk'"
    unfolding clk by (auto intro: exI [of _ "t # _"])
  from r' obtain t0 where t0: "t0 \<in> set clk" "r' = relative epoch t0" by blast
  consider (behind) "r' <s prevTs prev"
    | (same) "r' = prevTs prev"
    | (ahead) "prevTs prev <s r'"
    using signed_not_less_cases by blast
  then have "case a of
            Candidate ts sq \<Rightarrow>
              (\<exists>t\<in>set clk.
                 relative epoch t = prevTs prev \<and> prevSeq prev \<noteq> snowflakeSequenceMask \<and>
                   ts = prevTs prev \<and> sq = prevSeq prev + 1 \<or>
                 prevTs prev <s relative epoch t \<and> ts = relative epoch t \<and> sq = 0)
          | _ \<Rightarrow> True"
  proof cases
    case behind
    then show ?thesis by (simp add: a)
  next
    case same
    then show ?thesis using t0 by (auto simp: a)
  next
    case ahead
    then have "\<not> r' <s prevTs prev" "r' \<noteq> prevTs prev"
      by (auto simp: signed.less_asym)
    then show ?thesis using t0 ahead by (auto simp: a)
  qed
  with suf show ?thesis by simp
qed

lemma P_sound_mono: "P_sound p clk r p' \<Longrightarrow> set clk \<subseteq> set clk2 \<Longrightarrow> P_sound p clk2 r p'"
  unfolding P_sound_def by (elim conjE exE) (intro conjI exI, auto intro: sound_step_mono)

lemma Generate_P_round_eq:
  "Generate_P_round p clk =
     (case attempt_P (tsepoch_P p) (state_P p) clk of
        None \<Rightarrow> None
      | Some (Rollback, clk') \<Rightarrow> Some (Return (0, Some ErrGenerationClockRollback) p, clk')
      | Some (Exhausted, clk') \<Rightarrow> Some (Sleep Millisecond, clk')
      | Some (Candidate ts sq, clk') \<Rightarrow>
          Some (Return (make_id ts (shiftedNid_P p) sq, None)
                  (p\<lparr>state_P := push_bit snowflakeSequenceBits ts OR sq\<rparr>), clk'))"
  by (simp add: Generate_P_round_def CompareAndSwapInt64_def Let_def
           split: option.splits attempt.splits)

lemma Generate_P_round_sound:
  assumes "Generate_P_round p clk = Some (rd, clk')"
  shows "(\<exists>ys. clk = ys @ clk') \<and> (\<forall>r p'. rd = Return r p' \<longrightarrow> P_sound p clk r p')"
proof -
  from assms obtain a where a: "attempt_P (tsepoch_P p) (state_P p) clk = Some (a, clk')"
    by (auto simp: Generate_P_round_eq split: option.splits attempt.splits)
  note snd = attempt_P_sound [OF a]
  then have suf: "\<exists>ys. clk = ys @ clk'" by simp
  show ?thesis
  proof (cases a)
    case Rollback
    with assms a have rd: "rd = Return (0, Some ErrGenerationClockRollback) p"
      by (simp add: Generate_P_round_eq)
    have "P_sound p clk (0, Some ErrGenerationClockRollback) p"
      by (simp add: P_sound_def sound_step_def)
    with suf show ?thesis unfolding rd by simp
  next
    case Exhausted
    with assms a have "rd = Sleep Millisecond" by (simp add: Generate_P_round_eq)
    with suf show ?thesis by simp
  next
    case (Candidate ts sq)
    with assms a have rd: "rd = Return (make_id ts (shiftedNid_P p) sq, None)
        (p\<lparr>state_P := push_bit snowflakeSequenceBits ts OR sq\<rparr>)"
      by (simp add: Generate_P_round_eq)
    from snd Candidate have
      "sound_step (tsepoch_P p) (shiftedNid_P p) clk
         (prevTs (state_P p), prevSeq (state_P p))
         (make_id ts (shiftedNid_P p) sq, None) (ts, sq)"
      unfolding sound_step_def by auto
    then have "P_sound p clk (make_id ts (shiftedNid_P p) sq, None)
        (p\<lparr>state_P := push_bit snowflakeSequenceBits ts OR sq\<rparr>)"
      unfolding P_sound_def by (intro conjI exI [of _ "(ts, sq)"]) simp_all
    with suf show ?thesis unfolding rd by simp
  qed
qed

declare Generate_P.simps [simp del]

lemma Generate_P_sound:
  "Generate_P p clk = Some (r, p', clk') \<Longrightarrow> P_sound p clk r p' \<and> (\<exists>ys. clk = ys @ clk')"
proof (induction p clk rule: Generate_P.induct)
  case (1 s clk)
  from "1.prems" obtain rd clk1 where rd: "Generate_P_round s clk = Some (rd, clk1)"
    by (subst (asm) Generate_P.simps) (auto split: option.splits)
  note snd = Generate_P_round_sound [OF rd]
  then obtain ys where ys: "clk = ys @ clk1" by blast
  show ?case
  proof (cases rd)
    case Continue
    with rd "1.prems" have "Generate_P s clk1 = Some (r, p', clk')"
      by (subst (asm) Generate_P.simps) simp
    from "1.IH"(1) [OF rd refl Continue this]
    have "P_sound s clk1 r p'" "\<exists>zs. clk1 = zs @ clk'" by auto
    then show ?thesis unfolding ys
      by (auto intro: P_sound_mono [where clk = clk1])
  next
    case (Sleep d)
    with rd "1.prems" have "Generate_P s clk1 = Some (r, p', clk')"
      by (subst (asm) Generate_P.simps) simp
    from "1.IH"(2) [OF rd refl Sleep this]
    have "P_sound s clk1 r p'" "\<exists>zs. clk1 = zs @ clk'" by auto
    then show ?thesis unfolding ys
      by (auto intro: P_sound_mono [where clk = clk1])
  next
    case (Return r0 p0)
    with rd "1.prems" have "(r0, p0, clk1) = (r, p', clk')"
      by (subst (asm) Generate_P.simps) simp
    with snd Return show ?thesis by auto
  qed
qed

section \<open>Sequences of calls\<close>

lemma in_range_suffix: "in_range epoch (ys @ clk) \<Longrightarrow> in_range epoch clk"
  by (simp add: in_range_def)

lemma sound_step_widths:
  assumes "sound_step epoch nid clk a r b" "in_width 41 (fst a)" "in_width 12 (snd a)"
    "in_range epoch clk"
  shows "in_width 41 (fst b) \<and> in_width 12 (snd b) \<and>
         (if snd r = None then pair_step a b \<and> r = (make_id (fst b) nid (snd b), None)
          else b = a \<and> r = (0, Some ErrGenerationClockRollback))"
  using assms unfolding sound_step_def in_range_def pair_step_def
  by (auto simp: seq_succ in_width_0 intro: in_width_above [OF _ signed.less_imp_le])

lemma successes_Cons:
  "successes (r # rs) = (if snd r = None then fst r # successes rs else successes rs)"
  by (simp add: successes_def)

lemma successes_Nil: "successes [] = []"
  by (simp add: successes_def)

lemma calls_all:
  assumes step: "\<And>s clk r s' clk'. gen s clk = Some (r, s', clk') \<Longrightarrow> I s clk \<Longrightarrow>
                   I s' clk' \<and> (snd r = None \<longrightarrow> G (fst r))"
    and "I s clk"
  shows "\<forall>sf\<in>set (successes (calls gen n s clk)). G sf"
  using assms(2)
proof (induction n arbitrary: s clk)
  case 0
  then show ?case by (simp add: successes_Nil)
next
  case (Suc n)
  show ?case
  proof (cases "gen s clk")
    case None
    then show ?thesis by (simp add: successes_Nil)
  next
    case (Some x)
    then obtain r s' clk' where x: "gen s clk = Some (r, s', clk')" by (cases x) auto
    from step [OF x Suc.prems] Suc.IH [of s' clk'] show ?thesis
      by (auto simp: x successes_Cons)
  qed
qed

lemma successively_skip:
  "successively P (a # b # xs) \<Longrightarrow> successively P (b # xs)"
  by simp

lemma calls_chain:
  assumes step: "\<And>s clk r s' clk'. gen s clk = Some (r, s', clk') \<Longrightarrow> I s clk \<Longrightarrow>
                   I s' clk' \<and>
                   (if snd r = None then pair_step (v s) (v s') \<and> id_pair (fst r) = v s'
                    else v s' = v s)"
    and "I s clk"
  shows "successively pair_step (v s # map id_pair (successes (calls gen n s clk)))"
  using assms(2)
proof (induction n arbitrary: s clk)
  case 0
  then show ?case by (simp add: successes_Nil)
next
  case (Suc n)
  show ?case
  proof (cases "gen s clk")
    case None
    then show ?thesis by (simp add: successes_Nil)
  next
    case (Some x)
    then obtain r s' clk' where x: "gen s clk = Some (r, s', clk')" by (cases x) auto
    from step [OF x Suc.prems] Suc.IH [of s' clk'] show ?thesis
      by (auto simp: x successes_Cons)
  qed
qed

lemma NewGenerator_inv:
  assumes "NewGenerator nodeId epoch t0 = (Some s, None)" "0 \<le>s nodeId"
  shows "inv_A nodeId epoch s"
proof -
  from assms have "in_width 10 nodeId"
    by (auto simp: NewGenerator_def in_width_def snowflakeNodeIdBits_def signed.not_le
             split: if_splits)
  with assms show ?thesis
    by (auto simp: NewGenerator_def inv_A_def in_width_0 split: if_splits)
qed

lemma NewGenerator_P_inv:
  assumes "NewGenerator_P nodeId epoch = (Some p, None)" "0 \<le>s nodeId"
  shows "inv_P nodeId epoch p"
proof -
  from assms have "in_width 10 nodeId"
    by (auto simp: NewGenerator_P_def in_width_def snowflakeNodeIdBits_def signed.not_le
             split: if_splits)
  with assms show ?thesis
    by (auto simp: NewGenerator_P_def inv_P_def in_width_0 prevTs_def split: if_splits)
qed

lemma id_pair_make_id:
  assumes "in_width 41 ts" "in_width 10 nid" "in_width 12 sq"
  shows "id_pair (make_id ts (push_bit snowflakeNodeIdShift nid) sq) = (ts, sq)"
  using assms by (simp add: id_pair_def ts_field_make_id seq_field_make_id)

lemma Generate_step:
  assumes g: "Generate s clk = Some (r, s', clk')"
    and inv: "inv_A nodeId epoch s" and rng: "in_range epoch clk"
  shows "inv_A nodeId epoch s' \<and> in_range epoch clk' \<and>
         (if snd r = None
          then pair_step (lts s, seq s) (lts s', seq s') \<and> id_pair (fst r) = (lts s', seq s') \<and>
               fst r = make_id (lts s') (shiftedNid s) (seq s')
          else (lts s', seq s') = (lts s, seq s) \<and> r = (0, Some ErrGenerationClockRollback))"
proof -
  from Generate_sound [OF g] have
    snd: "sound_step epoch (shiftedNid s) clk (lts s, seq s) r (lts s', seq s')"
    and cfg: "tsepoch s' = tsepoch s" "shiftedNid s' = shiftedNid s"
    and suf: "\<exists>ys. clk = ys @ clk'"
    using inv by (auto simp: inv_A_def)
  have "in_width 41 (fst (lts s, seq s))" "in_width 12 (snd (lts s, seq s))"
    using inv by (auto simp: inv_A_def)
  from sound_step_widths [OF snd this rng]
  have w: "in_width 41 (lts s')" "in_width 12 (seq s')"
    and r: "if snd r = None
            then pair_step (lts s, seq s) (lts s', seq s') \<and>
                 r = (make_id (lts s') (shiftedNid s) (seq s'), None)
            else (lts s', seq s') = (lts s, seq s) \<and> r = (0, Some ErrGenerationClockRollback)"
    by (auto simp: inv_A_def)
  have nid: "shiftedNid s = push_bit snowflakeNodeIdShift nodeId" "in_width 10 nodeId"
    using inv by (auto simp: inv_A_def)
  from suf rng have "in_range epoch clk'" by (auto dest: in_range_suffix)
  moreover have "inv_A nodeId epoch s'" using inv cfg w by (auto simp: inv_A_def)
  moreover have "snd r = None \<Longrightarrow> id_pair (fst r) = (lts s', seq s')"
    using r w nid by (auto simp: id_pair_make_id split: if_splits)
  ultimately show ?thesis using r by (auto split: if_splits)
qed

lemma Generate_P_step:
  assumes g: "Generate_P p clk = Some (r, p', clk')"
    and inv: "inv_P nodeId epoch p" and rng: "in_range epoch clk"
  shows "inv_P nodeId epoch p' \<and> in_range epoch clk' \<and>
         (if snd r = None
          then pair_step (prevTs (state_P p), prevSeq (state_P p))
                         (prevTs (state_P p'), prevSeq (state_P p')) \<and>
               id_pair (fst r) = (prevTs (state_P p'), prevSeq (state_P p')) \<and>
               fst r = make_id (prevTs (state_P p')) (shiftedNid_P p) (prevSeq (state_P p'))
          else p' = p \<and> r = (0, Some ErrGenerationClockRollback))"
proof -
  from Generate_P_sound [OF g] have ps: "P_sound p clk r p'" and suf: "\<exists>ys. clk = ys @ clk'"
    by auto
  from ps obtain b where
    cfg: "tsepoch_P p' = tsepoch_P p" "shiftedNid_P p' = shiftedNid_P p"
    and snd: "sound_step epoch (shiftedNid_P p) clk (prevTs (state_P p), prevSeq (state_P p)) r b"
    and ok: "snd r = None \<Longrightarrow> state_P p' = push_bit snowflakeSequenceBits (fst b) OR snd b"
    and err: "snd r \<noteq> None \<Longrightarrow> p' = p"
    using inv by (auto simp: P_sound_def inv_P_def)
  have "in_width 41 (fst (prevTs (state_P p), prevSeq (state_P p)))"
    "in_width 12 (snd (prevTs (state_P p), prevSeq (state_P p)))"
    using inv by (auto simp: inv_P_def in_width_prevSeq)
  from sound_step_widths [OF snd this rng]
  have w: "in_width 41 (fst b)" "in_width 12 (snd b)"
    and r: "if snd r = None
            then pair_step (prevTs (state_P p), prevSeq (state_P p)) b \<and>
                 r = (make_id (fst b) (shiftedNid_P p) (snd b), None)
            else b = (prevTs (state_P p), prevSeq (state_P p)) \<and>
                 r = (0, Some ErrGenerationClockRollback)"
    by (auto simp: inv_P_def)
  have w51: "in_width 51 (fst b)"
    using w(1) by (rule in_width_mono) simp_all
  have dec: "snd r = None \<Longrightarrow> (prevTs (state_P p'), prevSeq (state_P p')) = b"
    using ok w w51 by (simp add: prevTs_pack prevSeq_pack)
  have nid: "shiftedNid_P p = push_bit snowflakeNodeIdShift nodeId" "in_width 10 nodeId"
    using inv by (auto simp: inv_P_def)
  from suf rng have "in_range epoch clk'" by (auto dest: in_range_suffix)
  moreover have "inv_P nodeId epoch p'"
  proof (cases "snd r = None")
    case True
    from dec [OF True] w have "in_width 41 (prevTs (state_P p'))" by (metis fst_conv)
    with inv cfg show ?thesis by (auto simp: inv_P_def)
  next
    case False
    with err inv show ?thesis by simp
  qed
  moreover have "snd r = None \<Longrightarrow> id_pair (fst r) = b"
    using r w nid by (auto simp: id_pair_make_id split: if_splits)
  ultimately show ?thesis using r dec err by (auto split: if_splits)
qed

lemma in_width_sint: "in_width k x \<Longrightarrow> k < 63 \<Longrightarrow> sint x = uint x"
proof -
  assume a: "in_width k x" "k < 63"
  then have "uint x < 2 ^ k" by (simp add: in_width_uint)
  with pow2_lt_63 [OF a(2)] have "uint x < 2 ^ 63" by linarith
  then have "signed_take_bit 63 (uint x) = uint x"
    by (intro signed_take_bit_63_id) auto
  then show ?thesis by (simp add: sint_uint)
qed

lemma in_width_seq_field: "in_width 12 (seq_field sf)"
  by (simp add: in_width_bits seq_field_def mask_const bit_and_iff bit_mask_iff)

lemma seq_le_succ:
  assumes "in_width 12 x"
  shows "x \<le>s x + 1"
proof -
  have u: "uint x < 4096" using assms by (simp add: in_width_uint)
  then have u1: "uint (x + 1) = uint x + 1"
    by (simp add: uint_word_ariths mod_pos_pos_trivial)
  with u have "in_width 13 (x + 1)" by (simp add: in_width_uint)
  then have "sint (x + 1) = uint (x + 1)" by (rule in_width_sint) simp
  moreover have "sint x = uint x" using assms by (rule in_width_sint) simp
  ultimately show ?thesis using u1 by (simp add: word_sle_eq)
qed

lemma id_step_le: "id_step a b \<Longrightarrow> id_le a b"
  unfolding id_step_def id_le_def pair_step_def pair_le_def id_pair_def
  by (auto simp: seq_le_succ in_width_seq_field)

lemma transp_id_le: "transp id_le"
  unfolding transp_def id_le_def pair_le_def
  by (auto intro: signed.less_trans signed.order_trans)

lemma successively_id_step:
  "successively pair_step (a # map id_pair ids) \<Longrightarrow>
     successively id_step ids \<and> sorted_wrt id_le ids"
proof -
  assume "successively pair_step (a # map id_pair ids)"
  then have "successively pair_step (map id_pair ids)"
    by (cases ids) auto
  then have s: "successively id_step ids"
    by (simp add: successively_map id_step_def)
  then have "successively id_le ids"
    by (rule successively_mono) (rule id_step_le)
  with s show ?thesis
    by (simp add: successively_conv_sorted_wrt [OF transp_id_le])
qed

lemma Generate_error:
  "Generate s clk = Some ((sf, Some e), s', clk') \<Longrightarrow>
     sf = 0 \<and> e = ErrGenerationClockRollback \<and> s' = s"
proof (induction clk)
  case Nil
  then show ?case by simp
next
  case (Cons t clk)
  then show ?case
    by (cases "Generate_round s t") (auto simp: Generate_round_eq split: if_splits)
qed

lemma Generate_P_error:
  assumes "Generate_P p clk = Some ((sf, Some e), p', clk')"
  shows "sf = 0 \<and> e = ErrGenerationClockRollback \<and> p' = p"
proof -
  from Generate_P_sound [OF assms] obtain b where
    "sound_step (tsepoch_P p) (shiftedNid_P p) clk (prevTs (state_P p), prevSeq (state_P p))
       (sf, Some e) b" and "p' = p"
    unfolding P_sound_def by auto
  then show ?thesis by (auto simp: sound_step_def)
qed

lemma NewGenerator_result:
  "NewGenerator nodeId epoch t0 =
     (if 1024 \<le>s nodeId then (None, Some ErrInvalidNodeId)
      else (Some \<lparr>tsepoch = epoch, shiftedNid = push_bit 12 nodeId, st = t0,
                  lts = 0, seq = 0\<rparr>, None))"
  by (simp add: NewGenerator_def shifts)

lemma NewGenerator_P_result:
  "NewGenerator_P nodeId epoch =
     (if 1024 \<le>s nodeId then (None, Some ErrInvalidNodeId)
      else (Some \<lparr>tsepoch_P = epoch, shiftedNid_P = push_bit 12 nodeId, state_P = 0\<rparr>, None))"
  by (simp add: NewGenerator_P_def shifts)

lemma sound_step_layout:
  assumes st: "sound_step epoch (push_bit snowflakeNodeIdShift nodeId) clk a (sf, None) b"
    and w: "in_width 41 (fst a)" "in_width 12 (snd a)" "in_width 10 nodeId"
    and rng: "in_range epoch clk"
  shows "\<exists>ts sq. sf = push_bit 22 ts OR push_bit 12 nodeId OR sq \<and>
           (\<exists>t\<in>set clk. ts = relative epoch t) \<and>
           in_width 41 ts \<and> in_width 10 nodeId \<and> in_width 12 sq \<and>
           ts_field sf = ts \<and> node_field sf = nodeId \<and> seq_field sf = sq"
proof -
  from sound_step_widths [OF st w(1,2) rng]
  have wb: "in_width 41 (fst b)" "in_width 12 (snd b)"
    and sf: "sf = make_id (fst b) (push_bit snowflakeNodeIdShift nodeId) (snd b)"
    by auto
  from st have rd: "\<exists>t\<in>set clk. fst b = relative epoch t"
    unfolding sound_step_def by (auto intro: bexI [rotated] sym)
  have "sf = push_bit 22 (fst b) OR push_bit 12 nodeId OR snd b"
    unfolding sf make_id_def shifts by simp
  moreover have "ts_field sf = fst b" "node_field sf = nodeId" "seq_field sf = snd b"
    unfolding sf using wb w(3)
    by (simp_all add: ts_field_make_id node_field_make_id seq_field_make_id)
  ultimately show ?thesis using rd wb w(3) by blast
qed

lemma Generate_suffix: "Generate s clk = Some (r, s', clk') \<Longrightarrow> \<exists>ys. clk = ys @ clk'"
  by (drule Generate_sound) simp

lemma Generate_P_suffix: "Generate_P p clk = Some (r, p', clk') \<Longrightarrow> \<exists>ys. clk = ys @ clk'"
  by (drule Generate_P_sound) simp

lemma sound_step_seq:
  assumes "sound_step epoch nid clk a r b" "in_width 12 (snd a)"
  shows "in_width 12 (snd b) \<and> (snd r = None \<longrightarrow> r = (make_id (fst b) nid (snd b), None))"
  using assms unfolding sound_step_def by (auto simp: seq_succ in_width_0)

lemma sound_step_exhausted:
  assumes "sound_step epoch nid clk a (sf, None) b" "snd a = snowflakeSequenceMask"
  shows "\<exists>u\<in>set clk. fst a <s relative epoch u \<and> sf = make_id (relative epoch u) nid 0 \<and>
           b = (relative epoch u, 0)"
  using assms unfolding sound_step_def by auto

lemma Generate_restart:
  assumes "seq s = snowflakeSequenceMask" "relative (tsepoch s) t = lts s"
  shows "Generate s (t # clk) = Generate s clk"
proof -
  have "Generate_round s t = Sleep Millisecond"
    using assms by (simp add: Generate_round_eq)
  then show ?thesis by simp
qed

lemma Generate_P_restart:
  assumes "prevSeq (state_P p) = snowflakeSequenceMask"
    "relative (tsepoch_P p) t = prevTs (state_P p)"
  shows "Generate_P p (t # clk) = Generate_P p clk"
proof -
  have "attempt_P (tsepoch_P p) (state_P p) (t # clk) = Some (Exhausted, clk)"
    using assms
    by (simp add: attempt_P_def wait_rollback_def Let_def relative_def prevTs_def prevSeq_def)
  then have "Generate_P_round p (t # clk) = Some (Sleep Millisecond, clk)"
    by (simp add: Generate_P_round_eq)
  then show ?thesis by (subst Generate_P.simps) simp
qed

lemma Generate_exhausted:
  assumes "seq s = snowflakeSequenceMask" "Generate s clk = Some ((sf, None), s', clk')"
  shows "\<exists>u\<in>set clk. lts s <s relative (tsepoch s) u \<and>
           sf = make_id (relative (tsepoch s) u) (shiftedNid s) 0 \<and>
           lts s' = relative (tsepoch s) u \<and> seq s' = 0"
proof -
  from Generate_sound [OF assms(2)]
  have "sound_step (tsepoch s) (shiftedNid s) clk (lts s, seq s) (sf, None) (lts s', seq s')"
    by simp
  from sound_step_exhausted [OF this] assms(1) show ?thesis by simp
qed

lemma Generate_P_exhausted:
  assumes "prevSeq (state_P p) = snowflakeSequenceMask"
    "Generate_P p clk = Some ((sf, None), p', clk')"
  shows "\<exists>u\<in>set clk. prevTs (state_P p) <s relative (tsepoch_P p) u \<and>
           sf = make_id (relative (tsepoch_P p) u) (shiftedNid_P p) 0 \<and>
           state_P p' = push_bit snowflakeSequenceBits (relative (tsepoch_P p) u) OR 0"
proof -
  from Generate_P_sound [OF assms(2)] obtain b where
    st: "sound_step (tsepoch_P p) (shiftedNid_P p) clk
       (prevTs (state_P p), prevSeq (state_P p)) (sf, None) b"
    and p': "state_P p' = push_bit snowflakeSequenceBits (fst b) OR snd b"
    unfolding P_sound_def by auto
  from sound_step_exhausted [OF st] assms(1) obtain u where
    "u \<in> set clk" "prevTs (state_P p) <s relative (tsepoch_P p) u"
    "sf = make_id (relative (tsepoch_P p) u) (shiftedNid_P p) 0"
    "b = (relative (tsepoch_P p) u, 0)"
    by auto
  with p' show ?thesis by auto
qed

lemma Generate_P_round_corresponds:
  assumes c: "corresponds s p" and nb: "lts s \<le>s relative (tsepoch s) t"
  shows "Generate_P_round p (t # clk) =
     (case Generate_round s t of
        Continue \<Rightarrow> Some (Continue, clk)
      | Sleep d \<Rightarrow> Some (Sleep d, clk)
      | Return r s' \<Rightarrow>
          Some (Return r (p\<lparr>state_P := push_bit snowflakeSequenceBits (lts s') OR seq s'\<rparr>),
                clk))"
proof -
  from nb have nl: "\<not> relative (tsepoch s) t <s lts s" by (simp add: signed.not_less)
  from c have e: "tsepoch_P p = tsepoch s" "shiftedNid_P p = shiftedNid s"
    "prevTs (state_P p) = lts s" "prevSeq (state_P p) = seq s"
    by (simp_all add: corresponds_def)
  have "attempt_P (tsepoch s) (state_P p) (t # clk) =
     Some (if relative (tsepoch s) t = lts s then
             (if seq s = snowflakeSequenceMask then Exhausted
              else Candidate (lts s) (seq s + 1))
           else Candidate (relative (tsepoch s) t) 0, clk)"
    using nl e(3,4)
    by (simp add: attempt_P_def wait_rollback_def Let_def relative_def prevTs_def prevSeq_def)
  then show ?thesis
    using nl by (simp add: Generate_P_round_eq Generate_round_eq e)
qed

lemma Generate_round_corresponds:
  assumes c: "corresponds s p" and r: "Generate_round s t = Return (sf, None) s'"
    and w: "in_width 51 (lts s')"
  shows "corresponds s' (p\<lparr>state_P := push_bit snowflakeSequenceBits (lts s') OR seq s'\<rparr>)"
proof -
  from c have "seq s = prevSeq (state_P p)" by (simp add: corresponds_def)
  then have "in_width 12 (seq s)" by (simp add: in_width_prevSeq)
  with r have "in_width 12 (seq s')"
    by (auto simp: Generate_round_eq seq_succ in_width_0 split: if_splits)
  moreover from r have "tsepoch s' = tsepoch s" "shiftedNid s' = shiftedNid s"
    by (auto simp: Generate_round_eq split: if_splits)
  ultimately show ?thesis
    using c w by (simp add: corresponds_def prevTs_pack prevSeq_pack)
qed

lemma Generate_round_error:
  "Generate_round s t = Return (sf, Some e) s' \<Longrightarrow> s' = s \<and> relative (tsepoch s) t <s lts s"
  by (auto simp: Generate_round_eq split: if_splits)

lemma flat_simps: "flat [] = []" "flat ((c, n) # rounds) = c # n # flat rounds"
  by (simp_all add: flat_def)

lemma poll_rounds:
  assumes "\<forall>(c, n)\<in>set rounds. monotonic c < dl \<and> relative epoch n <s pTs"
  shows "poll epoch pTs dl r (flat rounds @ rest) =
         (case poll epoch pTs dl
                 (if rounds = [] then r else relative epoch (snd (last rounds))) rest of
            None \<Rightarrow> None
          | Some (r', sl, c') \<Rightarrow> Some (r', replicate (length rounds) Millisecond @ sl, c'))"
  using assms
proof (induction rounds arbitrary: r)
  case Nil
  then show ?case by (simp add: flat_simps split: option.splits)
next
  case (Cons a rounds)
  obtain c n where a: "a = (c, n)" by (cases a)
  from Cons.prems a have h: "monotonic c < dl" "\<not> pTs \<le>s UnixMilli n - epoch"
    and rest: "\<forall>(c, n)\<in>set rounds. monotonic c < dl \<and> relative epoch n <s pTs"
    by (auto simp: relative_def signed.not_le)
  let ?r = "if rounds = [] then UnixMilli n - epoch else relative epoch (snd (last rounds))"
  have "poll epoch pTs dl r (flat (a # rounds) @ rest) =
        (case poll epoch pTs dl (UnixMilli n - epoch) (flat rounds @ rest) of
           None \<Rightarrow> None
         | Some (r', sl, c') \<Rightarrow> Some (r', Millisecond # sl, c'))"
    using h by (simp add: a flat_simps split: option.splits)
  also have "poll epoch pTs dl (UnixMilli n - epoch) (flat rounds @ rest) =
        (case poll epoch pTs dl ?r rest of
           None \<Rightarrow> None
         | Some (r', sl, c') \<Rightarrow> Some (r', replicate (length rounds) Millisecond @ sl, c'))"
    by (rule Cons.IH [OF rest])
  finally show ?case by (simp add: a relative_def split: option.splits)
qed

lemma behind_after_rounds:
  assumes "\<forall>(c, n)\<in>set rounds. monotonic c < dl \<and> relative epoch n <s pTs" "r <s pTs"
  shows "(if rounds = [] then r else relative epoch (snd (last rounds))) <s pTs"
proof (cases "rounds = []")
  case True
  with assms(2) show ?thesis by simp
next
  case False
  then have "last rounds \<in> set rounds" by simp
  with assms(1) have "relative epoch (snd (last rounds)) <s pTs" by (auto simp: split_beta)
  with False show ?thesis by simp
qed

lemma poll_deadline:
  "dl \<le> monotonic c \<Longrightarrow> poll epoch pTs dl r (c # rest) = Some (r, [], rest)"
  by (cases rest) simp_all

lemma poll_caught_up:
  "monotonic c < dl \<Longrightarrow> pTs \<le>s relative epoch n \<Longrightarrow>
     poll epoch pTs dl r (c # n # rest) = Some (relative epoch n, [], rest)"
  by (simp add: relative_def)

lemma wait_rollback_caught_up:
  assumes "r <s pTs"
    and "\<forall>(c, n)\<in>set rounds. monotonic c < monotonic d + 15000000 \<and> relative epoch n <s pTs"
    and "monotonic c < monotonic d + 15000000" and "pTs \<le>s relative epoch n"
  shows "wait_rollback epoch pTs r (d # flat rounds @ c # n # rest) =
         Some (relative epoch n, replicate (length rounds) Millisecond, rest)"
  using assms(1) poll_rounds [OF assms(2), of r "c # n # rest"] poll_caught_up [OF assms(3,4)]
  by (simp add: wait_rollback_def Millisecond_def)

lemma wait_rollback_deadline:
  assumes "r <s pTs"
    and "\<forall>(c, n)\<in>set rounds. monotonic c < monotonic d + 15000000 \<and> relative epoch n <s pTs"
    and "monotonic d + 15000000 \<le> monotonic c"
  shows "wait_rollback epoch pTs r (d # flat rounds @ c # rest) =
         Some (if rounds = [] then r else relative epoch (snd (last rounds)),
               replicate (length rounds) Millisecond, rest)"
  using assms(1) poll_rounds [OF assms(2), of r "c # rest"] poll_deadline [OF assms(3)]
  by (simp add: wait_rollback_def Millisecond_def)

lemma attempt_P_caught_up:
  assumes "relative epoch t <s prevTs prev"
    and "\<forall>(c, n)\<in>set rounds.
           monotonic c < monotonic d + 15000000 \<and> relative epoch n <s prevTs prev"
    and "monotonic c < monotonic d + 15000000" and "prevTs prev \<le>s relative epoch n"
  shows "attempt_P epoch prev (t # d # flat rounds @ c # n # rest) =
         attempt_P epoch prev (n # rest)"
proof -
  have nl: "\<not> relative epoch n <s prevTs prev"
    using assms(4) by (simp add: signed.not_less)
  note wait_rollback_caught_up [OF assms, of rest]
  moreover have "wait_rollback epoch (prevTs prev) (relative epoch n) rest =
        Some (relative epoch n, [], rest)"
    using nl by (simp add: wait_rollback_def)
  ultimately show ?thesis
    by (simp add: attempt_P_def Let_def relative_def prevTs_def)
qed

lemma attempt_P_deadline:
  assumes "relative epoch t <s prevTs prev"
    and "\<forall>(c, n)\<in>set rounds.
           monotonic c < monotonic d + 15000000 \<and> relative epoch n <s prevTs prev"
    and "monotonic d + 15000000 \<le> monotonic c"
  shows "attempt_P epoch prev (t # d # flat rounds @ c # rest) = Some (Rollback, rest)"
proof -
  let ?r = "if rounds = [] then relative epoch t else relative epoch (snd (last rounds))"
  have b: "?r <s prevTs prev" by (rule behind_after_rounds [OF assms(2,1)])
  note wait_rollback_deadline [OF assms, of rest]
  then show ?thesis
    using b by (simp add: attempt_P_def Let_def relative_def prevTs_def)
qed

lemma Generate_P_eq_round:
  "Generate_P_round p clk1 = Generate_P_round p clk2 \<Longrightarrow> Generate_P p clk1 = Generate_P p clk2"
  by (subst Generate_P.simps, subst (2) Generate_P.simps) simp

section \<open>Concurrent callers of \<open>part_001\<close>: the invariant\<close>

lemma caller_ok_update:
  assumes "\<forall>c\<in>set cs. caller_ok c" "caller_ok c'"
  shows "\<forall>c\<in>set (cs[i := c']). caller_ok c"
  using assms set_update_subset_insert [of cs i c'] by auto

lemma in_range_first: "in_range epoch (t # clk) \<Longrightarrow> relative epoch t <s 2 ^ 41"
  by (simp add: in_range_def)

lemma wait_rollback_range:
  assumes "wait_rollback epoch pTs r clk = Some (r', sl, clk')" "r <s 2 ^ 41" "in_range epoch clk"
  shows "r' <s 2 ^ 41"
  using wait_rollback_result [OF assms(1)] assms(2,3) by (auto simp: in_range_def)

lemma caller_P_step_inv:
  assumes inv: "callers_inv nodeId epoch p cs" and i: "i < length cs"
    and rng: "in_range epoch clk" and st: "caller_P_step p (cs ! i) clk = (p', c')"
  shows "callers_inv nodeId epoch p' (cs[i := c']) \<and>
         (case won_P p (cs ! i) c' of
            None \<Rightarrow> state_P p' = state_P p
          | Some sf \<Rightarrow>
              id_pair sf = (prevTs (state_P p'), prevSeq (state_P p')) \<and>
              pair_step (prevTs (state_P p), prevSeq (state_P p))
                        (prevTs (state_P p'), prevSeq (state_P p')))"
proof -
  from inv have ip: "inv_P nodeId epoch p" and oks: "\<forall>c\<in>set cs. caller_ok c"
    by (simp_all add: callers_inv_def)
  from i have mem: "cs ! i \<in> set cs" by simp
  with oks have ok: "caller_ok (cs ! i)" by simp
  have same: "callers_inv nodeId epoch p (cs[i := c'])" if "caller_ok c'" for c'
    using ip caller_ok_update [OF oks that] by (simp add: callers_inv_def)
  show ?thesis
  proof (cases "cs ! i")
    case AtTop_P
    show ?thesis
    proof (cases clk)
      case Nil
      with st AtTop_P have "p' = p" "c' = AtTop_P" by simp_all
      with same [of AtTop_P] AtTop_P show ?thesis by (simp add: caller_ok_def)
    next
      case (Cons t rest)
      with st AtTop_P have e: "p' = p" "c' = HasTime_P (UnixMilli t - tsepoch_P p)" by auto
      from rng Cons ip have "relative epoch t <s 2 ^ 41" "tsepoch_P p = epoch"
        by (simp_all add: in_range_def inv_P_def)
      then have "caller_ok c'" by (simp add: e caller_ok_def relative_def)
      with same e AtTop_P show ?thesis by simp
    qed
  next
    case (HasTime_P r)
    with st have e: "p' = p" "c' = Loaded_P r (state_P p)" by auto
    from ok HasTime_P ip have "caller_ok c'"
      by (simp add: e caller_ok_def inv_P_def)
    with same e HasTime_P show ?thesis by simp
  next
    case (Loaded_P r prev)
    from ok Loaded_P have r: "r <s 2 ^ 41" and w: "in_width 41 (prevTs prev)"
      by (simp_all add: caller_ok_def)
    from ip have ep: "tsepoch_P p = epoch" by (simp add: inv_P_def)
    show ?thesis
    proof (cases "wait_rollback epoch (prevTs prev) r clk")
      case None
      with st Loaded_P ep have e: "p' = p" "c' = Loaded_P r prev"
        by (simp_all add: prevTs_def)
      with ok Loaded_P same show ?thesis by simp
    next
      case (Some x)
      then obtain r' sl clk' where
        wr: "wait_rollback epoch (prevTs prev) r clk = Some (r', sl, clk')"
        by (cases x) auto
      from wait_rollback_range [OF wr r rng] have r': "r' <s 2 ^ 41" .
      from st Loaded_P ep wr have e: "p' = p"
        and c': "c' = (if r' <s prevTs prev then Returned_P (0, Some ErrGenerationClockRollback)
                 else if r' = prevTs prev then
                   (if prevSeq prev = snowflakeSequenceMask then AtTop_P
                    else Ready_P prev (prevTs prev) (prevSeq prev + 1))
                 else Ready_P prev r' 0)"
        by (auto simp: prevTs_def prevSeq_def Let_def split: if_splits)
      have "caller_ok c'"
      proof (cases "r' <s prevTs prev")
        case True
        then show ?thesis by (simp add: c' caller_ok_def)
      next
        case False
        note nb = this
        show ?thesis
        proof (cases "r' = prevTs prev")
          case True
          then show ?thesis
            using w by (simp add: c' caller_ok_def pair_step_def seq_succ in_width_prevSeq)
        next
          case False
          with nb have lt: "prevTs prev <s r'" by (rule signed_not_less_cases)
          then have "in_width 41 r'"
            using w r' by (auto intro: in_width_above [OF _ signed.less_imp_le])
          with nb False lt show ?thesis
            by (simp add: c' caller_ok_def pair_step_def in_width_0)
        qed
      qed
      moreover have "won_P p (cs ! i) c' = None" by (simp add: Loaded_P)
      ultimately show ?thesis using same e by simp
    qed
  next
    case (Ready_P prev ts sq)
    from ok Ready_P have w: "in_width 41 ts" "in_width 12 sq"
      and ps: "pair_step (prevTs prev, prevSeq prev) (ts, sq)"
      by (simp_all add: caller_ok_def)
    show ?thesis
    proof (cases "state_P p = prev")
      case False
      with st Ready_P have e: "p' = p" "c' = AtTop_P"
        by (simp_all add: CompareAndSwapInt64_def)
      with same [of AtTop_P] Ready_P show ?thesis by (simp add: caller_ok_def)
    next
      case True
      let ?new = "push_bit snowflakeSequenceBits ts OR sq"
      from st Ready_P True have e: "p' = p\<lparr>state_P := ?new\<rparr>"
        "c' = Returned_P (make_id ts (shiftedNid_P p) sq, None)"
        by (simp_all add: CompareAndSwapInt64_def)
      from w(1) have w51: "in_width 51 ts" by (rule in_width_mono) simp_all
      have dec: "prevTs ?new = ts" "prevSeq ?new = sq"
        using w w51 by (simp_all add: prevTs_pack prevSeq_pack)
      from ip have nid: "shiftedNid_P p = push_bit snowflakeNodeIdShift nodeId"
        "in_width 10 nodeId"
        by (simp_all add: inv_P_def)
      have pr: "id_pair (make_id ts (shiftedNid_P p) sq) = (ts, sq)"
        using w nid by (simp add: id_pair_make_id)
      have "inv_P nodeId epoch p'"
        using ip w(1) by (simp add: e inv_P_def dec)
      moreover have "\<forall>c\<in>set (cs[i := c']). caller_ok c"
        by (rule caller_ok_update [OF oks]) (simp add: e caller_ok_def)
      ultimately have "callers_inv nodeId epoch p' (cs[i := c'])"
        by (simp add: callers_inv_def)
      moreover have "won_P p (cs ! i) c' = Some (make_id ts (shiftedNid_P p) sq)"
        by (simp add: Ready_P e)
      ultimately show ?thesis using pr ps True by (simp add: e dec)
    qed
  next
    case (Returned_P r)
    with st have e: "p' = p" "c' = Returned_P r" by auto
    have "won_P p (cs ! i) c' = None" by (simp add: Returned_P)
    with same [of c'] e show ?thesis by (simp add: caller_ok_def)
  qed
qed

lemma winners_P_chain:
  assumes "callers_inv nodeId epoch p cs"
    and "\<forall>(i, clk)\<in>set sched. in_range epoch clk"
  shows "successively pair_step
           ((prevTs (state_P p), prevSeq (state_P p)) #
            map id_pair (winners caller_P_step won_P p cs sched))"
  using assms
proof (induction sched arbitrary: p cs)
  case Nil
  then show ?case by simp
next
  case (Cons e sched)
  obtain i clk where e: "e = (i, clk)" by (cases e)
  from Cons.prems(2) have rng: "in_range epoch clk"
    and rest: "\<forall>(i, clk)\<in>set sched. in_range epoch clk"
    by (simp_all add: e)
  show ?case
  proof (cases "i < length cs")
    case False
    with Cons.IH [OF Cons.prems(1) rest] show ?thesis by (simp add: e)
  next
    case True
    obtain p' c' where st: "caller_P_step p (cs ! i) clk = (p', c')"
      by (cases "caller_P_step p (cs ! i) clk")
    from caller_P_step_inv [OF Cons.prems(1) True rng st]
    have inv': "callers_inv nodeId epoch p' (cs[i := c'])"
      and w: "case won_P p (cs ! i) c' of
            None \<Rightarrow> state_P p' = state_P p
          | Some sf \<Rightarrow>
              id_pair sf = (prevTs (state_P p'), prevSeq (state_P p')) \<and>
              pair_step (prevTs (state_P p), prevSeq (state_P p))
                        (prevTs (state_P p'), prevSeq (state_P p'))"
      by simp_all
    note ih = Cons.IH [OF inv' rest]
    show ?thesis
    proof (cases "won_P p (cs ! i) c'")
      case None
      with w ih True st show ?thesis by (simp add: e)
    next
      case (Some sf)
      with w ih True st show ?thesis by (simp add: e)
    qed
  qed
qed

lemma seq_less_succ:
  assumes "in_width 12 x"
  shows "x <s x + 1"
proof -
  have u: "uint x < 4096" using assms by (simp add: in_width_uint)
  then have u1: "uint (x + 1) = uint x + 1"
    by (simp add: uint_word_ariths mod_pos_pos_trivial)
  with u have "in_width 13 (x + 1)" by (simp add: in_width_uint)
  then have "sint (x + 1) = uint (x + 1)" by (rule in_width_sint) simp
  moreover have "sint x = uint x" using assms by (rule in_width_sint) simp
  ultimately show ?thesis using u1 by (simp add: word_sless_alt)
qed

lemma id_step_less: "id_step a b \<Longrightarrow> id_less a b"
  unfolding id_step_def id_less_def pair_step_def id_pair_def
  by (auto simp: seq_less_succ in_width_seq_field)

lemma transp_id_less: "transp id_less"
  unfolding transp_def id_less_def
  by (auto intro: signed.less_trans)

lemma id_less_irrefl: "\<not> id_less a a"
  by (simp add: id_less_def)

lemma sorted_id_less_distinct: "sorted_wrt id_less ids \<Longrightarrow> distinct ids"
  by (induction ids) (auto simp: id_less_irrefl)

lemma successively_id_less:
  assumes "successively id_step ids"
  shows "sorted_wrt id_less ids"
proof -
  from assms have "successively id_less ids"
    by (rule successively_mono) (rule id_step_less)
  then show ?thesis
    by (simp add: successively_conv_sorted_wrt [OF transp_id_less])
qed

lemma new_callers_inv:
  assumes "NewGenerator_P nodeId epoch = (Some p, None)" "0 \<le>s nodeId"
  shows "callers_inv nodeId epoch p (replicate k AtTop_P)"
  using NewGenerator_P_inv [OF assms] by (simp add: callers_inv_def caller_ok_def)

lemma winners_P_order:
  assumes "NewGenerator_P nodeId epoch = (Some p, None)" "0 \<le>s nodeId"
    and "\<forall>(i, clk)\<in>set sched. in_range epoch clk"
  shows "successively id_step (winners caller_P_step won_P p (replicate k AtTop_P) sched) \<and>
         sorted_wrt id_le (winners caller_P_step won_P p (replicate k AtTop_P) sched) \<and>
         sorted_wrt id_less (winners caller_P_step won_P p (replicate k AtTop_P) sched) \<and>
         distinct (winners caller_P_step won_P p (replicate k AtTop_P) sched)"
proof -
  from winners_P_chain [OF new_callers_inv [OF assms(1,2)] assms(3)]
  have "successively id_step (winners caller_P_step won_P p (replicate k AtTop_P) sched)"
    and "sorted_wrt id_le (winners caller_P_step won_P p (replicate k AtTop_P) sched)"
    by (auto dest: successively_id_step)
  moreover from this(1)
  have "sorted_wrt id_less (winners caller_P_step won_P p (replicate k AtTop_P) sched)"
    by (rule successively_id_less)
  ultimately show ?thesis by (simp add: sorted_id_less_distinct)
qed

section \<open>States reached from a new generator\<close>

lemma state_after_inv:
  assumes step: "\<And>s clk r s' clk'. gen s clk = Some (r, s', clk') \<Longrightarrow> I s clk \<Longrightarrow> I s' clk'"
    and "I s clk" and "state_after gen n s clk = Some (s', clk')"
  shows "I s' clk'"
  using assms(2,3)
proof (induction n arbitrary: s clk)
  case 0
  then show ?case by simp
next
  case (Suc n)
  from Suc.prems(2) obtain r s1 clk1 where g: "gen s clk = Some (r, s1, clk1)"
    and rest: "state_after gen n s1 clk1 = Some (s', clk')"
    by (auto split: option.splits)
  from Suc.IH [OF step [OF g Suc.prems(1)] rest] show ?case .
qed

lemma reach_A:
  assumes "NewGenerator nodeId epoch t0 = (Some fresh, None)" "0 \<le>s nodeId"
    "in_range epoch later" "state_after Generate n fresh later = Some (s, clk)"
  shows "inv_A nodeId epoch s \<and> in_range epoch clk"
proof (rule state_after_inv [where gen = Generate and
      I = "\<lambda>s clk. inv_A nodeId epoch s \<and> in_range epoch clk", OF _ _ assms(4)])
  show "inv_A nodeId epoch fresh \<and> in_range epoch later"
    using NewGenerator_inv [OF assms(1,2)] assms(3) by simp
next
  fix s clk r s' clk'
  assume "Generate s clk = Some (r, s', clk')" "inv_A nodeId epoch s \<and> in_range epoch clk"
  then show "inv_A nodeId epoch s' \<and> in_range epoch clk'"
    using Generate_step [of s clk r s' clk' nodeId epoch] by simp
qed

lemma reach_P:
  assumes "NewGenerator_P nodeId epoch = (Some fresh, None)" "0 \<le>s nodeId"
    "in_range epoch later" "state_after Generate_P n fresh later = Some (p, clk)"
  shows "inv_P nodeId epoch p \<and> in_range epoch clk"
proof (rule state_after_inv [where gen = Generate_P and
      I = "\<lambda>p clk. inv_P nodeId epoch p \<and> in_range epoch clk", OF _ _ assms(4)])
  show "inv_P nodeId epoch fresh \<and> in_range epoch later"
    using NewGenerator_P_inv [OF assms(1,2)] assms(3) by simp
next
  fix s clk r s' clk'
  assume "Generate_P s clk = Some (r, s', clk')" "inv_P nodeId epoch s \<and> in_range epoch clk"
  then show "inv_P nodeId epoch s' \<and> in_range epoch clk'"
    using Generate_P_step [of s clk r s' clk' nodeId epoch] by simp
qed

lemma reach_A_seq:
  assumes "NewGenerator nodeId epoch t0 = (Some fresh, None)"
    "state_after Generate n fresh later = Some (s, clk)"
  shows "tsepoch s = epoch \<and> shiftedNid s = push_bit snowflakeNodeIdShift nodeId \<and>
         in_width 12 (seq s)"
proof (rule state_after_inv [where gen = Generate and
      I = "\<lambda>s clk. tsepoch s = epoch \<and> shiftedNid s = push_bit snowflakeNodeIdShift nodeId \<and>
                    in_width 12 (seq s)", OF _ _ assms(2)])
  show "tsepoch fresh = epoch \<and> shiftedNid fresh = push_bit snowflakeNodeIdShift nodeId \<and>
        in_width 12 (seq fresh)"
    using assms(1) by (auto simp: NewGenerator_def in_width_0 split: if_splits)
next
  fix s clk r s' clk'
  assume g: "Generate s clk = Some (r, s', clk')"
    and I: "tsepoch s = epoch \<and> shiftedNid s = push_bit snowflakeNodeIdShift nodeId \<and>
            in_width 12 (seq s)"
  from Generate_sound [OF g]
  have st: "sound_step (tsepoch s) (shiftedNid s) clk (lts s, seq s) r (lts s', seq s')"
    and cfg: "tsepoch s' = tsepoch s" "shiftedNid s' = shiftedNid s"
    by simp_all
  from sound_step_seq [OF st] I have "in_width 12 (seq s')" by simp
  with cfg I show "tsepoch s' = epoch \<and>
        shiftedNid s' = push_bit snowflakeNodeIdShift nodeId \<and> in_width 12 (seq s')"
    by simp
qed

lemma reach_P_seq:
  assumes "NewGenerator_P nodeId epoch = (Some fresh, None)"
    "state_after Generate_P n fresh later = Some (p, clk)"
  shows "tsepoch_P p = epoch \<and> shiftedNid_P p = push_bit snowflakeNodeIdShift nodeId"
proof (rule state_after_inv [where gen = Generate_P and
      I = "\<lambda>p clk. tsepoch_P p = epoch \<and> shiftedNid_P p = push_bit snowflakeNodeIdShift nodeId",
      OF _ _ assms(2)])
  show "tsepoch_P fresh = epoch \<and> shiftedNid_P fresh = push_bit snowflakeNodeIdShift nodeId"
    using assms(1) by (auto simp: NewGenerator_P_def split: if_splits)
next
  fix s clk r s' clk'
  assume g: "Generate_P s clk = Some (r, s', clk')"
    and I: "tsepoch_P s = epoch \<and> shiftedNid_P s = push_bit snowflakeNodeIdShift nodeId"
  from Generate_P_sound [OF g] have "tsepoch_P s' = tsepoch_P s" "shiftedNid_P s' = shiftedNid_P s"
    unfolding P_sound_def by auto
  with I show "tsepoch_P s' = epoch \<and> shiftedNid_P s' = push_bit snowflakeNodeIdShift nodeId"
    by simp
qed

lemma in_width_12_bounds:
  assumes "in_width 12 sq"
  shows "0 \<le>s sq \<and> sq \<le>s 4095"
proof -
  from assms have "sint sq = uint sq" by (rule in_width_sint) simp
  moreover from assms have "uint sq < 4096" by (simp add: in_width_uint)
  ultimately show ?thesis by (simp add: word_sle_eq)
qed

lemma Generate_seq_field:
  assumes g: "Generate s clk = Some ((sf, None), s', clk')"
    and nid: "shiftedNid s = push_bit snowflakeNodeIdShift nodeId" and w: "in_width 12 (seq s)"
  shows "sf = make_id (lts s') (push_bit snowflakeNodeIdShift nodeId) (seq s') \<and>
         0 \<le>s seq s' \<and> seq s' \<le>s 4095 \<and> seq_field sf = seq s'"
proof -
  from Generate_sound [OF g]
  have st: "sound_step (tsepoch s) (shiftedNid s) clk (lts s, seq s) (sf, None) (lts s', seq s')"
    by simp
  from sound_step_seq [OF st] w
  have w': "in_width 12 (seq s')" and sf: "sf = make_id (lts s') (shiftedNid s) (seq s')"
    by simp_all
  from w' sf nid in_width_12_bounds [OF w'] show ?thesis
    by (simp add: seq_field_make_id)
qed

lemma Generate_P_seq_field:
  assumes g: "Generate_P p clk = Some ((sf, None), p', clk')"
    and nid: "shiftedNid_P p = push_bit snowflakeNodeIdShift nodeId"
  shows "(\<exists>u\<in>set clk. sf = make_id (relative (tsepoch_P p) u)
                         (push_bit snowflakeNodeIdShift nodeId) (prevSeq (state_P p'))) \<and>
         0 \<le>s prevSeq (state_P p') \<and> prevSeq (state_P p') \<le>s 4095 \<and>
         seq_field sf = prevSeq (state_P p')"
proof -
  from Generate_P_sound [OF g] obtain b where
    st: "sound_step (tsepoch_P p) (shiftedNid_P p) clk
       (prevTs (state_P p), prevSeq (state_P p)) (sf, None) b"
    and p': "state_P p' = push_bit snowflakeSequenceBits (fst b) OR snd b"
    unfolding P_sound_def by auto
  have "in_width 12 (snd (prevTs (state_P p), prevSeq (state_P p)))"
    by (simp add: in_width_prevSeq)
  from sound_step_seq [OF st this]
  have w: "in_width 12 (snd b)" and sf: "sf = make_id (fst b) (shiftedNid_P p) (snd b)"
    by simp_all
  from w p' have ps: "prevSeq (state_P p') = snd b" by (simp add: prevSeq_pack)
  from st obtain u where u1: "u \<in> set clk"
    and "relative (tsepoch_P p) u = prevTs (state_P p) \<and> b = (prevTs (state_P p), prevSeq (state_P p) + 1) \<or>
         b = (relative (tsepoch_P p) u, 0)"
    unfolding sound_step_def by auto
  then have u2: "fst b = relative (tsepoch_P p) u" by auto
  note u = u1 u2
  have "sf = make_id (relative (tsepoch_P p) u) (push_bit snowflakeNodeIdShift nodeId)
               (prevSeq (state_P p'))"
    using sf u(2) nid ps by simp
  with u(1) have "\<exists>u\<in>set clk. sf = make_id (relative (tsepoch_P p) u)
                         (push_bit snowflakeNodeIdShift nodeId) (prevSeq (state_P p'))"
    by blast
  moreover have "seq_field sf = prevSeq (state_P p')"
    using sf nid w ps by (simp add: seq_field_make_id)
  ultimately show ?thesis using in_width_12_bounds [OF in_width_prevSeq] by simp
qed

lemma Generate_ts_field:
  assumes g: "Generate s clk = Some ((sf, None), s', clk')"
    and inv: "inv_A nodeId epoch s" and rng: "in_range epoch clk"
  shows "lts s \<le>s ts_field sf \<and> ts_field sf = lts s' \<and> seq_field sf = seq s' \<and>
         (seq s = snowflakeSequenceMask \<longrightarrow>
            lts s <s ts_field sf \<and> seq_field sf = 0 \<and>
            (\<exists>u\<in>set clk. ts_field sf = relative epoch u))"
proof -
  from Generate_step [OF g inv rng]
  have ps: "pair_step (lts s, seq s) (lts s', seq s')"
    and ip: "id_pair sf = (lts s', seq s')"
    by auto
  from ip have f: "ts_field sf = lts s'" "seq_field sf = seq s'" by (simp_all add: id_pair_def)
  from ps have "lts s \<le>s lts s'"
    by (auto simp: pair_step_def intro: signed.less_imp_le)
  moreover have "lts s <s ts_field sf \<and> seq_field sf = 0 \<and>
            (\<exists>u\<in>set clk. ts_field sf = relative epoch u)" if "seq s = snowflakeSequenceMask"
  proof -
    from inv have "tsepoch s = epoch" by (simp add: inv_A_def)
    with Generate_exhausted [OF that g] f show ?thesis by auto
  qed
  ultimately show ?thesis using f by simp
qed

lemma Generate_P_ts_field:
  assumes g: "Generate_P p clk = Some ((sf, None), p', clk')"
    and inv: "inv_P nodeId epoch p" and rng: "in_range epoch clk"
  shows "prevTs (state_P p) \<le>s ts_field sf \<and> ts_field sf = prevTs (state_P p') \<and>
         seq_field sf = prevSeq (state_P p') \<and>
         (prevSeq (state_P p) = snowflakeSequenceMask \<longrightarrow>
            prevTs (state_P p) <s ts_field sf \<and> seq_field sf = 0 \<and>
            (\<exists>u\<in>set clk. ts_field sf = relative epoch u))"
proof -
  from Generate_P_step [OF g inv rng]
  have ps: "pair_step (prevTs (state_P p), prevSeq (state_P p))
                      (prevTs (state_P p'), prevSeq (state_P p'))"
    and ip: "id_pair sf = (prevTs (state_P p'), prevSeq (state_P p'))"
    by auto
  from ip have f: "ts_field sf = prevTs (state_P p')" "seq_field sf = prevSeq (state_P p')"
    by (simp_all add: id_pair_def)
  from ps have "prevTs (state_P p) \<le>s prevTs (state_P p')"
    by (auto simp: pair_step_def intro: signed.less_imp_le)
  moreover have "prevTs (state_P p) <s ts_field sf \<and> seq_field sf = 0 \<and>
            (\<exists>u\<in>set clk. ts_field sf = relative epoch u)"
    if ex: "prevSeq (state_P p) = snowflakeSequenceMask"
  proof -
    from inv have ep: "tsepoch_P p = epoch"
      and nid: "shiftedNid_P p = push_bit snowflakeNodeIdShift nodeId" "in_width 10 nodeId"
      and w: "in_width 41 (prevTs (state_P p))"
      by (simp_all add: inv_P_def)
    from Generate_P_exhausted [OF ex g] obtain u where
      u: "u \<in> set clk" "prevTs (state_P p) <s relative epoch u"
      "sf = make_id (relative epoch u) (shiftedNid_P p) 0"
      using ep by auto
    from rng u(1) have "relative epoch u <s 2 ^ 41" by (simp add: in_range_def)
    with w u(2) have "in_width 41 (relative epoch u)"
      by (auto intro: in_width_above [OF _ signed.less_imp_le])
    then have "ts_field sf = relative epoch u" "seq_field sf = 0"
      using nid by (simp_all add: u(3) ts_field_make_id seq_field_make_id in_width_0)
    with u(1,2) show ?thesis by auto
  qed
  ultimately show ?thesis using f by simp
qed

lemma uint_of_nat_small: "k \<le> 4095 \<Longrightarrow> uint (of_nat k :: int64) = int k"
proof -
  assume a: "k \<le> 4095"
  have "(4095 :: nat) < 2 ^ 64" by simp
  with a have "k < 2 ^ 64" by (rule le_less_trans)
  then have "take_bit 64 k = k" by (rule take_bit_nat_eq_self)
  then show ?thesis by (simp add: unsigned_of_nat)
qed

lemma in_width_of_nat: "k \<le> 4095 \<Longrightarrow> in_width 12 (of_nat k :: int64)"
  by (simp add: in_width_uint uint_of_nat_small)

lemma of_nat_not_mask: "k < 4095 \<Longrightarrow> (of_nat k :: int64) \<noteq> snowflakeSequenceMask"
proof
  assume k: "k < 4095" and e: "(of_nat k :: int64) = snowflakeSequenceMask"
  have "uint (of_nat k :: int64) = int k" using k by (simp add: uint_of_nat_small)
  moreover have "uint snowflakeSequenceMask = 4095"
    by (simp add: snowflakeSequenceMask_def snowflakeSequenceBits_def)
  ultimately show False using k e by simp
qed

lemma Generate_same_ms:
  assumes "relative (tsepoch s) t = lts s" "seq s \<noteq> snowflakeSequenceMask"
  shows "Generate s (t # clk) =
         Some ((make_id (lts s) (shiftedNid s) (seq s + 1), None), s\<lparr>seq := seq s + 1\<rparr>, clk)"
  using assms by (simp add: Generate_round_eq)

lemma Generate_new_ms:
  assumes "lts s <s relative (tsepoch s) t"
  shows "Generate s (t # clk) =
         Some ((make_id (relative (tsepoch s) t) (shiftedNid s) 0, None),
               s\<lparr>lts := relative (tsepoch s) t, seq := 0\<rparr>, clk)"
proof -
  from assms have "\<not> relative (tsepoch s) t <s lts s" "relative (tsepoch s) t \<noteq> lts s"
    by (auto dest: signed.less_asym)
  then show ?thesis by (simp add: Generate_round_eq)
qed

lemma state_after_same_ms:
  assumes "relative (tsepoch s) t = lts s" "seq s = of_nat k" "k + j \<le> 4095"
  shows "state_after Generate j s (replicate j t @ rest) = Some (s\<lparr>seq := of_nat (k + j)\<rparr>, rest)"
  using assms
proof (induction j arbitrary: s k)
  case 0
  then show ?case by simp
next
  case (Suc j)
  from Suc.prems have k: "k < 4095" by simp
  with Suc.prems(2) have ne: "seq s \<noteq> snowflakeSequenceMask" by (simp add: of_nat_not_mask)
  let ?s = "s\<lparr>seq := seq s + 1\<rparr>"
  have g: "Generate s (t # replicate j t @ rest) =
        Some ((make_id (lts s) (shiftedNid s) (seq s + 1), None), ?s, replicate j t @ rest)"
    by (rule Generate_same_ms [OF Suc.prems(1) ne])
  have "state_after Generate j ?s (replicate j t @ rest) =
        Some (?s\<lparr>seq := of_nat (Suc k + j)\<rparr>, rest)"
    by (rule Suc.IH) (use Suc.prems in simp_all)
  with g show ?case by simp
qed

lemma state_after_fill:
  assumes "lts s <s relative (tsepoch s) t" "j \<le> 4095"
  shows "state_after Generate (Suc j) s (replicate (Suc j) t @ rest) =
         Some (s\<lparr>lts := relative (tsepoch s) t, seq := of_nat j\<rparr>, rest)"
proof -
  let ?s = "s\<lparr>lts := relative (tsepoch s) t, seq := 0\<rparr>"
  have g: "Generate s (t # replicate j t @ rest) =
        Some ((make_id (relative (tsepoch s) t) (shiftedNid s) 0, None), ?s,
              replicate j t @ rest)"
    by (rule Generate_new_ms [OF assms(1)])
  have "state_after Generate j ?s (replicate j t @ rest) =
        Some (?s\<lparr>seq := of_nat (0 + j)\<rparr>, rest)"
    by (rule state_after_same_ms) (use assms(2) in simp_all)
  with g show ?thesis by simp
qed

lemma Generate_P_same_ms:
  assumes "relative (tsepoch_P p) t = prevTs (state_P p)"
    "prevSeq (state_P p) \<noteq> snowflakeSequenceMask"
  shows "Generate_P p (t # clk) =
         Some ((make_id (prevTs (state_P p)) (shiftedNid_P p) (prevSeq (state_P p) + 1), None),
               p\<lparr>state_P := push_bit snowflakeSequenceBits (prevTs (state_P p)) OR
                              (prevSeq (state_P p) + 1)\<rparr>, clk)"
proof -
  have "attempt_P (tsepoch_P p) (state_P p) (t # clk) =
        Some (Candidate (prevTs (state_P p)) (prevSeq (state_P p) + 1), clk)"
    using assms
    by (simp add: attempt_P_def wait_rollback_def Let_def relative_def prevTs_def prevSeq_def)
  then have "Generate_P_round p (t # clk) =
        Some (Return (make_id (prevTs (state_P p)) (shiftedNid_P p) (prevSeq (state_P p) + 1),
                      None)
                (p\<lparr>state_P := push_bit snowflakeSequenceBits (prevTs (state_P p)) OR
                              (prevSeq (state_P p) + 1)\<rparr>), clk)"
    by (simp add: Generate_P_round_eq)
  then show ?thesis by (subst Generate_P.simps) simp
qed

lemma Generate_P_new_ms:
  assumes "prevTs (state_P p) <s relative (tsepoch_P p) t"
  shows "Generate_P p (t # clk) =
         Some ((make_id (relative (tsepoch_P p) t) (shiftedNid_P p) 0, None),
               p\<lparr>state_P := push_bit snowflakeSequenceBits (relative (tsepoch_P p) t) OR 0\<rparr>,
               clk)"
proof -
  from assms have n: "\<not> relative (tsepoch_P p) t <s prevTs (state_P p)"
    "relative (tsepoch_P p) t \<noteq> prevTs (state_P p)"
    by (auto dest: signed.less_asym)
  have "attempt_P (tsepoch_P p) (state_P p) (t # clk) =
        Some (Candidate (relative (tsepoch_P p) t) 0, clk)"
    using n
    by (simp add: attempt_P_def wait_rollback_def Let_def relative_def prevTs_def prevSeq_def)
  then have "Generate_P_round p (t # clk) =
        Some (Return (make_id (relative (tsepoch_P p) t) (shiftedNid_P p) 0, None)
                (p\<lparr>state_P := push_bit snowflakeSequenceBits (relative (tsepoch_P p) t) OR 0\<rparr>),
              clk)"
    by (simp add: Generate_P_round_eq)
  then show ?thesis by (subst Generate_P.simps) simp
qed

lemma state_after_P_same_ms:
  assumes "relative (tsepoch_P p) t = ts" "in_width 51 ts"
    "state_P p = push_bit snowflakeSequenceBits ts OR of_nat k" "k + j \<le> 4095"
  shows "state_after Generate_P j p (replicate j t @ rest) =
         Some (p\<lparr>state_P := push_bit snowflakeSequenceBits ts OR of_nat (k + j)\<rparr>, rest)"
  using assms
proof (induction j arbitrary: p k)
  case 0
  then show ?case by simp
next
  case (Suc j)
  from Suc.prems have k: "k < 4095" by simp
  then have w: "in_width 12 (of_nat k :: int64)" by (simp add: in_width_of_nat)
  have pt: "prevTs (state_P p) = ts" and ps: "prevSeq (state_P p) = of_nat k"
    using Suc.prems(2,3) w by (simp_all add: prevTs_pack prevSeq_pack)
  have ne: "prevSeq (state_P p) \<noteq> snowflakeSequenceMask"
    using k by (simp add: ps of_nat_not_mask)
  let ?p = "p\<lparr>state_P := push_bit snowflakeSequenceBits ts OR of_nat (Suc k)\<rparr>"
  have g: "Generate_P p (t # replicate j t @ rest) =
        Some ((make_id ts (shiftedNid_P p) (of_nat (Suc k)), None), ?p, replicate j t @ rest)"
    using Generate_P_same_ms [of p t "replicate j t @ rest"] Suc.prems(1) ne
    by (simp add: pt ps add.commute)
  have "state_after Generate_P j ?p (replicate j t @ rest) =
        Some (?p\<lparr>state_P := push_bit snowflakeSequenceBits ts OR of_nat (Suc k + j)\<rparr>, rest)"
    by (rule Suc.IH) (use Suc.prems in simp_all)
  with g show ?case by simp
qed

lemma state_after_P_fill:
  assumes "prevTs (state_P p) <s relative (tsepoch_P p) t" "in_width 51 (relative (tsepoch_P p) t)"
    "j \<le> 4095"
  shows "state_after Generate_P (Suc j) p (replicate (Suc j) t @ rest) =
         Some (p\<lparr>state_P := push_bit snowflakeSequenceBits (relative (tsepoch_P p) t) OR
                            of_nat j\<rparr>, rest)"
proof -
  let ?p = "p\<lparr>state_P := push_bit snowflakeSequenceBits (relative (tsepoch_P p) t) OR 0\<rparr>"
  have g: "Generate_P p (t # replicate j t @ rest) =
        Some ((make_id (relative (tsepoch_P p) t) (shiftedNid_P p) 0, None), ?p,
              replicate j t @ rest)"
    by (rule Generate_P_new_ms [OF assms(1)])
  have "state_after Generate_P j ?p (replicate j t @ rest) =
        Some (?p\<lparr>state_P := push_bit snowflakeSequenceBits (relative (tsepoch_P p) t) OR
                              of_nat (0 + j)\<rparr>, rest)"
    by (rule state_after_P_same_ms [where ts = "relative (tsepoch_P p) t"])
       (use assms(2,3) in simp_all)
  with g show ?thesis by simp
qed

section \<open>Epoch presets\<close>

text \<open>C10: the two presets are 1288834974657 ms (\<open>TwitterEpoch\<close>) and 1420070400000 ms
  (\<open>DiscordEpoch\<close>), and as signed 64-bit values they are these numbers.\<close>

theorem epoch_presets:
  "sint TwitterEpoch = 1288834974657 \<and> sint DiscordEpoch = 1420070400000"
  by (simp add: TwitterEpoch_def DiscordEpoch_def)

section \<open>Order of the identifiers of one generator\<close>

text \<open>
  C1, amended: on a generator built with a node id that is not negative, and while
  every relative timestamp read is below \<open>2 ^ 41\<close>, the (timestamp, sequence) fields of
  the identifiers returned by successful calls of \<open>Generate\<close> never decrease in
  lexicographic order, each identifier keeping the timestamp of the one before with
  its sequence plus 1, or having a strictly larger timestamp:
  \<^item> in \<open>snowflake_generator.go\<close>, over the calls that one caller makes one after the
    other;
  \<^item> in \<open>part_001\<close>, over such calls, and over the calls of any number of concurrent
    callers, whatever their interleaving, taken in the order of the compare-and-swaps
    that they win.
\<close>

theorem generate_monotonic:
  assumes "0 \<le>s nodeId"
    and "NewGenerator nodeId epoch t0 = (Some s, None)"
    and "NewGenerator_P nodeId epoch = (Some p, None)"
    and "\<forall>t\<in>set clk. relative epoch t <s 2 ^ 41"
    and "\<forall>(i, c)\<in>set sched. \<forall>t\<in>set c. relative epoch t <s 2 ^ 41"
  shows "successively id_step (successes (calls Generate n s clk)) \<and>
         sorted_wrt id_le (successes (calls Generate n s clk)) \<and>
         successively id_step (successes (calls Generate_P n p clk)) \<and>
         sorted_wrt id_le (successes (calls Generate_P n p clk)) \<and>
         successively id_step (winners caller_P_step won_P p (replicate k AtTop_P) sched) \<and>
         sorted_wrt id_le (winners caller_P_step won_P p (replicate k AtTop_P) sched)"
proof -
  let ?I = "\<lambda>s clk. inv_A nodeId epoch s \<and> in_range epoch clk"
  let ?J = "\<lambda>p clk. inv_P nodeId epoch p \<and> in_range epoch clk"
  let ?w = "\<lambda>p. (prevTs (state_P p), prevSeq (state_P p))"
  have rng: "in_range epoch clk" using assms(4) by (simp add: in_range_def)
  have "successively pair_step
          ((lts s, seq s) # map id_pair (successes (calls Generate n s clk)))"
  proof (rule calls_chain [where I = ?I and v = "\<lambda>s. (lts s, seq s)"])
    show "?I s clk" using NewGenerator_inv [OF assms(2,1)] rng by simp
  next
    fix s clk r s' clk'
    assume "Generate s clk = Some (r, s', clk')" "?I s clk"
    then show "?I s' clk' \<and>
      (if snd r = None
       then pair_step (lts s, seq s) (lts s', seq s') \<and> id_pair (fst r) = (lts s', seq s')
       else (lts s', seq s') = (lts s, seq s))"
      using Generate_step [of s clk r s' clk' nodeId epoch] by (auto split: if_splits)
  qed
  then have A: "successively id_step (successes (calls Generate n s clk)) \<and>
         sorted_wrt id_le (successes (calls Generate n s clk))"
    by (rule successively_id_step)
  have "successively pair_step
          (?w p # map id_pair (successes (calls Generate_P n p clk)))"
  proof (rule calls_chain [where I = ?J and v = ?w])
    show "?J p clk" using NewGenerator_P_inv [OF assms(3,1)] rng by simp
  next
    fix s clk r s' clk'
    assume "Generate_P s clk = Some (r, s', clk')" "?J s clk"
    then show "?J s' clk' \<and>
      (if snd r = None
       then pair_step (?w s) (?w s') \<and> id_pair (fst r) = ?w s'
       else ?w s' = ?w s)"
      using Generate_P_step [of s clk r s' clk' nodeId epoch] by (auto split: if_splits)
  qed
  then have B: "successively id_step (successes (calls Generate_P n p clk)) \<and>
         sorted_wrt id_le (successes (calls Generate_P n p clk))"
    by (rule successively_id_step)
  have "\<forall>(i, c)\<in>set sched. in_range epoch c"
    using assms(5) by (simp add: in_range_def)
  from winners_P_order [OF assms(3,1) this, of k]
  have C: "successively id_step (winners caller_P_step won_P p (replicate k AtTop_P) sched) \<and>
         sorted_wrt id_le (winners caller_P_step won_P p (replicate k AtTop_P) sched)"
    by simp
  from A B C show ?thesis by (intro conjI) simp_all
qed

theorem generate_monotonic_witness:
  "0 \<le>s (1::int64) \<and>
   NewGenerator 1 0 \<lparr>UnixMilli = 0, monotonic = 0\<rparr> =
     (Some \<lparr>tsepoch = 0, shiftedNid = 4096, st = \<lparr>UnixMilli = 0, monotonic = 0\<rparr>,
             lts = 0, seq = 0\<rparr>, None) \<and>
   NewGenerator_P 1 0 = (Some \<lparr>tsepoch_P = 0, shiftedNid_P = 4096, state_P = 0\<rparr>, None) \<and>
   list_all (\<lambda>t. relative 0 t <s 2 ^ 41)
     [\<lparr>UnixMilli = 5, monotonic = 0\<rparr>, \<lparr>UnixMilli = 5, monotonic = 1\<rparr>,
      \<lparr>UnixMilli = 7, monotonic = 2\<rparr>] \<and>
   list_all (\<lambda>(i, c). list_all (\<lambda>t. relative 0 t <s 2 ^ 41) c)
     [(0 :: nat, [\<lparr>UnixMilli = 5, monotonic = 0\<rparr>]), (1, [\<lparr>UnixMilli = 5, monotonic = 1\<rparr>]),
      (0, []), (1, []), (0, []), (1, []), (0, []), (1, []),
      (1, [\<lparr>UnixMilli = 5, monotonic = 2\<rparr>]), (1, []), (1, []), (1, [])] \<and>
   successes (calls Generate 3
      \<lparr>tsepoch = 0, shiftedNid = 4096, st = \<lparr>UnixMilli = 0, monotonic = 0\<rparr>, lts = 0, seq = 0\<rparr>
      [\<lparr>UnixMilli = 5, monotonic = 0\<rparr>, \<lparr>UnixMilli = 5, monotonic = 1\<rparr>,
       \<lparr>UnixMilli = 7, monotonic = 2\<rparr>]) = [20975616, 20975617, 29364224] \<and>
   successively id_step [20975616, 20975617, 29364224] \<and>
   sorted_wrt id_le [20975616, 20975617, 29364224] \<and>
   winners caller_P_step won_P \<lparr>tsepoch_P = 0, shiftedNid_P = 4096, state_P = 0\<rparr>
     (replicate 2 AtTop_P)
     [(0, [\<lparr>UnixMilli = 5, monotonic = 0\<rparr>]), (1, [\<lparr>UnixMilli = 5, monotonic = 1\<rparr>]),
      (0, []), (1, []), (0, []), (1, []), (0, []), (1, []),
      (1, [\<lparr>UnixMilli = 5, monotonic = 2\<rparr>]), (1, []), (1, []), (1, [])] =
     [20975616, 20975617] \<and>
   successively id_step [20975616, 20975617] \<and>
   sorted_wrt id_le [20975616, 20975617]"
proof -
  let ?start = "\<lparr>UnixMilli = 0, monotonic = 0\<rparr>"
  let ?s = "\<lparr>tsepoch = 0, shiftedNid = 4096, st = ?start, lts = 0, seq = 0\<rparr>"
  let ?p = "\<lparr>tsepoch_P = 0, shiftedNid_P = 4096, state_P = 0\<rparr>"
  let ?clk = "[\<lparr>UnixMilli = 5, monotonic = 0\<rparr>, \<lparr>UnixMilli = 5, monotonic = 1\<rparr>,
       \<lparr>UnixMilli = 7, monotonic = 2\<rparr>]"
  let ?sched = "[(0 :: nat, [\<lparr>UnixMilli = 5, monotonic = 0\<rparr>]),
      (1, [\<lparr>UnixMilli = 5, monotonic = 1\<rparr>]),
      (0, []), (1, []), (0, []), (1, []), (0, []), (1, []),
      (1, [\<lparr>UnixMilli = 5, monotonic = 2\<rparr>]), (1, []), (1, []), (1, [])]"
  have h1: "0 \<le>s (1::int64)" by (simp add: word_sle_eq)
  have h2: "NewGenerator 1 0 ?start = (Some ?s, None)" by code_simp
  have h3: "NewGenerator_P 1 0 = (Some ?p, None)" by code_simp
  have h4: "\<forall>t\<in>set ?clk. relative 0 t <s 2 ^ 41" by code_simp
  have h5: "\<forall>(i, c)\<in>set ?sched. \<forall>t\<in>set c. relative 0 t <s 2 ^ 41" by code_simp
  have l4: "list_all (\<lambda>t. relative 0 t <s 2 ^ 41) ?clk" by code_simp
  have l5: "list_all (\<lambda>(i, c). list_all (\<lambda>t. relative 0 t <s 2 ^ 41) c) ?sched" by code_simp
  have e: "successes (calls Generate 3 ?s ?clk) = [20975616, 20975617, 29364224]" by code_simp
  have w: "winners caller_P_step won_P ?p (replicate 2 AtTop_P) ?sched = [20975616, 20975617]"
    by code_simp
  note T = generate_monotonic [OF h1 h2 h3 h4 h5, of 3 2]
  have c1: "successively id_step [20975616, 20975617, 29364224]"
    using T [THEN conjunct1] by (simp only: e)
  have c2: "sorted_wrt id_le [20975616, 20975617, 29364224]"
    using T [THEN conjunct2, THEN conjunct1] by (simp only: e)
  have c3: "successively id_step [20975616, 20975617]"
    using T [THEN conjunct2, THEN conjunct2, THEN conjunct2, THEN conjunct2, THEN conjunct1]
    by (simp only: w)
  have c4: "sorted_wrt id_le [20975616, 20975617]"
    using T [THEN conjunct2, THEN conjunct2, THEN conjunct2, THEN conjunct2, THEN conjunct2]
    by (simp only: w)
  from h1 h2 h3 l4 l5 e c1 c2 w c3 c4 show ?thesis by (intro conjI)
qed

text \<open>
  The claim as stated fails in two ways. Once a relative timestamp reaches \<open>2 ^ 41\<close>:
  with epoch 0 and node id 1, two calls at the milliseconds \<open>2 ^ 41 - 1\<close> and \<open>2 ^ 41\<close>
  return identifiers whose timestamp fields are \<open>2 ^ 41 - 1\<close> and \<open>- (2 ^ 41)\<close>. And in
  \<open>snowflake_generator.go\<close> with concurrent callers: of four callers in millisecond 5,
  the first wins the compare-and-swap of line 91 and stops before the store of line
  94, the second and the third take the sequences 1 and 2, the first then stores 0,
  and the fourth takes sequence 1 again; in the order of the winning
  compare-and-swaps the identifiers carry (5, 0), (5, 1), (5, 2), (5, 1).
\<close>

theorem generate_monotonic_counterexample:
  "NewGenerator 1 0 \<lparr>UnixMilli = 0, monotonic = 0\<rparr> =
     (Some \<lparr>tsepoch = 0, shiftedNid = 4096, st = \<lparr>UnixMilli = 0, monotonic = 0\<rparr>,
             lts = 0, seq = 0\<rparr>, None) \<and>
   successes (calls Generate 2
      \<lparr>tsepoch = 0, shiftedNid = 4096, st = \<lparr>UnixMilli = 0, monotonic = 0\<rparr>, lts = 0, seq = 0\<rparr>
      [\<lparr>UnixMilli = 2199023255551, monotonic = 0\<rparr>,
       \<lparr>UnixMilli = 2199023255552, monotonic = 1000000\<rparr>]) =
     [9223372036850585600, 9223372036854779904] \<and>
   id_pair 9223372036850585600 = (2199023255551, 0) \<and>
   id_pair 9223372036854779904 = (- 2199023255552, 0) \<and>
   successes (calls Generate_P 2
      \<lparr>tsepoch_P = 0, shiftedNid_P = 4096, state_P = 0\<rparr>
      [\<lparr>UnixMilli = 2199023255551, monotonic = 0\<rparr>,
       \<lparr>UnixMilli = 2199023255552, monotonic = 1000000\<rparr>]) =
     [9223372036850585600, 9223372036854779904] \<and>
   \<not> id_le 9223372036850585600 9223372036854779904 \<and>
   \<not> id_step 9223372036850585600 9223372036854779904 \<and>
   winners caller_step won_A
      \<lparr>tsepoch = 0, shiftedNid = 4096, st = \<lparr>UnixMilli = 0, monotonic = 0\<rparr>, lts = 0, seq = 0\<rparr>
      (replicate 4 AtTop)
      [(0, \<lparr>UnixMilli = 5, monotonic = 10\<rparr>), (0, \<lparr>UnixMilli = 5, monotonic = 20\<rparr>),
       (0, \<lparr>UnixMilli = 5, monotonic = 30\<rparr>), (0, \<lparr>UnixMilli = 5, monotonic = 40\<rparr>),
       (1, \<lparr>UnixMilli = 5, monotonic = 50\<rparr>), (1, \<lparr>UnixMilli = 5, monotonic = 60\<rparr>),
       (1, \<lparr>UnixMilli = 5, monotonic = 70\<rparr>), (1, \<lparr>UnixMilli = 5, monotonic = 80\<rparr>),
       (2, \<lparr>UnixMilli = 5, monotonic = 90\<rparr>), (2, \<lparr>UnixMilli = 5, monotonic = 100\<rparr>),
       (2, \<lparr>UnixMilli = 5, monotonic = 110\<rparr>), (2, \<lparr>UnixMilli = 5, monotonic = 120\<rparr>),
       (0, \<lparr>UnixMilli = 5, monotonic = 130\<rparr>),
       (3, \<lparr>UnixMilli = 5, monotonic = 140\<rparr>), (3, \<lparr>UnixMilli = 5, monotonic = 150\<rparr>),
       (3, \<lparr>UnixMilli = 5, monotonic = 160\<rparr>), (3, \<lparr>UnixMilli = 5, monotonic = 170\<rparr>)] =
     [20975616, 20975617, 20975618, 20975617] \<and>
   id_pair 20975618 = (5, 2) \<and> id_pair 20975617 = (5, 1) \<and>
   \<not> id_le 20975618 20975617 \<and> \<not> id_step 20975618 20975617"
  by code_simp

section \<open>Concurrent callers of \<open>snowflake_generator.go\<close> get equal identifiers\<close>

text \<open>
  C7 fails for \<open>snowflake_generator.go\<close>: the last timestamp and the sequence are two
  words, and the store of line 94 comes after the compare-and-swap of line 91. Three
  callers of \<open>Generate\<close> on a new generator (node id 1, epoch 0), all in millisecond 6:
  the first wins the compare-and-swap of line 91 and stops before line 94; the second
  loads the new timestamp and the sequence 0 still there, and returns sequence 1; the
  first stores 0 and returns sequence 0; the third loads sequence 0 and returns
  sequence 1 as well. Each of the three identifiers has its own winning
  compare-and-swap, and two of them are equal. (In \<open>part_001\<close> the identifiers of
  concurrent callers are pairwise distinct while the relative timestamps fit 41 bits:
  lemma \<open>winners_P_order\<close>.)
\<close>

theorem concurrent_duplicate:
  "NewGenerator 1 0 \<lparr>UnixMilli = 0, monotonic = 0\<rparr> =
     (Some \<lparr>tsepoch = 0, shiftedNid = 4096, st = \<lparr>UnixMilli = 0, monotonic = 0\<rparr>, lts = 0, seq = 0\<rparr>,
      None) \<and>
   run_callers caller_step
     \<lparr>tsepoch = 0, shiftedNid = 4096, st = \<lparr>UnixMilli = 0, monotonic = 0\<rparr>, lts = 0, seq = 0\<rparr>
     [AtTop, AtTop, AtTop]
     [(0, \<lparr>UnixMilli = 6, monotonic = 100\<rparr>), (0, \<lparr>UnixMilli = 6, monotonic = 110\<rparr>),
      (0, \<lparr>UnixMilli = 6, monotonic = 120\<rparr>), (0, \<lparr>UnixMilli = 6, monotonic = 130\<rparr>),
      (1, \<lparr>UnixMilli = 6, monotonic = 140\<rparr>), (1, \<lparr>UnixMilli = 6, monotonic = 150\<rparr>),
      (1, \<lparr>UnixMilli = 6, monotonic = 160\<rparr>), (1, \<lparr>UnixMilli = 6, monotonic = 170\<rparr>),
      (0, \<lparr>UnixMilli = 6, monotonic = 180\<rparr>),
      (2, \<lparr>UnixMilli = 6, monotonic = 190\<rparr>), (2, \<lparr>UnixMilli = 6, monotonic = 200\<rparr>),
      (2, \<lparr>UnixMilli = 6, monotonic = 210\<rparr>), (2, \<lparr>UnixMilli = 6, monotonic = 220\<rparr>)] =
   (\<lparr>tsepoch = 0, shiftedNid = 4096, st = \<lparr>UnixMilli = 0, monotonic = 0\<rparr>, lts = 6, seq = 1\<rparr>,
    [Returned (25169920, None), Returned (25169921, None), Returned (25169921, None)]) \<and>
   winners caller_step won_A
     \<lparr>tsepoch = 0, shiftedNid = 4096, st = \<lparr>UnixMilli = 0, monotonic = 0\<rparr>, lts = 0, seq = 0\<rparr>
     [AtTop, AtTop, AtTop]
     [(0, \<lparr>UnixMilli = 6, monotonic = 100\<rparr>), (0, \<lparr>UnixMilli = 6, monotonic = 110\<rparr>),
      (0, \<lparr>UnixMilli = 6, monotonic = 120\<rparr>), (0, \<lparr>UnixMilli = 6, monotonic = 130\<rparr>),
      (1, \<lparr>UnixMilli = 6, monotonic = 140\<rparr>), (1, \<lparr>UnixMilli = 6, monotonic = 150\<rparr>),
      (1, \<lparr>UnixMilli = 6, monotonic = 160\<rparr>), (1, \<lparr>UnixMilli = 6, monotonic = 170\<rparr>),
      (0, \<lparr>UnixMilli = 6, monotonic = 180\<rparr>),
      (2, \<lparr>UnixMilli = 6, monotonic = 190\<rparr>), (2, \<lparr>UnixMilli = 6, monotonic = 200\<rparr>),
      (2, \<lparr>UnixMilli = 6, monotonic = 210\<rparr>), (2, \<lparr>UnixMilli = 6, monotonic = 220\<rparr>)] =
   [25169920, 25169921, 25169921] \<and>
   id_pair 25169920 = (6, 0) \<and> id_pair 25169921 = (6, 1) \<and>
   \<not> distinct [25169920, 25169921, 25169921 :: Snowflake]"
  by code_simp

section \<open>Clock rollback leaves the generator as it was\<close>

text \<open>
  C9: when \<open>Generate\<close> (of either file) fails with \<open>ErrGenerationClockRollback\<close>, the
  identifier returned is 0 and the generator is exactly what it was before the call.
\<close>

theorem rollback_no_update:
  "(Generate s clk = Some ((sf, Some ErrGenerationClockRollback), s', clk') \<longrightarrow>
      sf = 0 \<and> s' = s) \<and>
   (Generate_P p clkP = Some ((sfP, Some ErrGenerationClockRollback), p', clkP') \<longrightarrow>
      sfP = 0 \<and> p' = p)"
  using Generate_error [of s clk sf ErrGenerationClockRollback s' clk']
    Generate_P_error [of p clkP sfP ErrGenerationClockRollback p' clkP']
  by simp

theorem rollback_no_update_witness:
  "Generate \<lparr>tsepoch = 0, shiftedNid = 4096, st = \<lparr>UnixMilli = 0, monotonic = 0\<rparr>,
             lts = 5, seq = 3\<rparr>
     [\<lparr>UnixMilli = 4, monotonic = 0\<rparr>, \<lparr>UnixMilli = 7, monotonic = 9\<rparr>] =
     Some ((0, Some ErrGenerationClockRollback),
           \<lparr>tsepoch = 0, shiftedNid = 4096, st = \<lparr>UnixMilli = 0, monotonic = 0\<rparr>,
              lts = 5, seq = 3\<rparr>,
           [\<lparr>UnixMilli = 7, monotonic = 9\<rparr>]) \<and>
   Generate_P \<lparr>tsepoch_P = 0, shiftedNid_P = 4096, state_P = 20483\<rparr>
     [\<lparr>UnixMilli = 4, monotonic = 0\<rparr>, \<lparr>UnixMilli = 4, monotonic = 10\<rparr>,
      \<lparr>UnixMilli = 4, monotonic = 15000010\<rparr>, \<lparr>UnixMilli = 7, monotonic = 15000020\<rparr>] =
     Some ((0, Some ErrGenerationClockRollback),
           \<lparr>tsepoch_P = 0, shiftedNid_P = 4096, state_P = 20483\<rparr>,
           [\<lparr>UnixMilli = 7, monotonic = 15000020\<rparr>]) \<and>
   (0::Snowflake) = 0"
proof -
  let ?s = "\<lparr>tsepoch = 0, shiftedNid = 4096, st = \<lparr>UnixMilli = 0, monotonic = 0\<rparr>,
             lts = 5, seq = 3\<rparr>"
  let ?p = "\<lparr>tsepoch_P = 0, shiftedNid_P = 4096, state_P = 20483\<rparr>"
  let ?c = "[\<lparr>UnixMilli = 4, monotonic = 0\<rparr>, \<lparr>UnixMilli = 7, monotonic = 9\<rparr>]"
  let ?d = "[\<lparr>UnixMilli = 4, monotonic = 0\<rparr>, \<lparr>UnixMilli = 4, monotonic = 10\<rparr>,
      \<lparr>UnixMilli = 4, monotonic = 15000010\<rparr>, \<lparr>UnixMilli = 7, monotonic = 15000020\<rparr>]"
  have a: "Generate ?s ?c =
     Some ((0, Some ErrGenerationClockRollback), ?s, [\<lparr>UnixMilli = 7, monotonic = 9\<rparr>])"
    by code_simp
  have b: "Generate_P ?p ?d =
     Some ((0, Some ErrGenerationClockRollback), ?p, [\<lparr>UnixMilli = 7, monotonic = 15000020\<rparr>])"
    by code_simp
  from rollback_no_update [where s = ?s and clk = ?c and sf = 0 and s' = ?s
      and clk' = "[\<lparr>UnixMilli = 7, monotonic = 9\<rparr>]" and p = ?p and clkP = ?d and sfP = 0
      and p' = ?p and clkP' = "[\<lparr>UnixMilli = 7, monotonic = 15000020\<rparr>]"] a b
  show ?thesis by simp
qed

section \<open>Node id validation\<close>

text \<open>
  C2: \<open>NewGenerator\<close> is to return \<open>ErrInvalidNodeId\<close> exactly for the node ids
  outside 0 to 1023. Both files test the upper bound only: the node id \<open>- 1\<close> is
  accepted, its shifted value \<open>- 4096\<close> has every bit of the timestamp field set, and
  the generator then returns the same identifier in two different milliseconds.
\<close>

theorem negative_node_id_accepted:
  "NewGenerator (- 1) epoch t0 =
     (Some \<lparr>tsepoch = epoch, shiftedNid = - 4096, st = t0, lts = 0, seq = 0\<rparr>, None) \<and>
   NewGenerator_P (- 1) epoch =
     (Some \<lparr>tsepoch_P = epoch, shiftedNid_P = - 4096, state_P = 0\<rparr>, None) \<and>
   successes (calls Generate 2
     \<lparr>tsepoch = 0, shiftedNid = - 4096, st = \<lparr>UnixMilli = 0, monotonic = 0\<rparr>, lts = 0, seq = 0\<rparr>
     [\<lparr>UnixMilli = 5, monotonic = 0\<rparr>, \<lparr>UnixMilli = 6, monotonic = 1000000\<rparr>]) =
     [- 4096, - 4096] \<and>
   successes (calls Generate_P 2 \<lparr>tsepoch_P = 0, shiftedNid_P = - 4096, state_P = 0\<rparr>
     [\<lparr>UnixMilli = 5, monotonic = 0\<rparr>, \<lparr>UnixMilli = 6, monotonic = 1000000\<rparr>]) =
     [- 4096, - 4096]"
proof -
  have "NOT (mask 12) = (- 4096 :: int64)" by code_simp
  moreover have "\<not> 1024 \<le>s (- 1 :: int64)" by (simp add: word_sle_eq)
  ultimately have "NewGenerator (- 1) epoch t0 =
     (Some \<lparr>tsepoch = epoch, shiftedNid = - 4096, st = t0, lts = 0, seq = 0\<rparr>, None)"
    "NewGenerator_P (- 1) epoch =
     (Some \<lparr>tsepoch_P = epoch, shiftedNid_P = - 4096, state_P = 0\<rparr>, None)"
    by (simp_all add: NewGenerator_result NewGenerator_P_result)
  moreover have "successes (calls Generate 2
     \<lparr>tsepoch = 0, shiftedNid = - 4096, st = \<lparr>UnixMilli = 0, monotonic = 0\<rparr>, lts = 0, seq = 0\<rparr>
     [\<lparr>UnixMilli = 5, monotonic = 0\<rparr>, \<lparr>UnixMilli = 6, monotonic = 1000000\<rparr>]) =
     [- 4096, - 4096]"
    by code_simp
  moreover have "successes (calls Generate_P 2 \<lparr>tsepoch_P = 0, shiftedNid_P = - 4096, state_P = 0\<rparr>
     [\<lparr>UnixMilli = 5, monotonic = 0\<rparr>, \<lparr>UnixMilli = 6, monotonic = 1000000\<rparr>]) =
     [- 4096, - 4096]"
    by code_simp
  ultimately show ?thesis by simp
qed

section \<open>Layout of an identifier\<close>

text \<open>
  C4, amended: on a generator built with a node id that is not negative, and while
  every relative timestamp read is below \<open>2 ^ 41\<close>, every identifier that a successful
  \<open>Generate\<close> returns is \<open>(ts << 22) | (nodeId << 12) | seq\<close> for the relative timestamp
  \<open>ts\<close> of one of the readings and a sequence \<open>seq\<close>, the three values are not
  negative and fit 41, 10 and 12 bits, and decoding the identifier gives them back.
\<close>

theorem identifier_layout:
  assumes "0 \<le>s nodeId"
    and "NewGenerator nodeId epoch t0 = (Some s, None)"
    and "NewGenerator_P nodeId epoch = (Some p, None)"
    and "\<forall>t\<in>set clk. relative epoch t <s 2 ^ 41"
    and "sf \<in> set (successes (calls Generate n s clk)) \<union>
              set (successes (calls Generate_P n p clk))"
  shows "\<exists>ts sq. sf = push_bit 22 ts OR push_bit 12 nodeId OR sq \<and>
           (\<exists>t\<in>set clk. ts = relative epoch t) \<and>
           in_width 41 ts \<and> in_width 10 nodeId \<and> in_width 12 sq \<and>
           ts_field sf = ts \<and> node_field sf = nodeId \<and> seq_field sf = sq"
proof -
  let ?G = "\<lambda>sf. \<exists>ts sq. sf = push_bit 22 ts OR push_bit 12 nodeId OR sq \<and>
           (\<exists>t\<in>set clk. ts = relative epoch t) \<and>
           in_width 41 ts \<and> in_width 10 nodeId \<and> in_width 12 sq \<and>
           ts_field sf = ts \<and> node_field sf = nodeId \<and> seq_field sf = sq"
  let ?I = "\<lambda>s c. inv_A nodeId epoch s \<and> in_range epoch c \<and> set c \<subseteq> set clk"
  let ?J = "\<lambda>p c. inv_P nodeId epoch p \<and> in_range epoch c \<and> set c \<subseteq> set clk"
  have rng: "in_range epoch clk" using assms(4) by (simp add: in_range_def)
  have A: "\<forall>sf\<in>set (successes (calls Generate n s clk)). ?G sf"
  proof (rule calls_all [where I = ?I])
    show "?I s clk" using NewGenerator_inv [OF assms(2,1)] rng by simp
  next
    fix s c r s' c'
    assume g: "Generate s c = Some (r, s', c')" and I: "?I s c"
    from Generate_step [OF g] I have inv': "inv_A nodeId epoch s'" and rng': "in_range epoch c'"
      by auto
    from Generate_suffix [OF g] I have sub: "set c' \<subseteq> set clk" by auto
    have "?G (fst r)" if ok: "snd r = None"
    proof -
      from Generate_sound [OF g] ok I
      have "sound_step epoch (push_bit snowflakeNodeIdShift nodeId) c (lts s, seq s)
              (fst r, None) (lts s', seq s')"
        by (cases r) (auto simp: inv_A_def)
      from sound_step_layout [OF this] I
      have "\<exists>ts sq. fst r = push_bit 22 ts OR push_bit 12 nodeId OR sq \<and>
           (\<exists>t\<in>set c. ts = relative epoch t) \<and>
           in_width 41 ts \<and> in_width 10 nodeId \<and> in_width 12 sq \<and>
           ts_field (fst r) = ts \<and> node_field (fst r) = nodeId \<and> seq_field (fst r) = sq"
        by (simp add: inv_A_def)
      with I show ?thesis by blast
    qed
    with inv' rng' sub show "?I s' c' \<and> (snd r = None \<longrightarrow> ?G (fst r))" by simp
  qed
  have B: "\<forall>sf\<in>set (successes (calls Generate_P n p clk)). ?G sf"
  proof (rule calls_all [where I = ?J])
    show "?J p clk" using NewGenerator_P_inv [OF assms(3,1)] rng by simp
  next
    fix p c r p' c'
    assume g: "Generate_P p c = Some (r, p', c')" and J: "?J p c"
    from Generate_P_step [OF g] J have inv': "inv_P nodeId epoch p'" and rng': "in_range epoch c'"
      by auto
    from Generate_P_suffix [OF g] J have sub: "set c' \<subseteq> set clk" by auto
    have "?G (fst r)" if ok: "snd r = None"
    proof -
      from Generate_P_sound [OF g] ok J obtain b where
        "sound_step epoch (push_bit snowflakeNodeIdShift nodeId) c
              (prevTs (state_P p), prevSeq (state_P p)) (fst r, None) b"
        by (cases r) (auto simp: inv_P_def P_sound_def)
      from sound_step_layout [OF this] J
      have "\<exists>ts sq. fst r = push_bit 22 ts OR push_bit 12 nodeId OR sq \<and>
           (\<exists>t\<in>set c. ts = relative epoch t) \<and>
           in_width 41 ts \<and> in_width 10 nodeId \<and> in_width 12 sq \<and>
           ts_field (fst r) = ts \<and> node_field (fst r) = nodeId \<and> seq_field (fst r) = sq"
        by (simp add: inv_P_def in_width_prevSeq)
      with J show ?thesis by blast
    qed
    with inv' rng' sub show "?J p' c' \<and> (snd r = None \<longrightarrow> ?G (fst r))" by simp
  qed
  from A B assms(5) show ?thesis by blast
qed

theorem identifier_layout_witness:
  "0 \<le>s (1::int64) \<and>
   NewGenerator 1 0 \<lparr>UnixMilli = 0, monotonic = 0\<rparr> =
     (Some \<lparr>tsepoch = 0, shiftedNid = 4096, st = \<lparr>UnixMilli = 0, monotonic = 0\<rparr>,
             lts = 0, seq = 0\<rparr>, None) \<and>
   NewGenerator_P 1 0 = (Some \<lparr>tsepoch_P = 0, shiftedNid_P = 4096, state_P = 0\<rparr>, None) \<and>
   list_all (\<lambda>t. relative 0 t <s 2 ^ 41)
     [\<lparr>UnixMilli = 5, monotonic = 0\<rparr>, \<lparr>UnixMilli = 5, monotonic = 1\<rparr>] \<and>
   successes (calls Generate 2
      \<lparr>tsepoch = 0, shiftedNid = 4096, st = \<lparr>UnixMilli = 0, monotonic = 0\<rparr>, lts = 0, seq = 0\<rparr>
      [\<lparr>UnixMilli = 5, monotonic = 0\<rparr>, \<lparr>UnixMilli = 5, monotonic = 1\<rparr>]) =
     [20975616, 20975617] \<and>
   (\<exists>ts sq. (20975617 :: Snowflake) = push_bit 22 ts OR push_bit 12 1 OR sq \<and>
      (\<exists>t\<in>set [\<lparr>UnixMilli = 5, monotonic = 0\<rparr>, \<lparr>UnixMilli = 5, monotonic = 1\<rparr>].
         ts = relative 0 t) \<and>
      in_width 41 ts \<and> in_width 10 1 \<and> in_width 12 sq \<and>
      ts_field 20975617 = ts \<and> node_field 20975617 = 1 \<and> seq_field 20975617 = sq)"
proof -
  let ?t0 = "\<lparr>UnixMilli = 0, monotonic = 0\<rparr>"
  let ?s = "\<lparr>tsepoch = 0, shiftedNid = 4096, st = ?t0, lts = 0, seq = 0\<rparr>"
  let ?p = "\<lparr>tsepoch_P = 0, shiftedNid_P = 4096, state_P = 0\<rparr>"
  let ?clk = "[\<lparr>UnixMilli = 5, monotonic = 0\<rparr>, \<lparr>UnixMilli = 5, monotonic = 1\<rparr>]"
  have h1: "0 \<le>s (1::int64)" by (simp add: word_sle_eq)
  have h2: "NewGenerator 1 0 ?t0 = (Some ?s, None)" by code_simp
  have h3: "NewGenerator_P 1 0 = (Some ?p, None)" by code_simp
  have h4: "\<forall>t\<in>set ?clk. relative 0 t <s 2 ^ 41" by code_simp
  have h4': "list_all (\<lambda>t. relative 0 t <s 2 ^ 41) ?clk" by code_simp
  have e: "successes (calls Generate 2 ?s ?clk) = [20975616, 20975617]" by code_simp
  then have h5: "20975617 \<in> set (successes (calls Generate 2 ?s ?clk)) \<union>
     set (successes (calls Generate_P 2 ?p ?clk))" by simp
  from identifier_layout [OF h1 h2 h3 h4 h5] h1 h2 h3 h4' e show ?thesis by simp
qed

text \<open>
  The claim as stated fails at the relative timestamp \<open>2 ^ 41\<close>: it does not fit 41
  bits, the identifier returned is negative and its timestamp field is \<open>- (2 ^ 41)\<close>.
\<close>

theorem identifier_layout_counterexample:
  "NewGenerator 1 0 \<lparr>UnixMilli = 0, monotonic = 0\<rparr> =
     (Some \<lparr>tsepoch = 0, shiftedNid = 4096, st = \<lparr>UnixMilli = 0, monotonic = 0\<rparr>,
             lts = 0, seq = 0\<rparr>, None) \<and>
   Generate \<lparr>tsepoch = 0, shiftedNid = 4096, st = \<lparr>UnixMilli = 0, monotonic = 0\<rparr>,
             lts = 0, seq = 0\<rparr>
     [\<lparr>UnixMilli = 2199023255552, monotonic = 0\<rparr>] =
     Some ((9223372036854779904, None),
           \<lparr>tsepoch = 0, shiftedNid = 4096, st = \<lparr>UnixMilli = 0, monotonic = 0\<rparr>,
              lts = 2199023255552, seq = 0\<rparr>, []) \<and>
   Generate_P \<lparr>tsepoch_P = 0, shiftedNid_P = 4096, state_P = 0\<rparr>
     [\<lparr>UnixMilli = 2199023255552, monotonic = 0\<rparr>] =
     Some ((9223372036854779904, None),
           \<lparr>tsepoch_P = 0, shiftedNid_P = 4096, state_P = 9007199254740992\<rparr>, []) \<and>
   relative 0 \<lparr>UnixMilli = 2199023255552, monotonic = 0\<rparr> = 2199023255552 \<and>
   \<not> in_width 41 2199023255552 \<and>
   ts_field 9223372036854779904 = - 2199023255552 \<and>
   \<not> in_width 41 (ts_field 9223372036854779904) \<and>
   (9223372036854779904 :: Snowflake) <s 0"
  by code_simp

section \<open>The first call of a millisecond\<close>

text \<open>
  C5: the first successful call of a millisecond is to return sequence 0. A new
  generator records timestamp 0 and sequence 0, which is also what it records after
  returning the identifier of millisecond 0 with sequence 0: the first call that reads
  the epoch millisecond itself returns sequence 1.
\<close>

theorem first_call_at_epoch:
  "Generate \<lparr>tsepoch = epoch, shiftedNid = push_bit 12 nodeId, st = t0, lts = 0, seq = 0\<rparr>
     [\<lparr>UnixMilli = epoch, monotonic = m\<rparr>] =
     Some ((make_id 0 (push_bit 12 nodeId) 1, None),
           \<lparr>tsepoch = epoch, shiftedNid = push_bit 12 nodeId, st = t0, lts = 0, seq = 1\<rparr>, []) \<and>
   Generate_P \<lparr>tsepoch_P = epoch, shiftedNid_P = push_bit 12 nodeId, state_P = 0\<rparr>
     [\<lparr>UnixMilli = epoch, monotonic = m\<rparr>] =
     Some ((make_id 0 (push_bit 12 nodeId) 1, None),
           \<lparr>tsepoch_P = epoch, shiftedNid_P = push_bit 12 nodeId, state_P = 1\<rparr>, []) \<and>
   seq_field (make_id 0 (push_bit 12 nodeId) 1) = 1"
proof -
  have m: "snowflakeSequenceMask \<noteq> 0"
    by (simp add: snowflakeSequenceMask_def snowflakeSequenceBits_def)
  have a: "attempt_P epoch 0 [\<lparr>UnixMilli = epoch, monotonic = m\<rparr>] = Some (Candidate 0 1, [])"
    using m by (simp add: attempt_P_def wait_rollback_def Let_def)
  have "Generate_P_round \<lparr>tsepoch_P = epoch, shiftedNid_P = push_bit 12 nodeId, state_P = 0\<rparr>
     [\<lparr>UnixMilli = epoch, monotonic = m\<rparr>] =
     Some (Return (make_id 0 (push_bit 12 nodeId) 1, None)
        \<lparr>tsepoch_P = epoch, shiftedNid_P = push_bit 12 nodeId, state_P = 1\<rparr>, [])"
    by (simp add: Generate_P_round_eq a snowflakeSequenceBits_def)
  then have "Generate_P \<lparr>tsepoch_P = epoch, shiftedNid_P = push_bit 12 nodeId, state_P = 0\<rparr>
     [\<lparr>UnixMilli = epoch, monotonic = m\<rparr>] =
     Some ((make_id 0 (push_bit 12 nodeId) 1, None),
           \<lparr>tsepoch_P = epoch, shiftedNid_P = push_bit 12 nodeId, state_P = 1\<rparr>, [])"
    by (subst Generate_P.simps) simp
  moreover have "Generate \<lparr>tsepoch = epoch, shiftedNid = push_bit 12 nodeId, st = t0, lts = 0, seq = 0\<rparr>
     [\<lparr>UnixMilli = epoch, monotonic = m\<rparr>] =
     Some ((make_id 0 (push_bit 12 nodeId) 1, None),
           \<lparr>tsepoch = epoch, shiftedNid = push_bit 12 nodeId, st = t0, lts = 0, seq = 1\<rparr>, [])"
    using m by (simp add: Generate_round_eq relative_def)
  moreover have "in_width 12 1" by (simp add: in_width_uint)
  then have "seq_field (make_id 0 (push_bit 12 nodeId) 1) = 1"
    using seq_field_make_id [of 1 0 nodeId] by (simp add: shifts)
  ultimately show ?thesis by simp
qed

section \<open>Sequence exhaustion\<close>

text \<open>
  C6, amended. When the recorded sequence is 4095 and the reading is the recorded
  millisecond, the round of \<open>Generate\<close> (of either file) ends in
  \<open>time.Sleep(time.Millisecond)\<close> and \<open>continue\<close>: the call does not return on that
  reading and goes round the loop again with the next one. On a generator built by
  \<open>NewGenerator\<close> with a node id that is not negative, and while every relative
  timestamp read is below \<open>2 ^ 41\<close>, the identifier that a call returns from a state
  whose recorded sequence is 4095 has a timestamp field strictly larger than the
  recorded timestamp (it is the relative timestamp of one of the readings of that
  call) and the sequence field 0. Whatever the readings and the node id, an identifier
  returned by a generator built by \<open>NewGenerator\<close> is built with the sequence that the
  generator records afterwards, which is from 0 to 4095 and is its sequence field.
\<close>

theorem sequence_exhaustion:
  "(seq s = snowflakeSequenceMask \<and> relative (tsepoch s) t = lts s \<longrightarrow>
      Generate_round s t = Sleep Millisecond \<and> Generate s (t # clk) = Generate s clk) \<and>
   (prevSeq (state_P p) = snowflakeSequenceMask \<and>
    relative (tsepoch_P p) t = prevTs (state_P p) \<longrightarrow>
      Generate_P_round p (t # clk) = Some (Sleep Millisecond, clk) \<and>
      Generate_P p (t # clk) = Generate_P p clk) \<and>
   (0 \<le>s nodeId \<and> NewGenerator nodeId epoch start = (Some fresh, None) \<and>
    (\<forall>u\<in>set later. relative epoch u <s 2 ^ 41) \<and>
    state_after Generate k fresh later = Some (sA, clkA) \<and>
    seq sA = snowflakeSequenceMask \<and>
    Generate sA clkA = Some ((sf, None), sA', clkA') \<longrightarrow>
      lts sA <s ts_field sf \<and> seq_field sf = 0 \<and>
      (\<exists>u\<in>set clkA. ts_field sf = relative epoch u)) \<and>
   (0 \<le>s nodeId \<and> NewGenerator_P nodeId epoch = (Some freshP, None) \<and>
    (\<forall>u\<in>set later. relative epoch u <s 2 ^ 41) \<and>
    state_after Generate_P k freshP later = Some (pB, clkB) \<and>
    prevSeq (state_P pB) = snowflakeSequenceMask \<and>
    Generate_P pB clkB = Some ((sfP, None), pB', clkB') \<longrightarrow>
      prevTs (state_P pB) <s ts_field sfP \<and> seq_field sfP = 0 \<and>
      (\<exists>u\<in>set clkB. ts_field sfP = relative epoch u)) \<and>
   (NewGenerator nodeId epoch start = (Some fresh, None) \<and>
    state_after Generate k fresh later = Some (sA, clkA) \<and>
    Generate sA clkA = Some ((sf, None), sA', clkA') \<longrightarrow>
      sf = make_id (lts sA') (push_bit snowflakeNodeIdShift nodeId) (seq sA') \<and>
      0 \<le>s seq sA' \<and> seq sA' \<le>s 4095 \<and> seq_field sf = seq sA') \<and>
   (NewGenerator_P nodeId epoch = (Some freshP, None) \<and>
    state_after Generate_P k freshP later = Some (pB, clkB) \<and>
    Generate_P pB clkB = Some ((sfP, None), pB', clkB') \<longrightarrow>
      (\<exists>u\<in>set clkB. sfP = make_id (relative epoch u) (push_bit snowflakeNodeIdShift nodeId)
                               (prevSeq (state_P pB'))) \<and>
      0 \<le>s prevSeq (state_P pB') \<and> prevSeq (state_P pB') \<le>s 4095 \<and>
      seq_field sfP = prevSeq (state_P pB'))"
proof (intro conjI impI)
  assume h: "seq s = snowflakeSequenceMask \<and> relative (tsepoch s) t = lts s"
  then show "Generate_round s t = Sleep Millisecond" by (simp add: Generate_round_eq)
  from h Generate_restart [of s t clk] show "Generate s (t # clk) = Generate s clk" by blast
next
  assume h: "prevSeq (state_P p) = snowflakeSequenceMask \<and>
    relative (tsepoch_P p) t = prevTs (state_P p)"
  then have "attempt_P (tsepoch_P p) (state_P p) (t # clk) = Some (Exhausted, clk)"
    by (simp add: attempt_P_def wait_rollback_def Let_def relative_def prevTs_def prevSeq_def)
  then show "Generate_P_round p (t # clk) = Some (Sleep Millisecond, clk)"
    by (simp add: Generate_P_round_eq)
  from h Generate_P_restart [of p t clk] show "Generate_P p (t # clk) = Generate_P p clk"
    by blast
next
  assume h: "0 \<le>s nodeId \<and> NewGenerator nodeId epoch start = (Some fresh, None) \<and>
    (\<forall>u\<in>set later. relative epoch u <s 2 ^ 41) \<and>
    state_after Generate k fresh later = Some (sA, clkA) \<and>
    seq sA = snowflakeSequenceMask \<and>
    Generate sA clkA = Some ((sf, None), sA', clkA')"
  then have "in_range epoch later" by (simp add: in_range_def)
  from reach_A [OF _ _ this] h have "inv_A nodeId epoch sA" "in_range epoch clkA" by blast+
  from Generate_ts_field [OF _ this] h
  have r: "lts sA <s ts_field sf \<and> seq_field sf = 0 \<and>
      (\<exists>u\<in>set clkA. ts_field sf = relative epoch u)"
    by blast
  from r show "lts sA <s ts_field sf" by blast
  from r show "seq_field sf = 0" by blast
  from r show "\<exists>u\<in>set clkA. ts_field sf = relative epoch u" by blast
next
  assume h: "0 \<le>s nodeId \<and> NewGenerator_P nodeId epoch = (Some freshP, None) \<and>
    (\<forall>u\<in>set later. relative epoch u <s 2 ^ 41) \<and>
    state_after Generate_P k freshP later = Some (pB, clkB) \<and>
    prevSeq (state_P pB) = snowflakeSequenceMask \<and>
    Generate_P pB clkB = Some ((sfP, None), pB', clkB')"
  then have "in_range epoch later" by (simp add: in_range_def)
  from reach_P [OF _ _ this] h have "inv_P nodeId epoch pB" "in_range epoch clkB" by blast+
  from Generate_P_ts_field [OF _ this] h
  have r: "prevTs (state_P pB) <s ts_field sfP \<and> seq_field sfP = 0 \<and>
      (\<exists>u\<in>set clkB. ts_field sfP = relative epoch u)"
    by blast
  from r show "prevTs (state_P pB) <s ts_field sfP" by blast
  from r show "seq_field sfP = 0" by blast
  from r show "\<exists>u\<in>set clkB. ts_field sfP = relative epoch u" by blast
next
  assume h: "NewGenerator nodeId epoch start = (Some fresh, None) \<and>
    state_after Generate k fresh later = Some (sA, clkA) \<and>
    Generate sA clkA = Some ((sf, None), sA', clkA')"
  from reach_A_seq [of nodeId epoch start fresh k later sA clkA] h
  have "shiftedNid sA = push_bit snowflakeNodeIdShift nodeId" "in_width 12 (seq sA)"
    by simp_all
  from Generate_seq_field [OF _ this] h
  have r: "sf = make_id (lts sA') (push_bit snowflakeNodeIdShift nodeId) (seq sA') \<and>
         0 \<le>s seq sA' \<and> seq sA' \<le>s 4095 \<and> seq_field sf = seq sA'"
    by blast
  from r show "sf = make_id (lts sA') (push_bit snowflakeNodeIdShift nodeId) (seq sA')" by blast
  from r show "0 \<le>s seq sA'" by blast
  from r show "seq sA' \<le>s 4095" by blast
  from r show "seq_field sf = seq sA'" by blast
next
  assume h: "NewGenerator_P nodeId epoch = (Some freshP, None) \<and>
    state_after Generate_P k freshP later = Some (pB, clkB) \<and>
    Generate_P pB clkB = Some ((sfP, None), pB', clkB')"
  from reach_P_seq [of nodeId epoch freshP k later pB clkB] h
  have ep: "tsepoch_P pB = epoch" and "shiftedNid_P pB = push_bit snowflakeNodeIdShift nodeId"
    by simp_all
  from Generate_P_seq_field [OF _ this(2)] h ep
  have r: "(\<exists>u\<in>set clkB. sfP = make_id (relative epoch u)
                         (push_bit snowflakeNodeIdShift nodeId) (prevSeq (state_P pB'))) \<and>
         0 \<le>s prevSeq (state_P pB') \<and> prevSeq (state_P pB') \<le>s 4095 \<and>
         seq_field sfP = prevSeq (state_P pB')"
    by blast
  from r show "\<exists>u\<in>set clkB. sfP = make_id (relative epoch u)
                   (push_bit snowflakeNodeIdShift nodeId) (prevSeq (state_P pB'))" by blast
  from r show "0 \<le>s prevSeq (state_P pB')" by blast
  from r show "prevSeq (state_P pB') \<le>s 4095" by blast
  from r show "seq_field sfP = prevSeq (state_P pB')" by blast
qed

theorem sequence_exhaustion_witness:
  "seq \<lparr>tsepoch = 0, shiftedNid = 4096, st = \<lparr>UnixMilli = 0, monotonic = 0\<rparr>,
         lts = 5, seq = 4095\<rparr> = snowflakeSequenceMask \<and>
   relative 0 \<lparr>UnixMilli = 5, monotonic = 7\<rparr> = (5 :: int64) \<and>
   Generate_round
     \<lparr>tsepoch = 0, shiftedNid = 4096, st = \<lparr>UnixMilli = 0, monotonic = 0\<rparr>, lts = 5, seq = 4095\<rparr>
     \<lparr>UnixMilli = 5, monotonic = 7\<rparr> = Sleep Millisecond \<and>
   Generate
     \<lparr>tsepoch = 0, shiftedNid = 4096, st = \<lparr>UnixMilli = 0, monotonic = 0\<rparr>, lts = 5, seq = 4095\<rparr>
     [\<lparr>UnixMilli = 5, monotonic = 7\<rparr>, \<lparr>UnixMilli = 6, monotonic = 1000008\<rparr>] =
   Generate
     \<lparr>tsepoch = 0, shiftedNid = 4096, st = \<lparr>UnixMilli = 0, monotonic = 0\<rparr>, lts = 5, seq = 4095\<rparr>
     [\<lparr>UnixMilli = 6, monotonic = 1000008\<rparr>] \<and>
   prevSeq 24575 = snowflakeSequenceMask \<and> prevTs 24575 = 5 \<and>
   Generate_P_round \<lparr>tsepoch_P = 0, shiftedNid_P = 4096, state_P = 24575\<rparr>
     [\<lparr>UnixMilli = 5, monotonic = 7\<rparr>, \<lparr>UnixMilli = 6, monotonic = 1000008\<rparr>] =
     Some (Sleep Millisecond, [\<lparr>UnixMilli = 6, monotonic = 1000008\<rparr>]) \<and>
   Generate_P \<lparr>tsepoch_P = 0, shiftedNid_P = 4096, state_P = 24575\<rparr>
     [\<lparr>UnixMilli = 5, monotonic = 7\<rparr>, \<lparr>UnixMilli = 6, monotonic = 1000008\<rparr>] =
   Generate_P \<lparr>tsepoch_P = 0, shiftedNid_P = 4096, state_P = 24575\<rparr>
     [\<lparr>UnixMilli = 6, monotonic = 1000008\<rparr>] \<and>
   0 \<le>s (1 :: int64) \<and>
   NewGenerator 1 0 \<lparr>UnixMilli = 0, monotonic = 0\<rparr> =
     (Some \<lparr>tsepoch = 0, shiftedNid = 4096, st = \<lparr>UnixMilli = 0, monotonic = 0\<rparr>,
             lts = 0, seq = 0\<rparr>, None) \<and>
   NewGenerator_P 1 0 = (Some \<lparr>tsepoch_P = 0, shiftedNid_P = 4096, state_P = 0\<rparr>, None) \<and>
   list_all (\<lambda>u. relative 0 u <s 2 ^ 41)
     (replicate 4096 \<lparr>UnixMilli = 5, monotonic = 7\<rparr> @
      [\<lparr>UnixMilli = 5, monotonic = 7\<rparr>, \<lparr>UnixMilli = 6, monotonic = 1000008\<rparr>]) \<and>
   state_after Generate 4096
     \<lparr>tsepoch = 0, shiftedNid = 4096, st = \<lparr>UnixMilli = 0, monotonic = 0\<rparr>, lts = 0, seq = 0\<rparr>
     (replicate 4096 \<lparr>UnixMilli = 5, monotonic = 7\<rparr> @
      [\<lparr>UnixMilli = 5, monotonic = 7\<rparr>, \<lparr>UnixMilli = 6, monotonic = 1000008\<rparr>]) =
     Some (\<lparr>tsepoch = 0, shiftedNid = 4096, st = \<lparr>UnixMilli = 0, monotonic = 0\<rparr>,
             lts = 5, seq = 4095\<rparr>,
           [\<lparr>UnixMilli = 5, monotonic = 7\<rparr>, \<lparr>UnixMilli = 6, monotonic = 1000008\<rparr>]) \<and>
   Generate
     \<lparr>tsepoch = 0, shiftedNid = 4096, st = \<lparr>UnixMilli = 0, monotonic = 0\<rparr>, lts = 5, seq = 4095\<rparr>
     [\<lparr>UnixMilli = 5, monotonic = 7\<rparr>, \<lparr>UnixMilli = 6, monotonic = 1000008\<rparr>] =
     Some ((25169920, None),
           \<lparr>tsepoch = 0, shiftedNid = 4096, st = \<lparr>UnixMilli = 0, monotonic = 0\<rparr>,
              lts = 6, seq = 0\<rparr>, []) \<and>
   (5 :: int64) <s ts_field 25169920 \<and> seq_field 25169920 = 0 \<and>
   ts_field 25169920 = relative 0 \<lparr>UnixMilli = 6, monotonic = 1000008\<rparr> \<and>
   25169920 = make_id 6 (push_bit snowflakeNodeIdShift 1) 0 \<and>
   state_after Generate_P 4096 \<lparr>tsepoch_P = 0, shiftedNid_P = 4096, state_P = 0\<rparr>
     (replicate 4096 \<lparr>UnixMilli = 5, monotonic = 7\<rparr> @
      [\<lparr>UnixMilli = 5, monotonic = 7\<rparr>, \<lparr>UnixMilli = 6, monotonic = 1000008\<rparr>]) =
     Some (\<lparr>tsepoch_P = 0, shiftedNid_P = 4096, state_P = 24575\<rparr>,
           [\<lparr>UnixMilli = 5, monotonic = 7\<rparr>, \<lparr>UnixMilli = 6, monotonic = 1000008\<rparr>]) \<and>
   Generate_P \<lparr>tsepoch_P = 0, shiftedNid_P = 4096, state_P = 24575\<rparr>
     [\<lparr>UnixMilli = 5, monotonic = 7\<rparr>, \<lparr>UnixMilli = 6, monotonic = 1000008\<rparr>] =
     Some ((25169920, None), \<lparr>tsepoch_P = 0, shiftedNid_P = 4096, state_P = 24576\<rparr>, []) \<and>
   prevTs 24575 <s ts_field 25169920 \<and> prevSeq 24576 = 0 \<and> seq_field 25169920 = prevSeq 24576"
proof -
  let ?z = "\<lparr>UnixMilli = 0, monotonic = 0\<rparr>"
  let ?t = "\<lparr>UnixMilli = 5, monotonic = 7\<rparr>"
  let ?n = "\<lparr>UnixMilli = 6, monotonic = 1000008\<rparr>"
  let ?fresh = "\<lparr>tsepoch = 0, shiftedNid = 4096, st = ?z, lts = 0, seq = 0\<rparr>"
  let ?ex = "\<lparr>tsepoch = 0, shiftedNid = 4096, st = ?z, lts = 5, seq = 4095\<rparr>"
  let ?next = "\<lparr>tsepoch = 0, shiftedNid = 4096, st = ?z, lts = 6, seq = 0\<rparr>"
  let ?freshP = "\<lparr>tsepoch_P = 0, shiftedNid_P = 4096, state_P = 0\<rparr>"
  let ?exP = "\<lparr>tsepoch_P = 0, shiftedNid_P = 4096, state_P = 24575\<rparr>"
  let ?nextP = "\<lparr>tsepoch_P = 0, shiftedNid_P = 4096, state_P = 24576\<rparr>"
  let ?later = "replicate 4096 ?t @ [?t, ?n]"
  note T = sequence_exhaustion [where s = ?ex and t = ?t and clk = "[?n]" and p = ?exP
      and nodeId = 1 and epoch = 0 and start = ?z and fresh = ?fresh and later = ?later
      and k = 4096 and sA = ?ex and clkA = "[?t, ?n]" and sf = 25169920 and sA' = ?next
      and clkA' = "[]" and freshP = ?freshP and pB = ?exP and clkB = "[?t, ?n]"
      and sfP = 25169920 and pB' = ?nextP and clkB' = "[]"]
  have n4096: "(4096 :: nat) = Suc 4095" by simp
  have a1: "seq ?ex = snowflakeSequenceMask" by code_simp
  have a2: "relative 0 ?t = (5 :: int64)" by code_simp
  have a2': "relative (tsepoch ?ex) ?t = lts ?ex" by code_simp
  have b1: "prevSeq 24575 = snowflakeSequenceMask" by code_simp
  have b2: "prevTs 24575 = 5" by code_simp
  have b1': "prevSeq (state_P ?exP) = snowflakeSequenceMask" by code_simp
  have b2': "relative (tsepoch_P ?exP) ?t = prevTs (state_P ?exP)" by code_simp
  have h1: "0 \<le>s (1 :: int64)" by (simp add: word_sle_eq)
  have h2: "NewGenerator 1 0 ?z = (Some ?fresh, None)" by code_simp
  have h2P: "NewGenerator_P 1 0 = (Some ?freshP, None)" by code_simp
  have r5: "relative 0 ?t <s 2 ^ 41" "relative 0 ?n <s 2 ^ 41" by code_simp+
  then have h3: "\<forall>u\<in>set ?later. relative 0 u <s 2 ^ 41" by auto
  then have l3: "list_all (\<lambda>u. relative 0 u <s 2 ^ 41) ?later"
    by (simp only: list_all_iff)
  have lt: "lts ?fresh <s relative (tsepoch ?fresh) ?t" by code_simp
  have "state_after Generate (Suc 4095) ?fresh (replicate (Suc 4095) ?t @ [?t, ?n]) =
        Some (?fresh\<lparr>lts := relative (tsepoch ?fresh) ?t, seq := of_nat 4095\<rparr>, [?t, ?n])"
    by (rule state_after_fill [OF lt]) simp
  moreover have "?fresh\<lparr>lts := relative (tsepoch ?fresh) ?t, seq := of_nat 4095\<rparr> = ?ex"
    by (simp add: relative_def)
  ultimately have h4: "state_after Generate 4096 ?fresh ?later = Some (?ex, [?t, ?n])"
    by (simp only: n4096)
  have h5: "Generate ?ex [?t, ?n] = Some ((25169920, None), ?next, [])" by code_simp
  have ltP: "prevTs (state_P ?freshP) <s relative (tsepoch_P ?freshP) ?t" by code_simp
  have wP: "in_width 51 (relative (tsepoch_P ?freshP) ?t)" by code_simp
  have "state_after Generate_P (Suc 4095) ?freshP (replicate (Suc 4095) ?t @ [?t, ?n]) =
        Some (?freshP\<lparr>state_P := push_bit snowflakeSequenceBits (relative (tsepoch_P ?freshP) ?t)
                                   OR of_nat 4095\<rparr>, [?t, ?n])"
    by (rule state_after_P_fill [OF ltP wP]) simp
  moreover have "push_bit snowflakeSequenceBits (relative (tsepoch_P ?freshP) ?t) OR of_nat 4095 =
                 (24575 :: int64)"
    by code_simp
  ultimately have h4P: "state_after Generate_P 4096 ?freshP ?later = Some (?exP, [?t, ?n])"
    by (simp only: n4096 SnowflakeGenerator_P.simps)
  have h5P: "Generate_P ?exP [?t, ?n] = Some ((25169920, None), ?nextP, [])" by code_simp
  have c1: "Generate_round ?ex ?t = Sleep Millisecond \<and> Generate ?ex [?t, ?n] = Generate ?ex [?n]"
    by (rule T [THEN conjunct1, THEN mp]) (intro conjI a1 a2')
  have c2: "Generate_P_round ?exP [?t, ?n] = Some (Sleep Millisecond, [?n]) \<and>
            Generate_P ?exP [?t, ?n] = Generate_P ?exP [?n]"
    by (rule T [THEN conjunct2, THEN conjunct1, THEN mp]) (intro conjI b1' b2')
  have c3: "lts ?ex <s ts_field 25169920 \<and> seq_field 25169920 = 0 \<and>
            (\<exists>u\<in>set [?t, ?n]. ts_field 25169920 = relative 0 u)"
    by (rule T [THEN conjunct2, THEN conjunct2, THEN conjunct1, THEN mp])
       (intro conjI h1 h2 h3 h4 a1 h5)
  have c4: "prevTs (state_P ?exP) <s ts_field 25169920 \<and> seq_field 25169920 = 0 \<and>
            (\<exists>u\<in>set [?t, ?n]. ts_field 25169920 = relative 0 u)"
    by (rule T [THEN conjunct2, THEN conjunct2, THEN conjunct2, THEN conjunct1, THEN mp])
       (intro conjI h1 h2P h3 h4P b1' h5P)
  have c5: "25169920 = make_id (lts ?next) (push_bit snowflakeNodeIdShift 1) (seq ?next) \<and>
            0 \<le>s seq ?next \<and> seq ?next \<le>s 4095 \<and> seq_field 25169920 = seq ?next"
    by (rule T [THEN conjunct2, THEN conjunct2, THEN conjunct2, THEN conjunct2, THEN conjunct1,
                THEN mp])
       (intro conjI h2 h4 h5)
  have c6: "(\<exists>u\<in>set [?t, ?n]. 25169920 = make_id (relative 0 u) (push_bit snowflakeNodeIdShift 1)
                               (prevSeq (state_P ?nextP))) \<and>
      0 \<le>s prevSeq (state_P ?nextP) \<and> prevSeq (state_P ?nextP) \<le>s 4095 \<and>
      seq_field 25169920 = prevSeq (state_P ?nextP)"
    by (rule T [THEN conjunct2, THEN conjunct2, THEN conjunct2, THEN conjunct2, THEN conjunct2,
                THEN mp])
       (intro conjI h2P h4P h5P)
  have d1: "Generate_round ?ex ?t = Sleep Millisecond" using c1 by blast
  have d2: "Generate ?ex [?t, ?n] = Generate ?ex [?n]" using c1 by blast
  have d3: "Generate_P_round ?exP [?t, ?n] = Some (Sleep Millisecond, [?n])" using c2 by blast
  have d4: "Generate_P ?exP [?t, ?n] = Generate_P ?exP [?n]" using c2 by blast
  have d5: "(5 :: int64) <s ts_field 25169920" using c3 by simp
  have d6: "seq_field 25169920 = 0" using c3 by blast
  have d7: "ts_field 25169920 = relative 0 ?n"
  proof -
    have "ts_field 25169920 \<noteq> relative 0 ?t" using d5 a2 by auto
    with c3 show ?thesis by auto
  qed
  have d8: "25169920 = make_id 6 (push_bit snowflakeNodeIdShift 1) 0" using c5 by simp
  have d9: "prevTs 24575 <s ts_field 25169920" using c4 by simp
  have p0: "prevSeq 24576 = 0" by code_simp
  have d10: "seq_field 25169920 = prevSeq 24576" using c6 by simp
  from a1 a2 d1 d2 b1 b2 d3 d4 h1 h2 h2P l3 h4 h5 d5 d6 d7 d8 h4P h5P d9 p0 d10
  show ?thesis by (intro conjI)
qed

text \<open>
  The claim as stated fails at the end of the 41 bits: 4096 calls in the millisecond
  \<open>2 ^ 41 - 1\<close> exhaust its sequence, and the call that follows, which goes round the
  loop once and then reads the millisecond \<open>2 ^ 41\<close>, returns an identifier whose
  timestamp field is \<open>- (2 ^ 41)\<close>, below the recorded \<open>2 ^ 41 - 1\<close>.
\<close>

theorem sequence_exhaustion_counterexample:
  "NewGenerator 1 0 \<lparr>UnixMilli = 0, monotonic = 0\<rparr> =
     (Some \<lparr>tsepoch = 0, shiftedNid = 4096, st = \<lparr>UnixMilli = 0, monotonic = 0\<rparr>,
             lts = 0, seq = 0\<rparr>, None) \<and>
   state_after Generate 4096
     \<lparr>tsepoch = 0, shiftedNid = 4096, st = \<lparr>UnixMilli = 0, monotonic = 0\<rparr>, lts = 0, seq = 0\<rparr>
     (replicate 4096 \<lparr>UnixMilli = 2199023255551, monotonic = 0\<rparr> @
      [\<lparr>UnixMilli = 2199023255551, monotonic = 1\<rparr>,
       \<lparr>UnixMilli = 2199023255552, monotonic = 1000001\<rparr>]) =
     Some (\<lparr>tsepoch = 0, shiftedNid = 4096, st = \<lparr>UnixMilli = 0, monotonic = 0\<rparr>,
             lts = 2199023255551, seq = 4095\<rparr>,
           [\<lparr>UnixMilli = 2199023255551, monotonic = 1\<rparr>,
            \<lparr>UnixMilli = 2199023255552, monotonic = 1000001\<rparr>]) \<and>
   Generate
     \<lparr>tsepoch = 0, shiftedNid = 4096, st = \<lparr>UnixMilli = 0, monotonic = 0\<rparr>,
        lts = 2199023255551, seq = 4095\<rparr>
     [\<lparr>UnixMilli = 2199023255551, monotonic = 1\<rparr>,
      \<lparr>UnixMilli = 2199023255552, monotonic = 1000001\<rparr>] =
     Some ((9223372036854779904, None),
           \<lparr>tsepoch = 0, shiftedNid = 4096, st = \<lparr>UnixMilli = 0, monotonic = 0\<rparr>,
              lts = 2199023255552, seq = 0\<rparr>, []) \<and>
   NewGenerator_P 1 0 = (Some \<lparr>tsepoch_P = 0, shiftedNid_P = 4096, state_P = 0\<rparr>, None) \<and>
   state_after Generate_P 4096 \<lparr>tsepoch_P = 0, shiftedNid_P = 4096, state_P = 0\<rparr>
     (replicate 4096 \<lparr>UnixMilli = 2199023255551, monotonic = 0\<rparr> @
      [\<lparr>UnixMilli = 2199023255551, monotonic = 1\<rparr>,
       \<lparr>UnixMilli = 2199023255552, monotonic = 1000001\<rparr>]) =
     Some (\<lparr>tsepoch_P = 0, shiftedNid_P = 4096, state_P = 9007199254740991\<rparr>,
           [\<lparr>UnixMilli = 2199023255551, monotonic = 1\<rparr>,
            \<lparr>UnixMilli = 2199023255552, monotonic = 1000001\<rparr>]) \<and>
   prevTs 9007199254740991 = 2199023255551 \<and> prevSeq 9007199254740991 = 4095 \<and>
   Generate_P \<lparr>tsepoch_P = 0, shiftedNid_P = 4096, state_P = 9007199254740991\<rparr>
     [\<lparr>UnixMilli = 2199023255551, monotonic = 1\<rparr>,
      \<lparr>UnixMilli = 2199023255552, monotonic = 1000001\<rparr>] =
     Some ((9223372036854779904, None),
           \<lparr>tsepoch_P = 0, shiftedNid_P = 4096, state_P = 9007199254740992\<rparr>, []) \<and>
   ts_field 9223372036854779904 = - 2199023255552 \<and>
   seq_field 9223372036854779904 = 0 \<and>
   \<not> (2199023255551 :: int64) <s ts_field 9223372036854779904"
proof -
  let ?z = "\<lparr>UnixMilli = 0, monotonic = 0\<rparr>"
  let ?m = "\<lparr>UnixMilli = 2199023255551, monotonic = 0\<rparr>"
  let ?t = "\<lparr>UnixMilli = 2199023255551, monotonic = 1\<rparr>"
  let ?n = "\<lparr>UnixMilli = 2199023255552, monotonic = 1000001\<rparr>"
  let ?fresh = "\<lparr>tsepoch = 0, shiftedNid = 4096, st = ?z, lts = 0, seq = 0\<rparr>"
  let ?ex = "\<lparr>tsepoch = 0, shiftedNid = 4096, st = ?z, lts = 2199023255551, seq = 4095\<rparr>"
  let ?next = "\<lparr>tsepoch = 0, shiftedNid = 4096, st = ?z, lts = 2199023255552, seq = 0\<rparr>"
  let ?freshP = "\<lparr>tsepoch_P = 0, shiftedNid_P = 4096, state_P = 0\<rparr>"
  let ?exP = "\<lparr>tsepoch_P = 0, shiftedNid_P = 4096, state_P = 9007199254740991\<rparr>"
  let ?nextP = "\<lparr>tsepoch_P = 0, shiftedNid_P = 4096, state_P = 9007199254740992\<rparr>"
  have n4096: "(4096 :: nat) = Suc 4095" by simp
  have h2: "NewGenerator 1 0 ?z = (Some ?fresh, None)" by code_simp
  have h2P: "NewGenerator_P 1 0 = (Some ?freshP, None)" by code_simp
  have lt: "lts ?fresh <s relative (tsepoch ?fresh) ?m" by code_simp
  have "state_after Generate (Suc 4095) ?fresh (replicate (Suc 4095) ?m @ [?t, ?n]) =
        Some (?fresh\<lparr>lts := relative (tsepoch ?fresh) ?m, seq := of_nat 4095\<rparr>, [?t, ?n])"
    by (rule state_after_fill [OF lt]) simp
  moreover have "?fresh\<lparr>lts := relative (tsepoch ?fresh) ?m, seq := of_nat 4095\<rparr> = ?ex"
    by (simp add: relative_def)
  ultimately have h4: "state_after Generate 4096 ?fresh (replicate 4096 ?m @ [?t, ?n]) =
        Some (?ex, [?t, ?n])"
    by (simp only: n4096)
  have h5: "Generate ?ex [?t, ?n] = Some ((9223372036854779904, None), ?next, [])" by code_simp
  have ltP: "prevTs (state_P ?freshP) <s relative (tsepoch_P ?freshP) ?m" by code_simp
  have wP: "in_width 51 (relative (tsepoch_P ?freshP) ?m)" by code_simp
  have "state_after Generate_P (Suc 4095) ?freshP (replicate (Suc 4095) ?m @ [?t, ?n]) =
        Some (?freshP\<lparr>state_P := push_bit snowflakeSequenceBits (relative (tsepoch_P ?freshP) ?m)
                                   OR of_nat 4095\<rparr>, [?t, ?n])"
    by (rule state_after_P_fill [OF ltP wP]) simp
  moreover have "push_bit snowflakeSequenceBits (relative (tsepoch_P ?freshP) ?m) OR of_nat 4095 =
                 (9007199254740991 :: int64)"
    by code_simp
  ultimately have h4P: "state_after Generate_P 4096 ?freshP (replicate 4096 ?m @ [?t, ?n]) =
        Some (?exP, [?t, ?n])"
    by (simp only: n4096 SnowflakeGenerator_P.simps)
  have p1: "prevTs 9007199254740991 = 2199023255551" by code_simp
  have p2: "prevSeq 9007199254740991 = 4095" by code_simp
  have h5P: "Generate_P ?exP [?t, ?n] = Some ((9223372036854779904, None), ?nextP, [])"
    by code_simp
  have f1: "ts_field 9223372036854779904 = - 2199023255552" by code_simp
  have f2: "seq_field 9223372036854779904 = 0" by code_simp
  have f3: "\<not> (2199023255551 :: int64) <s ts_field 9223372036854779904" by code_simp
  from h2 h4 h5 h2P h4P p1 p2 h5P f1 f2 f3 show ?thesis by (intro conjI)
qed

section \<open>A clock that goes backwards\<close>

text \<open>
  C3, amended. When the reading is behind the recorded timestamp:
  \<^item> \<open>Generate\<close> of \<open>snowflake_generator.go\<close> fails at once with
    \<open>ErrGenerationClockRollback\<close>, without reading the clock again;
  \<^item> \<open>Generate\<close> of \<open>part_001\<close> takes a reading \<open>d\<close> and polls, two readings a round,
    while the monotonic clock is less than 15 ms after \<open>d\<close>, with one
    \<open>time.Sleep(1 * time.Millisecond)\<close> after each round whose reading is still behind;
    as soon as a reading \<open>n\<close> has caught up it goes on as a call whose first reading is
    \<open>n\<close>; when the 15 ms have passed with every reading behind, it fails with
    \<open>ErrGenerationClockRollback\<close>.
  On a generator built by \<open>NewGenerator\<close> with a node id that is not negative, and
  while every relative timestamp read is below \<open>2 ^ 41\<close>, the timestamp field of an
  identifier that a call returns is not smaller than the timestamp recorded before the
  call (it is the timestamp recorded after it).
\<close>

theorem rollback_tolerance:
  "(relative (tsepoch s) t <s lts s \<longrightarrow>
      Generate s (t # clk) = Some ((0, Some ErrGenerationClockRollback), s, clk)) \<and>
   (relative (tsepoch_P p) t <s prevTs (state_P p) \<and>
    (\<forall>(c, n)\<in>set rounds. monotonic c < monotonic d + 15 * Millisecond \<and>
                            relative (tsepoch_P p) n <s prevTs (state_P p)) \<and>
    monotonic c < monotonic d + 15 * Millisecond \<and>
    prevTs (state_P p) \<le>s relative (tsepoch_P p) n \<longrightarrow>
      wait_rollback (tsepoch_P p) (prevTs (state_P p)) (relative (tsepoch_P p) t)
          (d # flat rounds @ c # n # clk) =
        Some (relative (tsepoch_P p) n, replicate (length rounds) Millisecond, clk) \<and>
      Generate_P p (t # d # flat rounds @ c # n # clk) = Generate_P p (n # clk)) \<and>
   (relative (tsepoch_P p) t <s prevTs (state_P p) \<and>
    (\<forall>(c, n)\<in>set rounds. monotonic c < monotonic d + 15 * Millisecond \<and>
                            relative (tsepoch_P p) n <s prevTs (state_P p)) \<and>
    monotonic d + 15 * Millisecond \<le> monotonic c \<longrightarrow>
      wait_rollback (tsepoch_P p) (prevTs (state_P p)) (relative (tsepoch_P p) t)
          (d # flat rounds @ c # clk) =
        Some (if rounds = [] then relative (tsepoch_P p) t
              else relative (tsepoch_P p) (snd (last rounds)),
              replicate (length rounds) Millisecond, clk) \<and>
      Generate_P p (t # d # flat rounds @ c # clk) =
        Some ((0, Some ErrGenerationClockRollback), p, clk)) \<and>
   (0 \<le>s nodeId \<and> NewGenerator nodeId epoch start = (Some fresh, None) \<and>
    (\<forall>u\<in>set later. relative epoch u <s 2 ^ 41) \<and>
    state_after Generate k fresh later = Some (sA, clkA) \<and>
    Generate sA clkA = Some ((sf, None), sA', clkA') \<longrightarrow>
      lts sA \<le>s ts_field sf \<and> ts_field sf = lts sA') \<and>
   (0 \<le>s nodeId \<and> NewGenerator_P nodeId epoch = (Some freshP, None) \<and>
    (\<forall>u\<in>set later. relative epoch u <s 2 ^ 41) \<and>
    state_after Generate_P k freshP later = Some (pB, clkB) \<and>
    Generate_P pB clkB = Some ((sfP, None), pB', clkB') \<longrightarrow>
      prevTs (state_P pB) \<le>s ts_field sfP \<and> ts_field sfP = prevTs (state_P pB'))"
proof (intro conjI impI)
  assume "relative (tsepoch s) t <s lts s"
  then show "Generate s (t # clk) = Some ((0, Some ErrGenerationClockRollback), s, clk)"
    by (simp add: Generate_round_eq)
next
  assume "relative (tsepoch_P p) t <s prevTs (state_P p) \<and>
    (\<forall>(c, n)\<in>set rounds. monotonic c < monotonic d + 15 * Millisecond \<and>
                            relative (tsepoch_P p) n <s prevTs (state_P p)) \<and>
    monotonic c < monotonic d + 15 * Millisecond \<and>
    prevTs (state_P p) \<le>s relative (tsepoch_P p) n"
  then have h: "relative (tsepoch_P p) t <s prevTs (state_P p)"
    "\<forall>(c, n)\<in>set rounds. monotonic c < monotonic d + 15000000 \<and>
                            relative (tsepoch_P p) n <s prevTs (state_P p)"
    "monotonic c < monotonic d + 15000000"
    "prevTs (state_P p) \<le>s relative (tsepoch_P p) n"
    by (simp_all add: Millisecond_def)
  show "wait_rollback (tsepoch_P p) (prevTs (state_P p)) (relative (tsepoch_P p) t)
          (d # flat rounds @ c # n # clk) =
        Some (relative (tsepoch_P p) n, replicate (length rounds) Millisecond, clk)"
    by (rule wait_rollback_caught_up [OF h])
  have "attempt_P (tsepoch_P p) (state_P p) (t # d # flat rounds @ c # n # clk) =
             attempt_P (tsepoch_P p) (state_P p) (n # clk)"
    by (rule attempt_P_caught_up [OF h])
  then show "Generate_P p (t # d # flat rounds @ c # n # clk) = Generate_P p (n # clk)"
    by (intro Generate_P_eq_round) (simp add: Generate_P_round_eq)
next
  assume "relative (tsepoch_P p) t <s prevTs (state_P p) \<and>
    (\<forall>(c, n)\<in>set rounds. monotonic c < monotonic d + 15 * Millisecond \<and>
                            relative (tsepoch_P p) n <s prevTs (state_P p)) \<and>
    monotonic d + 15 * Millisecond \<le> monotonic c"
  then have h: "relative (tsepoch_P p) t <s prevTs (state_P p)"
    "\<forall>(c, n)\<in>set rounds. monotonic c < monotonic d + 15000000 \<and>
                            relative (tsepoch_P p) n <s prevTs (state_P p)"
    "monotonic d + 15000000 \<le> monotonic c"
    by (simp_all add: Millisecond_def)
  show "wait_rollback (tsepoch_P p) (prevTs (state_P p)) (relative (tsepoch_P p) t)
          (d # flat rounds @ c # clk) =
        Some (if rounds = [] then relative (tsepoch_P p) t
              else relative (tsepoch_P p) (snd (last rounds)),
              replicate (length rounds) Millisecond, clk)"
    by (rule wait_rollback_deadline [OF h])
  have "attempt_P (tsepoch_P p) (state_P p) (t # d # flat rounds @ c # clk) =
             Some (Rollback, clk)"
    by (rule attempt_P_deadline [OF h])
  then have "Generate_P_round p (t # d # flat rounds @ c # clk) =
             Some (Return (0, Some ErrGenerationClockRollback) p, clk)"
    by (simp add: Generate_P_round_eq)
  then show "Generate_P p (t # d # flat rounds @ c # clk) =
        Some ((0, Some ErrGenerationClockRollback), p, clk)"
    by (subst Generate_P.simps) simp
next
  assume h: "0 \<le>s nodeId \<and> NewGenerator nodeId epoch start = (Some fresh, None) \<and>
    (\<forall>u\<in>set later. relative epoch u <s 2 ^ 41) \<and>
    state_after Generate k fresh later = Some (sA, clkA) \<and>
    Generate sA clkA = Some ((sf, None), sA', clkA')"
  then have "in_range epoch later" by (simp add: in_range_def)
  from reach_A [OF _ _ this] h have "inv_A nodeId epoch sA" "in_range epoch clkA" by blast+
  from Generate_ts_field [OF _ this] h
  have r: "lts sA \<le>s ts_field sf \<and> ts_field sf = lts sA'" by blast
  from r show "lts sA \<le>s ts_field sf" by blast
  from r show "ts_field sf = lts sA'" by blast
next
  assume h: "0 \<le>s nodeId \<and> NewGenerator_P nodeId epoch = (Some freshP, None) \<and>
    (\<forall>u\<in>set later. relative epoch u <s 2 ^ 41) \<and>
    state_after Generate_P k freshP later = Some (pB, clkB) \<and>
    Generate_P pB clkB = Some ((sfP, None), pB', clkB')"
  then have "in_range epoch later" by (simp add: in_range_def)
  from reach_P [OF _ _ this] h have "inv_P nodeId epoch pB" "in_range epoch clkB" by blast+
  from Generate_P_ts_field [OF _ this] h
  have r: "prevTs (state_P pB) \<le>s ts_field sfP \<and> ts_field sfP = prevTs (state_P pB')" by blast
  from r show "prevTs (state_P pB) \<le>s ts_field sfP" by blast
  from r show "ts_field sfP = prevTs (state_P pB')" by blast
qed

theorem rollback_tolerance_witness:
  "relative 0 \<lparr>UnixMilli = 4, monotonic = 1000\<rparr> <s (5 :: int64) \<and>
   Generate
     \<lparr>tsepoch = 0, shiftedNid = 4096, st = \<lparr>UnixMilli = 0, monotonic = 0\<rparr>, lts = 5, seq = 0\<rparr>
     [\<lparr>UnixMilli = 4, monotonic = 1000\<rparr>, \<lparr>UnixMilli = 5, monotonic = 2000\<rparr>] =
     Some ((0, Some ErrGenerationClockRollback),
       \<lparr>tsepoch = 0, shiftedNid = 4096, st = \<lparr>UnixMilli = 0, monotonic = 0\<rparr>, lts = 5, seq = 0\<rparr>,
       [\<lparr>UnixMilli = 5, monotonic = 2000\<rparr>]) \<and>
   prevTs 20480 = 5 \<and>
   list_all (\<lambda>(c, n). monotonic c < monotonic \<lparr>UnixMilli = 4, monotonic = 2000\<rparr> +
                          15 * Millisecond \<and> relative 0 n <s (5 :: int64))
     [(\<lparr>UnixMilli = 4, monotonic = 3000\<rparr>, \<lparr>UnixMilli = 4, monotonic = 4000\<rparr>)] \<and>
   monotonic \<lparr>UnixMilli = 4, monotonic = 1004000\<rparr> <
     monotonic \<lparr>UnixMilli = 4, monotonic = 2000\<rparr> + 15 * Millisecond \<and>
   (5 :: int64) \<le>s relative 0 \<lparr>UnixMilli = 5, monotonic = 1005000\<rparr> \<and>
   wait_rollback 0 5 4
     (\<lparr>UnixMilli = 4, monotonic = 2000\<rparr> #
      flat [(\<lparr>UnixMilli = 4, monotonic = 3000\<rparr>, \<lparr>UnixMilli = 4, monotonic = 4000\<rparr>)] @
      \<lparr>UnixMilli = 4, monotonic = 1004000\<rparr> # \<lparr>UnixMilli = 5, monotonic = 1005000\<rparr> # []) =
     Some (5, [Millisecond], []) \<and>
   Generate_P \<lparr>tsepoch_P = 0, shiftedNid_P = 4096, state_P = 20480\<rparr>
     (\<lparr>UnixMilli = 4, monotonic = 1000\<rparr> # \<lparr>UnixMilli = 4, monotonic = 2000\<rparr> #
      flat [(\<lparr>UnixMilli = 4, monotonic = 3000\<rparr>, \<lparr>UnixMilli = 4, monotonic = 4000\<rparr>)] @
      \<lparr>UnixMilli = 4, monotonic = 1004000\<rparr> # \<lparr>UnixMilli = 5, monotonic = 1005000\<rparr> # []) =
   Generate_P \<lparr>tsepoch_P = 0, shiftedNid_P = 4096, state_P = 20480\<rparr>
     (\<lparr>UnixMilli = 5, monotonic = 1005000\<rparr> # []) \<and>
   Generate_P \<lparr>tsepoch_P = 0, shiftedNid_P = 4096, state_P = 20480\<rparr>
     (\<lparr>UnixMilli = 5, monotonic = 1005000\<rparr> # []) =
     Some ((20975617, None), \<lparr>tsepoch_P = 0, shiftedNid_P = 4096, state_P = 20481\<rparr>, []) \<and>
   monotonic \<lparr>UnixMilli = 4, monotonic = 2000\<rparr> + 15 * Millisecond \<le>
     monotonic \<lparr>UnixMilli = 4, monotonic = 15002000\<rparr> \<and>
   wait_rollback 0 5 4
     (\<lparr>UnixMilli = 4, monotonic = 2000\<rparr> #
      flat [(\<lparr>UnixMilli = 4, monotonic = 3000\<rparr>, \<lparr>UnixMilli = 4, monotonic = 4000\<rparr>)] @
      \<lparr>UnixMilli = 4, monotonic = 15002000\<rparr> # [\<lparr>UnixMilli = 5, monotonic = 15003000\<rparr>]) =
     Some (4, [Millisecond], [\<lparr>UnixMilli = 5, monotonic = 15003000\<rparr>]) \<and>
   Generate_P \<lparr>tsepoch_P = 0, shiftedNid_P = 4096, state_P = 20480\<rparr>
     (\<lparr>UnixMilli = 4, monotonic = 1000\<rparr> # \<lparr>UnixMilli = 4, monotonic = 2000\<rparr> #
      flat [(\<lparr>UnixMilli = 4, monotonic = 3000\<rparr>, \<lparr>UnixMilli = 4, monotonic = 4000\<rparr>)] @
      \<lparr>UnixMilli = 4, monotonic = 15002000\<rparr> # [\<lparr>UnixMilli = 5, monotonic = 15003000\<rparr>]) =
     Some ((0, Some ErrGenerationClockRollback),
           \<lparr>tsepoch_P = 0, shiftedNid_P = 4096, state_P = 20480\<rparr>,
           [\<lparr>UnixMilli = 5, monotonic = 15003000\<rparr>]) \<and>
   0 \<le>s (1 :: int64) \<and>
   NewGenerator 1 0 \<lparr>UnixMilli = 0, monotonic = 0\<rparr> =
     (Some \<lparr>tsepoch = 0, shiftedNid = 4096, st = \<lparr>UnixMilli = 0, monotonic = 0\<rparr>,
             lts = 0, seq = 0\<rparr>, None) \<and>
   NewGenerator_P 1 0 = (Some \<lparr>tsepoch_P = 0, shiftedNid_P = 4096, state_P = 0\<rparr>, None) \<and>
   list_all (\<lambda>u. relative 0 u <s 2 ^ 41)
     [\<lparr>UnixMilli = 5, monotonic = 0\<rparr>, \<lparr>UnixMilli = 4, monotonic = 1000\<rparr>,
      \<lparr>UnixMilli = 4, monotonic = 2000\<rparr>, \<lparr>UnixMilli = 4, monotonic = 1004000\<rparr>,
      \<lparr>UnixMilli = 5, monotonic = 1005000\<rparr>] \<and>
   state_after Generate 1
     \<lparr>tsepoch = 0, shiftedNid = 4096, st = \<lparr>UnixMilli = 0, monotonic = 0\<rparr>, lts = 0, seq = 0\<rparr>
     [\<lparr>UnixMilli = 5, monotonic = 0\<rparr>, \<lparr>UnixMilli = 4, monotonic = 1000\<rparr>,
      \<lparr>UnixMilli = 4, monotonic = 2000\<rparr>, \<lparr>UnixMilli = 4, monotonic = 1004000\<rparr>,
      \<lparr>UnixMilli = 5, monotonic = 1005000\<rparr>] =
     Some (\<lparr>tsepoch = 0, shiftedNid = 4096, st = \<lparr>UnixMilli = 0, monotonic = 0\<rparr>,
             lts = 5, seq = 0\<rparr>,
           [\<lparr>UnixMilli = 4, monotonic = 1000\<rparr>,
            \<lparr>UnixMilli = 4, monotonic = 2000\<rparr>, \<lparr>UnixMilli = 4, monotonic = 1004000\<rparr>,
            \<lparr>UnixMilli = 5, monotonic = 1005000\<rparr>]) \<and>
   state_after Generate 2
     \<lparr>tsepoch = 0, shiftedNid = 4096, st = \<lparr>UnixMilli = 0, monotonic = 0\<rparr>, lts = 0, seq = 0\<rparr>
     [\<lparr>UnixMilli = 5, monotonic = 0\<rparr>, \<lparr>UnixMilli = 4, monotonic = 1000\<rparr>,
      \<lparr>UnixMilli = 4, monotonic = 2000\<rparr>, \<lparr>UnixMilli = 4, monotonic = 1004000\<rparr>,
      \<lparr>UnixMilli = 5, monotonic = 1005000\<rparr>] =
     Some (\<lparr>tsepoch = 0, shiftedNid = 4096, st = \<lparr>UnixMilli = 0, monotonic = 0\<rparr>,
             lts = 5, seq = 0\<rparr>,
           [\<lparr>UnixMilli = 4, monotonic = 2000\<rparr>, \<lparr>UnixMilli = 4, monotonic = 1004000\<rparr>,
            \<lparr>UnixMilli = 5, monotonic = 1005000\<rparr>]) \<and>
   Generate
     \<lparr>tsepoch = 0, shiftedNid = 4096, st = \<lparr>UnixMilli = 0, monotonic = 0\<rparr>, lts = 5, seq = 0\<rparr>
     [\<lparr>UnixMilli = 4, monotonic = 2000\<rparr>, \<lparr>UnixMilli = 4, monotonic = 1004000\<rparr>,
      \<lparr>UnixMilli = 5, monotonic = 1005000\<rparr>] =
     Some ((0, Some ErrGenerationClockRollback),
           \<lparr>tsepoch = 0, shiftedNid = 4096, st = \<lparr>UnixMilli = 0, monotonic = 0\<rparr>,
              lts = 5, seq = 0\<rparr>,
           [\<lparr>UnixMilli = 4, monotonic = 1004000\<rparr>, \<lparr>UnixMilli = 5, monotonic = 1005000\<rparr>]) \<and>
   state_after Generate 4
     \<lparr>tsepoch = 0, shiftedNid = 4096, st = \<lparr>UnixMilli = 0, monotonic = 0\<rparr>, lts = 0, seq = 0\<rparr>
     [\<lparr>UnixMilli = 5, monotonic = 0\<rparr>, \<lparr>UnixMilli = 4, monotonic = 1000\<rparr>,
      \<lparr>UnixMilli = 4, monotonic = 2000\<rparr>, \<lparr>UnixMilli = 4, monotonic = 1004000\<rparr>,
      \<lparr>UnixMilli = 5, monotonic = 1005000\<rparr>] =
     Some (\<lparr>tsepoch = 0, shiftedNid = 4096, st = \<lparr>UnixMilli = 0, monotonic = 0\<rparr>,
             lts = 5, seq = 0\<rparr>, [\<lparr>UnixMilli = 5, monotonic = 1005000\<rparr>]) \<and>
   Generate
     \<lparr>tsepoch = 0, shiftedNid = 4096, st = \<lparr>UnixMilli = 0, monotonic = 0\<rparr>, lts = 5, seq = 0\<rparr>
     [\<lparr>UnixMilli = 5, monotonic = 1005000\<rparr>] =
     Some ((20975617, None),
           \<lparr>tsepoch = 0, shiftedNid = 4096, st = \<lparr>UnixMilli = 0, monotonic = 0\<rparr>,
              lts = 5, seq = 1\<rparr>, []) \<and>
   (5 :: int64) \<le>s ts_field 20975617 \<and> ts_field 20975617 = 5 \<and>
   state_after Generate_P 1 \<lparr>tsepoch_P = 0, shiftedNid_P = 4096, state_P = 0\<rparr>
     [\<lparr>UnixMilli = 5, monotonic = 0\<rparr>, \<lparr>UnixMilli = 4, monotonic = 1000\<rparr>,
      \<lparr>UnixMilli = 4, monotonic = 2000\<rparr>, \<lparr>UnixMilli = 4, monotonic = 1004000\<rparr>,
      \<lparr>UnixMilli = 5, monotonic = 1005000\<rparr>] =
     Some (\<lparr>tsepoch_P = 0, shiftedNid_P = 4096, state_P = 20480\<rparr>,
           [\<lparr>UnixMilli = 4, monotonic = 1000\<rparr>,
            \<lparr>UnixMilli = 4, monotonic = 2000\<rparr>, \<lparr>UnixMilli = 4, monotonic = 1004000\<rparr>,
            \<lparr>UnixMilli = 5, monotonic = 1005000\<rparr>]) \<and>
   Generate_P \<lparr>tsepoch_P = 0, shiftedNid_P = 4096, state_P = 20480\<rparr>
     [\<lparr>UnixMilli = 4, monotonic = 1000\<rparr>,
      \<lparr>UnixMilli = 4, monotonic = 2000\<rparr>, \<lparr>UnixMilli = 4, monotonic = 1004000\<rparr>,
      \<lparr>UnixMilli = 5, monotonic = 1005000\<rparr>] =
     Some ((20975617, None), \<lparr>tsepoch_P = 0, shiftedNid_P = 4096, state_P = 20481\<rparr>, []) \<and>
   prevTs 20480 \<le>s ts_field 20975617 \<and> ts_field 20975617 = prevTs 20481"
proof -
  let ?z = "\<lparr>UnixMilli = 0, monotonic = 0\<rparr>"
  let ?s = "\<lparr>tsepoch = 0, shiftedNid = 4096, st = ?z, lts = 5, seq = 0\<rparr>"
  let ?s' = "\<lparr>tsepoch = 0, shiftedNid = 4096, st = ?z, lts = 5, seq = 1\<rparr>"
  let ?fresh = "\<lparr>tsepoch = 0, shiftedNid = 4096, st = ?z, lts = 0, seq = 0\<rparr>"
  let ?freshP = "\<lparr>tsepoch_P = 0, shiftedNid_P = 4096, state_P = 0\<rparr>"
  let ?p = "\<lparr>tsepoch_P = 0, shiftedNid_P = 4096, state_P = 20480\<rparr>"
  let ?p' = "\<lparr>tsepoch_P = 0, shiftedNid_P = 4096, state_P = 20481\<rparr>"
  let ?f = "\<lparr>UnixMilli = 5, monotonic = 0\<rparr>"
  let ?t = "\<lparr>UnixMilli = 4, monotonic = 1000\<rparr>"
  let ?d = "\<lparr>UnixMilli = 4, monotonic = 2000\<rparr>"
  let ?rounds = "[(\<lparr>UnixMilli = 4, monotonic = 3000\<rparr>, \<lparr>UnixMilli = 4, monotonic = 4000\<rparr>)]"
  let ?c = "\<lparr>UnixMilli = 4, monotonic = 1004000\<rparr>"
  let ?n = "\<lparr>UnixMilli = 5, monotonic = 1005000\<rparr>"
  let ?late = "\<lparr>UnixMilli = 4, monotonic = 15002000\<rparr>"
  let ?after = "[\<lparr>UnixMilli = 5, monotonic = 15003000\<rparr>]"
  let ?later = "[?f, ?t, ?d, ?c, ?n]"
  note T1 = rollback_tolerance [where s = ?s and t = ?t
      and clk = "[\<lparr>UnixMilli = 5, monotonic = 2000\<rparr>]" and p = ?p]
  note T2 = rollback_tolerance [where p = ?p and t = ?t and d = ?d and rounds = ?rounds
      and c = ?c and n = ?n and clk = "[]"]
  note T3 = rollback_tolerance [where p = ?p and t = ?t and d = ?d and rounds = ?rounds
      and c = ?late and clk = ?after]
  note T4 = rollback_tolerance [where nodeId = 1 and epoch = 0 and start = ?z
      and fresh = ?fresh and later = ?later and k = 4 and sA = ?s and clkA = "[?n]"
      and sf = 20975617 and sA' = ?s' and clkA' = "[]" and freshP = ?freshP and pB = ?p
      and clkB = "[?t, ?d, ?c, ?n]" and sfP = 20975617 and pB' = ?p' and clkB' = "[]"]
  note T5 = rollback_tolerance [where nodeId = 1 and epoch = 0
      and later = ?later and k = 1 and freshP = ?freshP and pB = ?p
      and clkB = "[?t, ?d, ?c, ?n]" and sfP = 20975617 and pB' = ?p' and clkB' = "[]"]
  have a1: "relative 0 ?t <s (5 :: int64)" by code_simp
  have b1: "relative (tsepoch ?s) ?t <s lts ?s" by code_simp
  have b2: "relative (tsepoch_P ?p) ?t <s prevTs (state_P ?p)" by code_simp
  have b3: "\<forall>(c, n)\<in>set ?rounds. monotonic c < monotonic ?d + 15 * Millisecond \<and>
              relative (tsepoch_P ?p) n <s prevTs (state_P ?p)" by code_simp
  have l3: "list_all (\<lambda>(c, n). monotonic c < monotonic ?d + 15 * Millisecond \<and>
              relative 0 n <s (5 :: int64)) ?rounds" by code_simp
  have b4: "monotonic ?c < monotonic ?d + 15 * Millisecond" by (simp add: Millisecond_def)
  have b5: "prevTs (state_P ?p) \<le>s relative (tsepoch_P ?p) ?n" by code_simp
  have a5: "(5 :: int64) \<le>s relative 0 ?n" by code_simp
  have b6: "monotonic ?d + 15 * Millisecond \<le> monotonic ?late" by (simp add: Millisecond_def)
  have pt: "prevTs 20480 = 5" by code_simp
  have pt': "prevTs 20481 = 5" by code_simp
  have e: "tsepoch_P ?p = 0" "prevTs (state_P ?p) = 5" "relative 0 ?t = (4 :: int64)"
    "relative 0 ?n = (5 :: int64)" by code_simp+
  have g: "Generate_P ?p [?n] = Some ((20975617, None), ?p', [])" by code_simp
  have c1: "Generate ?s [?t, \<lparr>UnixMilli = 5, monotonic = 2000\<rparr>] =
     Some ((0, Some ErrGenerationClockRollback), ?s, [\<lparr>UnixMilli = 5, monotonic = 2000\<rparr>])"
    by (rule T1 [THEN conjunct1, THEN mp]) (rule b1)
  have c2: "wait_rollback (tsepoch_P ?p) (prevTs (state_P ?p)) (relative (tsepoch_P ?p) ?t)
          (?d # flat ?rounds @ ?c # ?n # []) =
        Some (relative (tsepoch_P ?p) ?n, replicate (length ?rounds) Millisecond, []) \<and>
      Generate_P ?p (?t # ?d # flat ?rounds @ ?c # ?n # []) = Generate_P ?p (?n # [])"
    by (rule T2 [THEN conjunct2, THEN conjunct1, THEN mp]) (intro conjI b2 b3 b4 b5)
  have c2a: "wait_rollback 0 5 4 (?d # flat ?rounds @ ?c # ?n # []) = Some (5, [Millisecond], [])"
    using c2 [THEN conjunct1] by (simp only: e) simp
  have c2b: "Generate_P ?p (?t # ?d # flat ?rounds @ ?c # ?n # []) = Generate_P ?p (?n # [])"
    using c2 by blast
  have c3: "wait_rollback (tsepoch_P ?p) (prevTs (state_P ?p)) (relative (tsepoch_P ?p) ?t)
          (?d # flat ?rounds @ ?late # ?after) =
        Some (if ?rounds = [] then relative (tsepoch_P ?p) ?t
              else relative (tsepoch_P ?p) (snd (last ?rounds)),
              replicate (length ?rounds) Millisecond, ?after) \<and>
      Generate_P ?p (?t # ?d # flat ?rounds @ ?late # ?after) =
        Some ((0, Some ErrGenerationClockRollback), ?p, ?after)"
    by (rule T3 [THEN conjunct2, THEN conjunct2, THEN conjunct1, THEN mp])
       (intro conjI b2 b3 b6)
  have e4: "relative 0 \<lparr>UnixMilli = 4, monotonic = 4000\<rparr> = (4 :: int64)" by code_simp
  have c3a: "wait_rollback 0 5 4 (?d # flat ?rounds @ ?late # ?after) =
        Some (4, [Millisecond], ?after)"
    using c3 [THEN conjunct1] by (simp only: e) (simp add: e4)
  have c3b: "Generate_P ?p (?t # ?d # flat ?rounds @ ?late # ?after) =
        Some ((0, Some ErrGenerationClockRollback), ?p, ?after)"
    using c3 by blast
  have h1: "0 \<le>s (1 :: int64)" by (simp add: word_sle_eq)
  have h2: "NewGenerator 1 0 ?z = (Some ?fresh, None)" by code_simp
  have h2P: "NewGenerator_P 1 0 = (Some ?freshP, None)" by code_simp
  have h3: "\<forall>u\<in>set ?later. relative 0 u <s 2 ^ 41" by code_simp
  have l4: "list_all (\<lambda>u. relative 0 u <s 2 ^ 41) ?later" by code_simp
  have s1: "state_after Generate 1 ?fresh ?later = Some (?s, [?t, ?d, ?c, ?n])" by code_simp
  have s2: "state_after Generate 2 ?fresh ?later = Some (?s, [?d, ?c, ?n])" by code_simp
  have s3: "Generate ?s [?d, ?c, ?n] =
            Some ((0, Some ErrGenerationClockRollback), ?s, [?c, ?n])" by code_simp
  have s4: "state_after Generate 4 ?fresh ?later = Some (?s, [?n])" by code_simp
  have s5: "Generate ?s [?n] = Some ((20975617, None), ?s', [])" by code_simp
  have c4: "lts ?s \<le>s ts_field 20975617 \<and> ts_field 20975617 = lts ?s'"
    by (rule T4 [THEN conjunct2, THEN conjunct2, THEN conjunct2, THEN conjunct1, THEN mp])
       (intro conjI h1 h2 h3 s4 s5)
  have d1: "(5 :: int64) \<le>s ts_field 20975617" using c4 [THEN conjunct1] by simp
  have d2: "ts_field 20975617 = 5" using c4 [THEN conjunct2] by simp
  have q1: "state_after Generate_P 1 ?freshP ?later = Some (?p, [?t, ?d, ?c, ?n])" by code_simp
  have q2: "Generate_P ?p [?t, ?d, ?c, ?n] = Some ((20975617, None), ?p', [])" by code_simp
  have c5: "prevTs (state_P ?p) \<le>s ts_field 20975617 \<and>
            ts_field 20975617 = prevTs (state_P ?p')"
    by (rule T5 [THEN conjunct2, THEN conjunct2, THEN conjunct2, THEN conjunct2, THEN mp])
       (intro conjI h1 h2P h3 q1 q2)
  have d3: "prevTs 20480 \<le>s ts_field 20975617" using c5 [THEN conjunct1] by simp
  have d4: "ts_field 20975617 = prevTs 20481" using c5 [THEN conjunct2] by simp
  from a1 c1 pt l3 b4 a5 c2a c2b g b6 c3a c3b h1 h2 h2P l4 s1 s2 s3 s4 s5 d1 d2 q1 q2 d3 d4
  show ?thesis by (intro conjI)
qed

text \<open>
  The claim as stated fails in two ways. \<open>snowflake_generator.go\<close> does not poll: after
  an identifier of millisecond 5, a call that reads millisecond 4 fails although the
  clock is back at millisecond 5 three microseconds later. And in both files the
  timestamp field of an identifier falls below the recorded timestamp once a relative
  timestamp reaches \<open>2 ^ 41\<close>: after a call in the millisecond \<open>2 ^ 41 - 1\<close>, the call in
  the next millisecond returns an identifier whose timestamp field is \<open>- (2 ^ 41)\<close>.
\<close>

theorem rollback_tolerance_counterexample:
  "Generate
     \<lparr>tsepoch = 0, shiftedNid = 4096, st = \<lparr>UnixMilli = 0, monotonic = 0\<rparr>, lts = 0, seq = 0\<rparr>
     [\<lparr>UnixMilli = 5, monotonic = 0\<rparr>] =
     Some ((20975616, None),
       \<lparr>tsepoch = 0, shiftedNid = 4096, st = \<lparr>UnixMilli = 0, monotonic = 0\<rparr>, lts = 5, seq = 0\<rparr>,
       []) \<and>
   Generate
     \<lparr>tsepoch = 0, shiftedNid = 4096, st = \<lparr>UnixMilli = 0, monotonic = 0\<rparr>, lts = 5, seq = 0\<rparr>
     [\<lparr>UnixMilli = 4, monotonic = 1000\<rparr>, \<lparr>UnixMilli = 4, monotonic = 2000\<rparr>,
      \<lparr>UnixMilli = 4, monotonic = 3000\<rparr>, \<lparr>UnixMilli = 5, monotonic = 4000\<rparr>] =
     Some ((0, Some ErrGenerationClockRollback),
       \<lparr>tsepoch = 0, shiftedNid = 4096, st = \<lparr>UnixMilli = 0, monotonic = 0\<rparr>, lts = 5, seq = 0\<rparr>,
       [\<lparr>UnixMilli = 4, monotonic = 2000\<rparr>, \<lparr>UnixMilli = 4, monotonic = 3000\<rparr>,
        \<lparr>UnixMilli = 5, monotonic = 4000\<rparr>]) \<and>
   monotonic \<lparr>UnixMilli = 5, monotonic = 4000\<rparr> <
     monotonic \<lparr>UnixMilli = 4, monotonic = 1000\<rparr> + 15 * Millisecond \<and>
   (5 :: int64) \<le>s relative 0 \<lparr>UnixMilli = 5, monotonic = 4000\<rparr> \<and>
   NewGenerator 1 0 \<lparr>UnixMilli = 0, monotonic = 0\<rparr> =
     (Some \<lparr>tsepoch = 0, shiftedNid = 4096, st = \<lparr>UnixMilli = 0, monotonic = 0\<rparr>,
             lts = 0, seq = 0\<rparr>, None) \<and>
   state_after Generate 1
     \<lparr>tsepoch = 0, shiftedNid = 4096, st = \<lparr>UnixMilli = 0, monotonic = 0\<rparr>, lts = 0, seq = 0\<rparr>
     [\<lparr>UnixMilli = 2199023255551, monotonic = 0\<rparr>,
      \<lparr>UnixMilli = 2199023255552, monotonic = 1000000\<rparr>] =
     Some (\<lparr>tsepoch = 0, shiftedNid = 4096, st = \<lparr>UnixMilli = 0, monotonic = 0\<rparr>,
             lts = 2199023255551, seq = 0\<rparr>,
           [\<lparr>UnixMilli = 2199023255552, monotonic = 1000000\<rparr>]) \<and>
   Generate
     \<lparr>tsepoch = 0, shiftedNid = 4096, st = \<lparr>UnixMilli = 0, monotonic = 0\<rparr>,
        lts = 2199023255551, seq = 0\<rparr>
     [\<lparr>UnixMilli = 2199023255552, monotonic = 1000000\<rparr>] =
     Some ((9223372036854779904, None),
           \<lparr>tsepoch = 0, shiftedNid = 4096, st = \<lparr>UnixMilli = 0, monotonic = 0\<rparr>,
              lts = 2199023255552, seq = 0\<rparr>, []) \<and>
   NewGenerator_P 1 0 = (Some \<lparr>tsepoch_P = 0, shiftedNid_P = 4096, state_P = 0\<rparr>, None) \<and>
   state_after Generate_P 1 \<lparr>tsepoch_P = 0, shiftedNid_P = 4096, state_P = 0\<rparr>
     [\<lparr>UnixMilli = 2199023255551, monotonic = 0\<rparr>,
      \<lparr>UnixMilli = 2199023255552, monotonic = 1000000\<rparr>] =
     Some (\<lparr>tsepoch_P = 0, shiftedNid_P = 4096, state_P = 9007199254736896\<rparr>,
           [\<lparr>UnixMilli = 2199023255552, monotonic = 1000000\<rparr>]) \<and>
   prevTs 9007199254736896 = 2199023255551 \<and>
   Generate_P \<lparr>tsepoch_P = 0, shiftedNid_P = 4096, state_P = 9007199254736896\<rparr>
     [\<lparr>UnixMilli = 2199023255552, monotonic = 1000000\<rparr>] =
     Some ((9223372036854779904, None),
           \<lparr>tsepoch_P = 0, shiftedNid_P = 4096, state_P = 9007199254740992\<rparr>, []) \<and>
   ts_field 9223372036854779904 = - 2199023255552 \<and>
   ts_field 9223372036854779904 <s (2199023255551 :: int64) \<and>
   \<not> (2199023255551 :: int64) \<le>s ts_field 9223372036854779904"
  by code_simp

section \<open>The two files compared\<close>

text \<open>
  C8, amended: from corresponding states, and on readings none of which is behind the
  recorded timestamp, a call of \<open>Generate\<close> of \<open>snowflake_generator.go\<close> and a call of
  \<open>Generate\<close> of \<open>part_001\<close> either both have not returned when the readings end, or
  both return the same identifier with a \<open>nil\<close> error after the same readings; the
  states afterwards correspond again when the new recorded timestamp fits 51 bits.
\<close>

theorem variants_agree:
  assumes "corresponds s p"
    and "\<forall>t\<in>set clk. lts s \<le>s relative (tsepoch s) t"
  shows "rel_option
           (\<lambda>(r, s', c) (r', p', c').
              r' = r \<and> c' = c \<and> snd r = None \<and> (in_width 51 (lts s') \<longrightarrow> corresponds s' p'))
           (Generate s clk) (Generate_P p clk)"
  using assms(2)
proof (induction clk)
  case Nil
  have "Generate_P p [] = None"
    by (subst Generate_P.simps) (simp add: Generate_P_round_eq attempt_P_def)
  then show ?case by simp
next
  case (Cons t clk)
  then have nb: "lts s \<le>s relative (tsepoch s) t"
    and rest: "\<forall>t\<in>set clk. lts s \<le>s relative (tsepoch s) t"
    by simp_all
  note P = Generate_P_round_corresponds [OF assms(1) nb, of clk]
  show ?case
  proof (cases "Generate_round s t")
    case Continue
    with P have "Generate_P p (t # clk) = Generate_P p clk"
      by (subst Generate_P.simps) simp
    with Continue Cons.IH [OF rest] show ?thesis by simp
  next
    case (Sleep d)
    with P have "Generate_P p (t # clk) = Generate_P p clk"
      by (subst Generate_P.simps) simp
    with Sleep Cons.IH [OF rest] show ?thesis by simp
  next
    case (Return r s')
    with P have gp: "Generate_P p (t # clk) =
        Some (r, p\<lparr>state_P := push_bit snowflakeSequenceBits (lts s') OR seq s'\<rparr>, clk)"
      by (subst Generate_P.simps) simp
    obtain sf e where r: "r = (sf, e)" by (cases r)
    have ok: "e = None"
    proof (cases e)
      case (Some x)
      with Return r Generate_round_error [of s t sf x s'] nb show ?thesis
        by (simp add: signed.not_less [symmetric])
    qed simp
    from Generate_round_corresponds [OF assms(1), of t sf s'] Return r ok
    have "in_width 51 (lts s') \<longrightarrow>
        corresponds s' (p\<lparr>state_P := push_bit snowflakeSequenceBits (lts s') OR seq s'\<rparr>)"
      by simp
    with Return gp r ok show ?thesis by simp
  qed
qed

theorem variants_agree_witness:
  "corresponds
     \<lparr>tsepoch = 0, shiftedNid = 4096, st = \<lparr>UnixMilli = 0, monotonic = 0\<rparr>, lts = 5, seq = 0\<rparr>
     \<lparr>tsepoch_P = 0, shiftedNid_P = 4096, state_P = 20480\<rparr> \<and>
   list_all (\<lambda>t. (5 :: int64) \<le>s relative 0 t)
     [\<lparr>UnixMilli = 5, monotonic = 10\<rparr>, \<lparr>UnixMilli = 6, monotonic = 1000010\<rparr>] \<and>
   Generate
     \<lparr>tsepoch = 0, shiftedNid = 4096, st = \<lparr>UnixMilli = 0, monotonic = 0\<rparr>, lts = 5, seq = 0\<rparr>
     [\<lparr>UnixMilli = 5, monotonic = 10\<rparr>, \<lparr>UnixMilli = 6, monotonic = 1000010\<rparr>] =
     Some ((20975617, None),
       \<lparr>tsepoch = 0, shiftedNid = 4096, st = \<lparr>UnixMilli = 0, monotonic = 0\<rparr>, lts = 5, seq = 1\<rparr>,
       [\<lparr>UnixMilli = 6, monotonic = 1000010\<rparr>]) \<and>
   Generate_P \<lparr>tsepoch_P = 0, shiftedNid_P = 4096, state_P = 20480\<rparr>
     [\<lparr>UnixMilli = 5, monotonic = 10\<rparr>, \<lparr>UnixMilli = 6, monotonic = 1000010\<rparr>] =
     Some ((20975617, None), \<lparr>tsepoch_P = 0, shiftedNid_P = 4096, state_P = 20481\<rparr>,
       [\<lparr>UnixMilli = 6, monotonic = 1000010\<rparr>]) \<and>
   corresponds
     \<lparr>tsepoch = 0, shiftedNid = 4096, st = \<lparr>UnixMilli = 0, monotonic = 0\<rparr>, lts = 5, seq = 1\<rparr>
     \<lparr>tsepoch_P = 0, shiftedNid_P = 4096, state_P = 20481\<rparr>"
proof -
  let ?s = "\<lparr>tsepoch = 0, shiftedNid = 4096, st = \<lparr>UnixMilli = 0, monotonic = 0\<rparr>,
              lts = 5, seq = 0\<rparr>"
  let ?s' = "\<lparr>tsepoch = 0, shiftedNid = 4096, st = \<lparr>UnixMilli = 0, monotonic = 0\<rparr>,
               lts = 5, seq = 1\<rparr>"
  let ?p = "\<lparr>tsepoch_P = 0, shiftedNid_P = 4096, state_P = 20480\<rparr>"
  let ?p' = "\<lparr>tsepoch_P = 0, shiftedNid_P = 4096, state_P = 20481\<rparr>"
  let ?clk = "[\<lparr>UnixMilli = 5, monotonic = 10\<rparr>, \<lparr>UnixMilli = 6, monotonic = 1000010\<rparr>]"
  let ?rest = "[\<lparr>UnixMilli = 6, monotonic = 1000010\<rparr>]"
  have h1: "corresponds ?s ?p" by code_simp
  have h2: "\<forall>t\<in>set ?clk. lts ?s \<le>s relative (tsepoch ?s) t" by code_simp
  have h2': "list_all (\<lambda>t. (5 :: int64) \<le>s relative 0 t) ?clk" by code_simp
  have a: "Generate ?s ?clk = Some ((20975617, None), ?s', ?rest)" by code_simp
  have b: "Generate_P ?p ?clk = Some ((20975617, None), ?p', ?rest)" by code_simp
  have w: "in_width 51 (lts ?s')" by (simp add: in_width_uint)
  have "rel_option
          (\<lambda>(r, s', c) (r', p', c').
              r' = r \<and> c' = c \<and> snd r = None \<and> (in_width 51 (lts s') \<longrightarrow> corresponds s' p'))
          (Some ((20975617 :: Snowflake, None :: error option), ?s', ?rest))
          (Some ((20975617 :: Snowflake, None :: error option), ?p', ?rest))"
    using variants_agree [OF h1 h2] unfolding a b .
  then have "in_width 51 (lts ?s') \<longrightarrow> corresponds ?s' ?p'" by simp
  with w have c: "corresponds ?s' ?p'" by (rule rev_mp)
  from h1 h2' a b c show ?thesis by (intro conjI)
qed

text \<open>
  The claim as stated fails when a reading is behind: from corresponding states that
  record millisecond 5, on readings of millisecond 4 and then 5, the first file fails
  with \<open>ErrGenerationClockRollback\<close> and the second returns an identifier.
\<close>

theorem variants_agree_counterexample:
  "corresponds
     \<lparr>tsepoch = 0, shiftedNid = 4096, st = \<lparr>UnixMilli = 0, monotonic = 0\<rparr>, lts = 5, seq = 0\<rparr>
     \<lparr>tsepoch_P = 0, shiftedNid_P = 4096, state_P = 20480\<rparr> \<and>
   Generate
     \<lparr>tsepoch = 0, shiftedNid = 4096, st = \<lparr>UnixMilli = 0, monotonic = 0\<rparr>, lts = 5, seq = 0\<rparr>
     [\<lparr>UnixMilli = 4, monotonic = 0\<rparr>, \<lparr>UnixMilli = 4, monotonic = 1000\<rparr>,
      \<lparr>UnixMilli = 4, monotonic = 2000\<rparr>, \<lparr>UnixMilli = 5, monotonic = 3000\<rparr>] =
     Some ((0, Some ErrGenerationClockRollback),
       \<lparr>tsepoch = 0, shiftedNid = 4096, st = \<lparr>UnixMilli = 0, monotonic = 0\<rparr>, lts = 5, seq = 0\<rparr>,
       [\<lparr>UnixMilli = 4, monotonic = 1000\<rparr>, \<lparr>UnixMilli = 4, monotonic = 2000\<rparr>,
        \<lparr>UnixMilli = 5, monotonic = 3000\<rparr>]) \<and>
   Generate_P \<lparr>tsepoch_P = 0, shiftedNid_P = 4096, state_P = 20480\<rparr>
     [\<lparr>UnixMilli = 4, monotonic = 0\<rparr>, \<lparr>UnixMilli = 4, monotonic = 1000\<rparr>,
      \<lparr>UnixMilli = 4, monotonic = 2000\<rparr>, \<lparr>UnixMilli = 5, monotonic = 3000\<rparr>] =
     Some ((20975617, None), \<lparr>tsepoch_P = 0, shiftedNid_P = 4096, state_P = 20481\<rparr>, [])"
  by code_simp

end
